theory Spec2Isabelle
  imports Complex_Main "HOL-Library.List_Lexorder" "HOL-Library.Char_ord"
begin

section \<open>Data model\<close>

text \<open>
  Modelled from the spec: the models module (core/models.py) is not among the sources.
  The rows of the three tables the views manage carry the columns that the views and the
  API tests read and write. A Tag and an Ingredient have the same columns (id, user,
  name) and are served by the same base viewset, so one row type stands for both and
  \<open>attr_kind\<close> says which table is meant. The two many-to-many relations of a recipe
  (\<open>recipe.tags\<close>, \<open>recipe.ingredients\<close>) are the link tables of pairs
  (recipe id, tag or ingredient id).
\<close>

record attr =
  attr_id :: nat
  attr_user :: nat
  attr_name :: string

record recipe =
  recipe_id :: nat
  recipe_user :: nat
  title :: string
  time_minutes :: int
  price :: rat
  description :: string
  link :: string
  recipe_image :: "string option"

datatype attr_kind = TagKind | IngredientKind

record db =
  db_recipes :: "recipe list"
  db_tags :: "attr list"
  db_ingredients :: "attr list"
  db_recipe_tags :: "(nat \<times> nat) list"
  db_recipe_ingredients :: "(nat \<times> nat) list"

fun attrs_of :: "attr_kind \<Rightarrow> db \<Rightarrow> attr list" where
  "attrs_of TagKind d = db_tags d"
| "attrs_of IngredientKind d = db_ingredients d"

fun links_of :: "attr_kind \<Rightarrow> db \<Rightarrow> (nat \<times> nat) list" where
  "links_of TagKind d = db_recipe_tags d"
| "links_of IngredientKind d = db_recipe_ingredients d"

fun put_attrs :: "attr_kind \<Rightarrow> attr list \<Rightarrow> db \<Rightarrow> db" where
  "put_attrs TagKind xs d = d\<lparr>db_tags := xs\<rparr>"
| "put_attrs IngredientKind xs d = d\<lparr>db_ingredients := xs\<rparr>"

fun put_links :: "attr_kind \<Rightarrow> (nat \<times> nat) list \<Rightarrow> db \<Rightarrow> db" where
  "put_links TagKind ls d = d\<lparr>db_recipe_tags := ls\<rparr>"
| "put_links IngredientKind ls d = d\<lparr>db_recipe_ingredients := ls\<rparr>"

text \<open>\<open>recipe.tags.all()\<close> and \<open>recipe.ingredients.all()\<close>: the rows linked to a recipe.\<close>

definition linked :: "attr_kind \<Rightarrow> nat \<Rightarrow> db \<Rightarrow> attr list" where
  "linked k rid d = filter (\<lambda>a. (rid, attr_id a) \<in> set (links_of k d)) (attrs_of k d)"

text \<open>
  The primary key of every table is unique and a link row refers to an existing recipe:
  the constraints the database itself enforces.
\<close>

definition pk_unique :: "db \<Rightarrow> bool" where
  "pk_unique d =
     (distinct (map recipe_id (db_recipes d)) \<and>
      distinct (map attr_id (db_tags d)) \<and>
      distinct (map attr_id (db_ingredients d)))"

definition fk_valid :: "db \<Rightarrow> bool" where
  "fk_valid d =
     (fst ` set (db_recipe_tags d) \<subseteq> recipe_id ` set (db_recipes d) \<and>
      fst ` set (db_recipe_ingredients d) \<subseteq> recipe_id ` set (db_recipes d))"

definition wf_db :: "db \<Rightarrow> bool" where
  "wf_db d = (pk_unique d \<and> fk_valid d)"

text \<open>
  Every link row joins a recipe and a tag (or an ingredient) that exist and have the same
  owner. The database does not enforce the common owner; the empty database has it and a
  request keeps it where it holds.
\<close>

definition kind_links_scoped :: "attr_kind \<Rightarrow> db \<Rightarrow> bool" where
  "kind_links_scoped k d =
     list_all
       (\<lambda>l. \<exists>r \<in> set (db_recipes d). \<exists>a \<in> set (attrs_of k d).
              recipe_id r = fst l \<and> attr_id a = snd l \<and> recipe_user r = attr_user a)
       (links_of k d)"

definition links_scoped :: "db \<Rightarrow> bool" where
  "links_scoped d = (kind_links_scoped TagKind d \<and> kind_links_scoped IngredientKind d)"

section \<open>Requests and responses\<close>

datatype http_method = GET | POST | PUT | PATCH | DELETE

datatype upload = valid_image string | not_an_image

text \<open>
  The body of a request: the keys a client may send, each present or absent. Every
  serializer reads the keys of its own fields and ignores the rest.
\<close>

record payload =
  p_name :: "string option"
  p_title :: "string option"
  p_time_minutes :: "int option"
  p_price :: "rat option"
  p_description :: "string option"
  p_link :: "string option"
  p_tags :: "string list option"
  p_ingredients :: "string list option"
  p_user :: "nat option"
  p_image :: "upload option"

text \<open>\<open>req_user\<close> is \<open>request.user\<close>: \<open>None\<close> for a request without credentials.\<close>

record request =
  req_user :: "nat option"
  req_method :: http_method
  query_params :: "(string \<times> string) list"
  req_data :: payload

datatype res_body =
    no_content
  | recipe_list "recipe list"
  | recipe_detail recipe
  | attr_list "attr list"
  | attr_detail attr

record response =
  status_code :: nat
  res_data :: res_body

abbreviation HTTP_200_OK :: nat where "HTTP_200_OK \<equiv> 200"
abbreviation HTTP_201_CREATED :: nat where "HTTP_201_CREATED \<equiv> 201"
abbreviation HTTP_204_NO_CONTENT :: nat where "HTTP_204_NO_CONTENT \<equiv> 204"
abbreviation HTTP_400_BAD_REQUEST :: nat where "HTTP_400_BAD_REQUEST \<equiv> 400"
abbreviation HTTP_401_UNAUTHORIZED :: nat where "HTTP_401_UNAUTHORIZED \<equiv> 401"
abbreviation HTTP_403_FORBIDDEN :: nat where "HTTP_403_FORBIDDEN \<equiv> 403"
abbreviation HTTP_404_NOT_FOUND :: nat where "HTTP_404_NOT_FOUND \<equiv> 404"
abbreviation HTTP_405_METHOD_NOT_ALLOWED :: nat where "HTTP_405_METHOD_NOT_ALLOWED \<equiv> 405"

definition error_response :: "nat \<Rightarrow> response" where
  "error_response code = \<lparr>status_code = code, res_data = no_content\<rparr>"

section \<open>The querysets of views.py\<close>

text \<open>\<open>order_by('-field')\<close>: descending by the field.\<close>

definition order_by_desc :: "('a \<Rightarrow> 'k::linorder) \<Rightarrow> 'a list \<Rightarrow> 'a list" where
  "order_by_desc key xs = rev (sort_key key xs)"

text \<open>
  \<open>RecipeViewSet.get_queryset\<close>:
  \<open>self.queryset.filter(user=self.request.user).order_by('-id')\<close>.
  The method reads \<open>request.user\<close> and nothing else of the request.
\<close>

definition RecipeViewSet_get_queryset :: "db \<Rightarrow> request \<Rightarrow> recipe list" where
  "RecipeViewSet_get_queryset d rq =
     order_by_desc recipe_id (filter (\<lambda>r. req_user rq = Some (recipe_user r)) (db_recipes d))"

text \<open>
  \<open>BaseRecipeAttrViewSet.get_queryset\<close>:
  \<open>self.queryset.filter(user=self.request.user).order_by('-name')\<close>, where
  \<open>queryset\<close> is \<open>Tag.objects.all()\<close> in TagViewSet and \<open>Ingredient.objects.all()\<close> in
  IngredientViewSet.
\<close>

definition BaseRecipeAttrViewSet_get_queryset :: "attr_kind \<Rightarrow> db \<Rightarrow> request \<Rightarrow> attr list" where
  "BaseRecipeAttrViewSet_get_queryset k d rq =
     order_by_desc attr_name (filter (\<lambda>a. req_user rq = Some (attr_user a)) (attrs_of k d))"

text \<open>
  \<open>get_object\<close> of the generic view: the row of the view's queryset with the primary key
  of the URL, or nothing (answered 404).
\<close>

definition get_object :: "('a \<Rightarrow> nat) \<Rightarrow> 'a list \<Rightarrow> nat \<Rightarrow> 'a option" where
  "get_object pk_of queryset pk = find (\<lambda>x. pk_of x = pk) queryset"

section \<open>The serializers\<close>

text \<open>The database gives a new row an unused primary key: one more than the largest.\<close>

definition next_id :: "nat list \<Rightarrow> nat" where
  "next_id ids = Suc (fold max ids 0)"

text \<open>\<open>recipe.tags.add(obj)\<close>: adding a link that is already there changes nothing.\<close>

definition add_link :: "nat \<times> nat \<Rightarrow> (nat \<times> nat) list \<Rightarrow> (nat \<times> nat) list" where
  "add_link l ls = (if l \<in> set ls then ls else ls @ [l])"

text \<open>\<open>recipe.tags.clear()\<close>.\<close>

definition clear_links :: "attr_kind \<Rightarrow> nat \<Rightarrow> db \<Rightarrow> db" where
  "clear_links k rid d = put_links k (filter (\<lambda>l. fst l \<noteq> rid) (links_of k d)) d"

text \<open>
  Modelled from the spec: the serializers module (recipe/serializers.py) is not among the
  sources. "Nested-object upsert-or-create for tags/ingredients during recipe writes":
  a name that the requesting user already has is reused, any other name is created as a
  new row of the requesting user, and the recipe is linked to the row either way.
\<close>

definition get_or_create :: "attr_kind \<Rightarrow> nat \<Rightarrow> string \<Rightarrow> db \<Rightarrow> attr \<times> db" where
  "get_or_create k u name d =
     (case find (\<lambda>a. attr_user a = u \<and> attr_name a = name) (attrs_of k d) of
        Some a \<Rightarrow> (a, d)
      | None \<Rightarrow>
          (let a = \<lparr>attr_id = next_id (map attr_id (attrs_of k d)), attr_user = u, attr_name = name\<rparr>
           in (a, put_attrs k (attrs_of k d @ [a]) d)))"

fun get_or_create_attrs :: "attr_kind \<Rightarrow> nat \<Rightarrow> string list \<Rightarrow> nat \<Rightarrow> db \<Rightarrow> db" where
  "get_or_create_attrs k u [] rid d = d"
| "get_or_create_attrs k u (name # names) rid d =
     (case get_or_create k u name d of
        (a, d') \<Rightarrow>
          get_or_create_attrs k u names rid
            (put_links k (add_link (rid, attr_id a) (links_of k d')) d'))"

text \<open>
  Modelled from the spec: the recipe serializer's validation, which is not among the
  sources. The API tests create a recipe from title, time_minutes and price alone, so
  these three are the required fields; a partial update (PATCH) requires none.
\<close>

definition is_valid :: "bool \<Rightarrow> payload \<Rightarrow> bool" where
  "is_valid partial p =
     (partial \<or> (p_title p \<noteq> None \<and> p_time_minutes p \<noteq> None \<and> p_price p \<noteq> None))"

text \<open>
  Modelled from the spec: the fields a recipe write takes from the payload (title,
  time_minutes, price, description, link); a key that is absent leaves the column as it
  is. The payload's \<open>user\<close> key is not a field of the serializer and is never read:
  the spec does not list the fields, and the API tests \<open>test_unable_to_update_user\<close> and
  \<open>test_partial_update\<close> expect a write to take the named fields and to ignore \<open>user\<close>.
\<close>

definition apply_fields :: "payload \<Rightarrow> recipe \<Rightarrow> recipe" where
  "apply_fields p r =
     r\<lparr>title := (case p_title p of None \<Rightarrow> title r | Some v \<Rightarrow> v),
       time_minutes := (case p_time_minutes p of None \<Rightarrow> time_minutes r | Some v \<Rightarrow> v),
       price := (case p_price p of None \<Rightarrow> price r | Some v \<Rightarrow> v),
       description := (case p_description p of None \<Rightarrow> description r | Some v \<Rightarrow> v),
       link := (case p_link p of None \<Rightarrow> link r | Some v \<Rightarrow> v)\<rparr>"

text \<open>
  Modelled from the spec: creating a recipe (the serializer's \<open>create\<close>, not among the
  sources). The row is stored with the given owner and the payload's field values, then
  the named tags and ingredients are upserted and linked.
\<close>

definition RecipeSerializer_create :: "nat \<Rightarrow> payload \<Rightarrow> db \<Rightarrow> recipe \<times> db" where
  "RecipeSerializer_create owner p d =
     (let r = apply_fields p
                \<lparr>recipe_id = next_id (map recipe_id (db_recipes d)), recipe_user = owner,
                 title = [], time_minutes = 0, price = 0, description = [], link = [],
                 recipe_image = None\<rparr>;
          d1 = d\<lparr>db_recipes := db_recipes d @ [r]\<rparr>;
          d2 = get_or_create_attrs TagKind owner (case p_tags p of None \<Rightarrow> [] | Some ns \<Rightarrow> ns)
                 (recipe_id r) d1;
          d3 = get_or_create_attrs IngredientKind owner
                 (case p_ingredients p of None \<Rightarrow> [] | Some ns \<Rightarrow> ns) (recipe_id r) d2
      in (r, d3))"

text \<open>
  Modelled from the spec: updating a recipe (the serializer's \<open>update\<close>, not among the
  sources). A tags or ingredients list in the payload replaces the recipe's assignment;
  the other fields are written to the row with the recipe's primary key.
\<close>

definition assign_attrs :: "attr_kind \<Rightarrow> nat \<Rightarrow> string list option \<Rightarrow> nat \<Rightarrow> db \<Rightarrow> db" where
  "assign_attrs k u names rid d =
     (case names of
        None \<Rightarrow> d
      | Some ns \<Rightarrow> get_or_create_attrs k u ns rid (clear_links k rid d))"

definition save_recipe :: "recipe \<Rightarrow> db \<Rightarrow> db" where
  "save_recipe r d =
     d\<lparr>db_recipes := map (\<lambda>x. if recipe_id x = recipe_id r then r else x) (db_recipes d)\<rparr>"

definition RecipeSerializer_update :: "nat \<Rightarrow> recipe \<Rightarrow> payload \<Rightarrow> db \<Rightarrow> recipe \<times> db" where
  "RecipeSerializer_update auth_user instance p d =
     (let d1 = assign_attrs TagKind auth_user (p_tags p) (recipe_id instance) d;
          d2 = assign_attrs IngredientKind auth_user (p_ingredients p) (recipe_id instance) d1;
          r = apply_fields p instance
      in (r, save_recipe r d2))"

text \<open>
  Modelled from the spec: the tag and ingredient serializers (not among the sources)
  write the name; a full update (PUT) requires it.
\<close>

definition attr_is_valid :: "bool \<Rightarrow> payload \<Rightarrow> bool" where
  "attr_is_valid partial p = (partial \<or> p_name p \<noteq> None)"

definition AttrSerializer_update :: "attr_kind \<Rightarrow> attr \<Rightarrow> payload \<Rightarrow> db \<Rightarrow> attr \<times> db" where
  "AttrSerializer_update k instance p d =
     (let a = instance\<lparr>attr_name := (case p_name p of None \<Rightarrow> attr_name instance | Some v \<Rightarrow> v)\<rparr>
      in (a, put_attrs k (map (\<lambda>x. if attr_id x = attr_id a then a else x) (attrs_of k d)) d))"

text \<open>\<open>instance.delete()\<close>: the row goes, and with it the link rows that refer to it.\<close>

definition delete_recipe :: "nat \<Rightarrow> db \<Rightarrow> db" where
  "delete_recipe pk d =
     d\<lparr>db_recipes := filter (\<lambda>x. recipe_id x \<noteq> pk) (db_recipes d),
       db_recipe_tags := filter (\<lambda>l. fst l \<noteq> pk) (db_recipe_tags d),
       db_recipe_ingredients := filter (\<lambda>l. fst l \<noteq> pk) (db_recipe_ingredients d)\<rparr>"

definition delete_attr :: "attr_kind \<Rightarrow> nat \<Rightarrow> db \<Rightarrow> db" where
  "delete_attr k pk d =
     put_links k (filter (\<lambda>l. snd l \<noteq> pk) (links_of k d))
       (put_attrs k (filter (\<lambda>x. attr_id x \<noteq> pk) (attrs_of k d)) d)"

section \<open>The viewsets of views.py\<close>

datatype viewset = RecipeViewSet | TagViewSet | IngredientViewSet

datatype authentication = TokenAuthentication | SessionAuthentication

datatype permission = IsAuthenticated | AllowAny

fun authentication_classes :: "viewset \<Rightarrow> authentication list" where
  "authentication_classes RecipeViewSet = [TokenAuthentication]"
| "authentication_classes TagViewSet = [TokenAuthentication]"
| "authentication_classes IngredientViewSet = [TokenAuthentication]"

fun permission_classes :: "viewset \<Rightarrow> permission list" where
  "permission_classes RecipeViewSet = [IsAuthenticated]"
| "permission_classes TagViewSet = [IsAuthenticated]"
| "permission_classes IngredientViewSet = [IsAuthenticated]"

fun attr_kind_of :: "viewset \<Rightarrow> attr_kind" where
  "attr_kind_of IngredientViewSet = IngredientKind"
| "attr_kind_of _ = TagKind"

text \<open>
  The actions of a viewset, each with the primary key of its URL. RecipeViewSet is a
  ModelViewSet and has all six; BaseRecipeAttrViewSet mixes in update, list and destroy
  only.
\<close>

datatype action =
    list_action
  | create_action
  | retrieve_action nat
  | update_action nat
  | partial_update_action nat
  | destroy_action nat

fun has_action :: "viewset \<Rightarrow> action \<Rightarrow> bool" where
  "has_action RecipeViewSet a = True"
| "has_action vs create_action = False"
| "has_action vs (retrieve_action pk) = False"
| "has_action vs a = True"

text \<open>
  The router's routes of a viewset (list, detail, and one for each extra action) and the
  action each HTTP method is bound to on the list and detail routes.
\<close>

datatype route = list_route | detail_route nat | extra_route nat string

fun route_action :: "route \<Rightarrow> http_method \<Rightarrow> action option" where
  "route_action list_route m =
     (case m of
        GET \<Rightarrow> Some list_action
      | POST \<Rightarrow> Some create_action
      | _ \<Rightarrow> None)"
| "route_action (detail_route pk) m =
     (case m of
        GET \<Rightarrow> Some (retrieve_action pk)
      | PUT \<Rightarrow> Some (update_action pk)
      | PATCH \<Rightarrow> Some (partial_update_action pk)
      | DELETE \<Rightarrow> Some (destroy_action pk)
      | _ \<Rightarrow> None)"
| "route_action (extra_route pk name) m = None"

subsection \<open>Authentication and permissions\<close>

fun authenticate_header :: "authentication \<Rightarrow> string option" where
  "authenticate_header TokenAuthentication = Some ''Token''"
| "authenticate_header SessionAuthentication = None"

fun has_permission :: "permission \<Rightarrow> request \<Rightarrow> bool" where
  "has_permission IsAuthenticated rq = (req_user rq \<noteq> None)"
| "has_permission AllowAny rq = True"

text \<open>
  A request that fails a permission: not authenticated (401) when it carries no user and
  the first authentication class has a challenge header, forbidden (403) otherwise.
\<close>

definition permission_denied :: "viewset \<Rightarrow> request \<Rightarrow> response" where
  "permission_denied vs rq =
     (if req_user rq = None \<and>
         (case authentication_classes vs of
            [] \<Rightarrow> False
          | a # _ \<Rightarrow> authenticate_header a \<noteq> None)
      then error_response HTTP_401_UNAUTHORIZED
      else error_response HTTP_403_FORBIDDEN)"

definition check_permissions :: "viewset \<Rightarrow> request \<Rightarrow> response option" where
  "check_permissions vs rq =
     (if list_all (\<lambda>p. has_permission p rq) (permission_classes vs) then None
      else Some (permission_denied vs rq))"

subsection \<open>RecipeViewSet\<close>

definition RecipeViewSet_list :: "db \<Rightarrow> request \<Rightarrow> db \<times> response" where
  "RecipeViewSet_list d rq =
     (d, \<lparr>status_code = HTTP_200_OK, res_data = recipe_list (RecipeViewSet_get_queryset d rq)\<rparr>)"

text \<open>
  \<open>perform_create\<close>: \<open>serializer.save(user=self.request.user)\<close>. The owner of the new
  row is the requester, whatever the payload says.
\<close>

definition RecipeViewSet_perform_create :: "nat \<Rightarrow> payload \<Rightarrow> db \<Rightarrow> recipe \<times> db" where
  "RecipeViewSet_perform_create u p d = RecipeSerializer_create u p d"

definition RecipeViewSet_create :: "nat \<Rightarrow> db \<Rightarrow> request \<Rightarrow> db \<times> response" where
  "RecipeViewSet_create u d rq =
     (if \<not> is_valid False (req_data rq) then (d, error_response HTTP_400_BAD_REQUEST)
      else
        (case RecipeViewSet_perform_create u (req_data rq) d of
           (r, d') \<Rightarrow> (d', \<lparr>status_code = HTTP_201_CREATED, res_data = recipe_detail r\<rparr>)))"

definition RecipeViewSet_retrieve :: "nat \<Rightarrow> db \<Rightarrow> request \<Rightarrow> db \<times> response" where
  "RecipeViewSet_retrieve pk d rq =
     (case get_object recipe_id (RecipeViewSet_get_queryset d rq) pk of
        None \<Rightarrow> (d, error_response HTTP_404_NOT_FOUND)
      | Some r \<Rightarrow> (d, \<lparr>status_code = HTTP_200_OK, res_data = recipe_detail r\<rparr>))"

definition RecipeViewSet_update :: "bool \<Rightarrow> nat \<Rightarrow> nat \<Rightarrow> db \<Rightarrow> request \<Rightarrow> db \<times> response" where
  "RecipeViewSet_update partial pk u d rq =
     (case get_object recipe_id (RecipeViewSet_get_queryset d rq) pk of
        None \<Rightarrow> (d, error_response HTTP_404_NOT_FOUND)
      | Some instance \<Rightarrow>
          if \<not> is_valid partial (req_data rq) then (d, error_response HTTP_400_BAD_REQUEST)
          else
            (case RecipeSerializer_update u instance (req_data rq) d of
               (r, d') \<Rightarrow> (d', \<lparr>status_code = HTTP_200_OK, res_data = recipe_detail r\<rparr>)))"

definition RecipeViewSet_destroy :: "nat \<Rightarrow> db \<Rightarrow> request \<Rightarrow> db \<times> response" where
  "RecipeViewSet_destroy pk d rq =
     (case get_object recipe_id (RecipeViewSet_get_queryset d rq) pk of
        None \<Rightarrow> (d, error_response HTTP_404_NOT_FOUND)
      | Some instance \<Rightarrow>
          (delete_recipe (recipe_id instance) d, error_response HTTP_204_NO_CONTENT))"

subsection \<open>BaseRecipeAttrViewSet: TagViewSet and IngredientViewSet\<close>

definition BaseRecipeAttrViewSet_list :: "attr_kind \<Rightarrow> db \<Rightarrow> request \<Rightarrow> db \<times> response" where
  "BaseRecipeAttrViewSet_list k d rq =
     (d, \<lparr>status_code = HTTP_200_OK,
          res_data = attr_list (BaseRecipeAttrViewSet_get_queryset k d rq)\<rparr>)"

definition BaseRecipeAttrViewSet_update ::
  "attr_kind \<Rightarrow> bool \<Rightarrow> nat \<Rightarrow> db \<Rightarrow> request \<Rightarrow> db \<times> response" where
  "BaseRecipeAttrViewSet_update k partial pk d rq =
     (case get_object attr_id (BaseRecipeAttrViewSet_get_queryset k d rq) pk of
        None \<Rightarrow> (d, error_response HTTP_404_NOT_FOUND)
      | Some instance \<Rightarrow>
          if \<not> attr_is_valid partial (req_data rq) then (d, error_response HTTP_400_BAD_REQUEST)
          else
            (case AttrSerializer_update k instance (req_data rq) d of
               (a, d') \<Rightarrow> (d', \<lparr>status_code = HTTP_200_OK, res_data = attr_detail a\<rparr>)))"

definition BaseRecipeAttrViewSet_destroy :: "attr_kind \<Rightarrow> nat \<Rightarrow> db \<Rightarrow> request \<Rightarrow> db \<times> response" where
  "BaseRecipeAttrViewSet_destroy k pk d rq =
     (case get_object attr_id (BaseRecipeAttrViewSet_get_queryset k d rq) pk of
        None \<Rightarrow> (d, error_response HTTP_404_NOT_FOUND)
      | Some instance \<Rightarrow> (delete_attr k (attr_id instance) d, error_response HTTP_204_NO_CONTENT))"

subsection \<open>Dispatch\<close>

text \<open>
  The handler of an action. It runs once the permissions have let the request through,
  so the request has a user \<open>u\<close>.
\<close>

definition handler :: "viewset \<Rightarrow> action \<Rightarrow> nat \<Rightarrow> db \<Rightarrow> request \<Rightarrow> db \<times> response" where
  "handler vs a u d rq =
     (if vs = RecipeViewSet then
        (case a of
           list_action \<Rightarrow> RecipeViewSet_list d rq
         | create_action \<Rightarrow> RecipeViewSet_create u d rq
         | retrieve_action pk \<Rightarrow> RecipeViewSet_retrieve pk d rq
         | update_action pk \<Rightarrow> RecipeViewSet_update False pk u d rq
         | partial_update_action pk \<Rightarrow> RecipeViewSet_update True pk u d rq
         | destroy_action pk \<Rightarrow> RecipeViewSet_destroy pk d rq)
      else
        (case a of
           list_action \<Rightarrow> BaseRecipeAttrViewSet_list (attr_kind_of vs) d rq
         | update_action pk \<Rightarrow> BaseRecipeAttrViewSet_update (attr_kind_of vs) False pk d rq
         | partial_update_action pk \<Rightarrow> BaseRecipeAttrViewSet_update (attr_kind_of vs) True pk d rq
         | destroy_action pk \<Rightarrow> BaseRecipeAttrViewSet_destroy (attr_kind_of vs) pk d rq
         | _ \<Rightarrow> (d, error_response HTTP_405_METHOD_NOT_ALLOWED)))"

text \<open>
  \<open>dispatch\<close> of the view: first the permissions (\<open>initial\<close>), then the handler bound
  to the HTTP method; a method with no action of the viewset is answered 405.
\<close>

definition dispatch :: "viewset \<Rightarrow> route \<Rightarrow> db \<Rightarrow> request \<Rightarrow> db \<times> response" where
  "dispatch vs rt d rq =
     (case check_permissions vs rq of
        Some denied \<Rightarrow> (d, denied)
      | None \<Rightarrow>
          (case req_user rq of
             None \<Rightarrow> (d, error_response HTTP_403_FORBIDDEN)
           | Some u \<Rightarrow>
               (case route_action rt (req_method rq) of
                  None \<Rightarrow> (d, error_response HTTP_405_METHOD_NOT_ALLOWED)
                | Some a \<Rightarrow>
                    if has_action vs a then handler vs a u d rq
                    else (d, error_response HTTP_405_METHOD_NOT_ALLOWED))))"

text \<open>
  The URLs under the three viewsets. The router gives a viewset its list and detail
  routes, and one more route for each method that the viewset marks as an extra action;
  no viewset of views.py marks any, so any other path resolves to nothing (404).
\<close>

datatype url = list_url viewset | detail_url viewset nat | action_url viewset nat string

definition extra_actions :: "viewset \<Rightarrow> string list" where
  "extra_actions vs = []"

definition resolve :: "url \<Rightarrow> (viewset \<times> route) option" where
  "resolve u =
     (case u of
        list_url vs \<Rightarrow> Some (vs, list_route)
      | detail_url vs pk \<Rightarrow> Some (vs, detail_route pk)
      | action_url vs pk name \<Rightarrow>
          if name \<in> set (extra_actions vs) then Some (vs, extra_route pk name) else None)"

definition handle :: "db \<Rightarrow> url \<Rightarrow> request \<Rightarrow> db \<times> response" where
  "handle d u rq =
     (case resolve u of
        None \<Rightarrow> (d, error_response HTTP_404_NOT_FOUND)
      | Some (vs, rt) \<Rightarrow> dispatch vs rt d rq)"

section \<open>Observations on requests\<close>

text \<open>The HTTP method is bound to an action of the viewset on the route.\<close>

definition routed :: "viewset \<Rightarrow> route \<Rightarrow> http_method \<Rightarrow> bool" where
  "routed vs rt m = (case route_action rt m of None \<Rightarrow> False | Some a \<Rightarrow> has_action vs a)"

text \<open>The object with primary key \<open>pk\<close> of the viewset's table belongs to a user other than \<open>u\<close>.\<close>

definition owned_by_other :: "viewset \<Rightarrow> nat \<Rightarrow> nat \<Rightarrow> db \<Rightarrow> bool" where
  "owned_by_other vs pk u d =
     (if vs = RecipeViewSet
      then \<exists>r \<in> set (db_recipes d). recipe_id r = pk \<and> recipe_user r \<noteq> u
      else \<exists>a \<in> set (attrs_of (attr_kind_of vs) d). attr_id a = pk \<and> attr_user a \<noteq> u)"

text \<open>The rows of every user other than \<open>u\<close> are the same in both databases.\<close>

definition others_rows_unchanged :: "nat \<Rightarrow> db \<Rightarrow> db \<Rightarrow> bool" where
  "others_rows_unchanged u d d' =
     (filter (\<lambda>r. recipe_user r \<noteq> u) (db_recipes d') =
        filter (\<lambda>r. recipe_user r \<noteq> u) (db_recipes d) \<and>
      filter (\<lambda>a. attr_user a \<noteq> u) (db_tags d') =
        filter (\<lambda>a. attr_user a \<noteq> u) (db_tags d) \<and>
      filter (\<lambda>a. attr_user a \<noteq> u) (db_ingredients d') =
        filter (\<lambda>a. attr_user a \<noteq> u) (db_ingredients d))"

text \<open>Every row in the body of a response belongs to \<open>u\<close>.\<close>

definition scoped_rows :: "nat \<Rightarrow> res_body \<Rightarrow> bool" where
  "scoped_rows u b =
     (case b of
        no_content \<Rightarrow> True
      | recipe_list rs \<Rightarrow> list_all (\<lambda>r. recipe_user r = u) rs
      | recipe_detail r \<Rightarrow> recipe_user r = u
      | attr_list xs \<Rightarrow> list_all (\<lambda>a. attr_user a = u) xs
      | attr_detail a \<Rightarrow> attr_user a = u)"

text \<open>
  The link rows, among \<open>ls\<close>, of the recipes that belong in \<open>d\<close> to a user other than
  \<open>u\<close>.
\<close>

definition their_links :: "nat \<Rightarrow> db \<Rightarrow> (nat \<times> nat) list \<Rightarrow> (nat \<times> nat) list" where
  "their_links u d ls =
     filter (\<lambda>l. \<exists>r \<in> set (db_recipes d). recipe_id r = fst l \<and> recipe_user r \<noteq> u) ls"

text \<open>
  Nothing of any user other than \<open>u\<close> differs between the two databases: the recipe,
  tag and ingredient rows of the others are the same, and so are the tag links and the
  ingredient links of the others' recipes.
\<close>

definition others_unchanged :: "nat \<Rightarrow> db \<Rightarrow> db \<Rightarrow> bool" where
  "others_unchanged u d d' =
     (others_rows_unchanged u d d' \<and>
      their_links u d (db_recipe_tags d') = their_links u d (db_recipe_tags d) \<and>
      their_links u d (db_recipe_ingredients d') = their_links u d (db_recipe_ingredients d))"

text \<open>
  Modelled from the spec: the recipe serializers are not among the sources. The
  representation of a recipe in a response nests the tags and the ingredients that are
  linked to the recipe in the database the response is rendered from.
\<close>

definition nested :: "attr_kind \<Rightarrow> db \<Rightarrow> recipe \<Rightarrow> attr list" where
  "nested k d r = linked k (recipe_id r) d"

text \<open>The recipes in the body of a response.\<close>

fun body_recipes :: "res_body \<Rightarrow> recipe list" where
  "body_recipes (recipe_list rs) = rs"
| "body_recipes (recipe_detail r) = [r]"
| "body_recipes _ = []"

text \<open>
  Every object in the body of a response rendered from \<open>d\<close> belongs to \<open>u\<close>: the rows
  of the body, and the tags and ingredients nested in its recipes.
\<close>

definition scoped_body :: "nat \<Rightarrow> db \<Rightarrow> res_body \<Rightarrow> bool" where
  "scoped_body u d b =
     (scoped_rows u b \<and>
      list_all (\<lambda>r. list_all (\<lambda>a. attr_user a = u)
                      (nested TagKind d r @ nested IngredientKind d r)) (body_recipes b))"

text \<open>The names a recipe payload gives for the tags or for the ingredients.\<close>

fun payload_names :: "attr_kind \<Rightarrow> payload \<Rightarrow> string list option" where
  "payload_names TagKind p = p_tags p"
| "payload_names IngredientKind p = p_ingredients p"

text \<open>
  The outcome of an upsert of the names \<open>ns\<close> for recipe \<open>rid\<close> by user \<open>u\<close>, from
  database \<open>d\<close> to \<open>d'\<close>. For each name: if the user had rows of that name, they are
  the same rows afterwards (none added) and one of them is linked to the recipe; if the
  user had none, there is exactly one afterwards, with a primary key that was not in the
  table, and it is linked to the recipe.
\<close>

definition upsert_of_name :: "attr_kind \<Rightarrow> nat \<Rightarrow> nat \<Rightarrow> db \<Rightarrow> db \<Rightarrow> string \<Rightarrow> bool" where
  "upsert_of_name k u rid d d' n =
     (case filter (\<lambda>a. attr_user a = u \<and> attr_name a = n) (attrs_of k d) of
        a # as \<Rightarrow>
          filter (\<lambda>a. attr_user a = u \<and> attr_name a = n) (attrs_of k d') = a # as \<and>
          (\<exists>x \<in> set (a # as). x \<in> set (linked k rid d'))
      | [] \<Rightarrow>
          (case filter (\<lambda>a. attr_user a = u \<and> attr_name a = n) (attrs_of k d') of
             [b] \<Rightarrow> b \<in> set (linked k rid d') \<and> attr_id b \<notin> set (map attr_id (attrs_of k d))
           | _ \<Rightarrow> False))"

text \<open>
  The recipe is linked to exactly one row for each distinct name of \<open>ns\<close>, all of them
  rows of user \<open>u\<close>, and to nothing else.
\<close>

definition one_per_name :: "attr_kind \<Rightarrow> nat \<Rightarrow> string list \<Rightarrow> nat \<Rightarrow> db \<Rightarrow> bool" where
  "one_per_name k u ns rid d' =
     (distinct (map attr_name (linked k rid d')) \<and>
      set (map attr_name (linked k rid d')) = set ns \<and>
      list_all (\<lambda>a. attr_user a = u) (linked k rid d'))"

text \<open>The row has the value of every field that the payload gives.\<close>

definition has_fields :: "payload \<Rightarrow> recipe \<Rightarrow> bool" where
  "has_fields p r =
     ((case p_title p of None \<Rightarrow> True | Some v \<Rightarrow> title r = v) \<and>
      (case p_time_minutes p of None \<Rightarrow> True | Some v \<Rightarrow> time_minutes r = v) \<and>
      (case p_price p of None \<Rightarrow> True | Some v \<Rightarrow> price r = v) \<and>
      (case p_description p of None \<Rightarrow> True | Some v \<Rightarrow> description r = v) \<and>
      (case p_link p of None \<Rightarrow> True | Some v \<Rightarrow> link r = v))"

section \<open>The databases and requests of the API tests\<close>

definition empty_payload :: payload where
  "empty_payload =
     \<lparr>p_name = None, p_title = None, p_time_minutes = None, p_price = None,
      p_description = None, p_link = None, p_tags = None, p_ingredients = None,
      p_user = None, p_image = None\<rparr>"

text \<open>The helper \<open>create_recipe(user, **params)\<close> of test_recipe_api.py, with its defaults.\<close>

definition create_recipe :: "nat \<Rightarrow> nat \<Rightarrow> string \<Rightarrow> recipe" where
  "create_recipe pk u t =
     \<lparr>recipe_id = pk, recipe_user = u, title = t, time_minutes = 22, price = 21 / 2,
      description = ''Sample description'', link = ''http://example.com/recipe.pdf'',
      recipe_image = None\<rparr>"

text \<open>
  \<open>test_filter_by_tags\<close>: three recipes of user 1, the first tagged Vegan and the second
  Vegetarian, and a list request with \<open>tags=1,2\<close>.
\<close>

definition filter_by_tags_db :: db where
  "filter_by_tags_db =
     \<lparr>db_recipes = [create_recipe 1 1 ''Recipe1'', create_recipe 2 1 ''Recipe2'',
                    create_recipe 3 1 ''Recipe3''],
      db_tags = [\<lparr>attr_id = 1, attr_user = 1, attr_name = ''Vegan''\<rparr>,
                 \<lparr>attr_id = 2, attr_user = 1, attr_name = ''Vegetarian''\<rparr>],
      db_ingredients = [],
      db_recipe_tags = [(1, 1), (2, 2)],
      db_recipe_ingredients = []\<rparr>"

definition filter_by_tags_request :: request where
  "filter_by_tags_request =
     \<lparr>req_user = Some 1, req_method = GET, query_params = [(''tags'', ''1,2'')],
      req_data = empty_payload\<rparr>"

text \<open>
  \<open>test_filter_ingredients_assigned_to_recipes\<close>: the ingredients Apple and Turkey of
  user 1, one recipe with Apple assigned, and a list request with \<open>assigned_only=1\<close>.
\<close>

definition assigned_only_db :: db where
  "assigned_only_db =
     \<lparr>db_recipes = [create_recipe 1 1 ''Sample title''],
      db_tags = [],
      db_ingredients = [\<lparr>attr_id = 1, attr_user = 1, attr_name = ''Apple''\<rparr>,
                        \<lparr>attr_id = 2, attr_user = 1, attr_name = ''Turkey''\<rparr>],
      db_recipe_tags = [],
      db_recipe_ingredients = [(1, 1)]\<rparr>"

definition assigned_only_request :: request where
  "assigned_only_request =
     \<lparr>req_user = Some 1, req_method = GET, query_params = [(''assigned_only'', ''1'')],
      req_data = empty_payload\<rparr>"

text \<open>
  \<open>test_upload_image\<close>: one recipe of user 1 and a POST of an image file to the recipe's
  upload-image URL.
\<close>

definition upload_image_db :: db where
  "upload_image_db =
     \<lparr>db_recipes = [create_recipe 1 1 ''Sample title''], db_tags = [], db_ingredients = [],
      db_recipe_tags = [], db_recipe_ingredients = []\<rparr>"

definition upload_image_request :: request where
  "upload_image_request =
     \<lparr>req_user = Some 1, req_method = POST, query_params = [],
      req_data = empty_payload\<lparr>p_image := Some (valid_image ''image.jpg'')\<rparr>\<rparr>"

text \<open>A request without credentials: the POST of a recipe by an anonymous client.\<close>

definition anonymous_request :: request where
  "anonymous_request =
     \<lparr>req_user = None, req_method = POST, query_params = [],
      req_data = empty_payload\<lparr>p_title := Some ''Sample Recipe'', p_time_minutes := Some 30,
                                p_price := Some 11\<rparr>\<rparr>"

text \<open>
  \<open>test_delete_recipe_other_users_error\<close> and \<open>test_recipe_list_limited_to_user\<close>: two
  users, each with a recipe and a tag; user 1 asks to delete recipe 2, which is user 2's.
\<close>

definition two_users_db :: db where
  "two_users_db =
     \<lparr>db_recipes = [create_recipe 1 1 ''Sample title'', create_recipe 2 2 ''Sample title''],
      db_tags = [\<lparr>attr_id = 1, attr_user = 1, attr_name = ''Vegan''\<rparr>,
                 \<lparr>attr_id = 2, attr_user = 2, attr_name = ''Dessert''\<rparr>],
      db_ingredients = [],
      db_recipe_tags = [(1, 1), (2, 2)],
      db_recipe_ingredients = []\<rparr>"

definition delete_request :: request where
  "delete_request =
     \<lparr>req_user = Some 1, req_method = DELETE, query_params = [], req_data = empty_payload\<rparr>"

definition list_request :: request where
  "list_request =
     \<lparr>req_user = Some 1, req_method = GET, query_params = [], req_data = empty_payload\<rparr>"

text \<open>A PATCH by user 1 that clears the tags of a recipe (\<open>test_clear_recipe_tags\<close>).\<close>

definition clear_tags_request :: request where
  "clear_tags_request =
     \<lparr>req_user = Some 1, req_method = PATCH, query_params = [],
      req_data = empty_payload\<lparr>p_tags := Some []\<rparr>\<rparr>"

text \<open>
  A database in which each of two users has a recipe and a tag, and each recipe is
  linked to the tag of the other user: \<open>recipe.tags.add(tag)\<close>, as the tests call it to
  build their data, takes any tag.
\<close>

definition cross_linked_db :: db where
  "cross_linked_db =
     \<lparr>db_recipes = [create_recipe 1 1 ''Sample title'', create_recipe 2 2 ''Sample title''],
      db_tags = [\<lparr>attr_id = 1, attr_user = 1, attr_name = ''Vegan''\<rparr>,
                 \<lparr>attr_id = 2, attr_user = 2, attr_name = ''Dessert''\<rparr>],
      db_ingredients = [],
      db_recipe_tags = [(1, 2), (2, 1)],
      db_recipe_ingredients = []\<rparr>"

text \<open>
  \<open>test_create_recipe_with_existing_tags\<close>: user 1 has the tag Dinner and posts a recipe
  with the tags Dinner and Breakfast.
\<close>

definition existing_tag_db :: db where
  "existing_tag_db =
     \<lparr>db_recipes = [],
      db_tags = [\<lparr>attr_id = 1, attr_user = 1, attr_name = ''Dinner''\<rparr>],
      db_ingredients = [], db_recipe_tags = [], db_recipe_ingredients = []\<rparr>"

definition create_with_tags_request :: request where
  "create_with_tags_request =
     \<lparr>req_user = Some 1, req_method = POST, query_params = [],
      req_data = empty_payload\<lparr>p_title := Some ''Dinner title'', p_time_minutes := Some 40,
                                p_price := Some (5099 / 100),
                                p_tags := Some [''Dinner'', ''Breakfast'']\<rparr>\<rparr>"

text \<open>
  \<open>test_update_recipe_assign_tag\<close>: the recipe of user 1 has the tag Breakfast, and a
  PATCH names the tag Lunch, which the user has too.
\<close>

definition assign_tag_db :: db where
  "assign_tag_db =
     \<lparr>db_recipes = [create_recipe 1 1 ''Sample title''],
      db_tags = [\<lparr>attr_id = 1, attr_user = 1, attr_name = ''Breakfast''\<rparr>,
                 \<lparr>attr_id = 2, attr_user = 1, attr_name = ''Lunch''\<rparr>],
      db_ingredients = [], db_recipe_tags = [(1, 1)], db_recipe_ingredients = []\<rparr>"

definition assign_tag_request :: request where
  "assign_tag_request =
     \<lparr>req_user = Some 1, req_method = PATCH, query_params = [],
      req_data = empty_payload\<lparr>p_tags := Some [''Lunch'']\<rparr>\<rparr>"

text \<open>\<open>test_create_recipe\<close>: a POST of title, time_minutes and price by user 1.\<close>

definition create_request :: request where
  "create_request =
     \<lparr>req_user = Some 1, req_method = POST, query_params = [],
      req_data = empty_payload\<lparr>p_title := Some ''Sample Recipe'', p_time_minutes := Some 30,
                                p_price := Some (1099 / 100)\<rparr>\<rparr>"

text \<open>
  \<open>test_create_tag_on_update\<close> with \<open>test_update_recipe_assign_tag\<close>: a PATCH of the
  recipe of user 1 that names the tag Lunch, which the user has, and the tag Dinner,
  which the user has not.
\<close>

definition update_with_tags_request :: request where
  "update_with_tags_request =
     \<lparr>req_user = Some 1, req_method = PATCH, query_params = [],
      req_data = empty_payload\<lparr>p_tags := Some [''Lunch'', ''Dinner'']\<rparr>\<rparr>"

section \<open>Ordering of the querysets\<close>

lemma sorted_order_by_desc:
  "sorted_wrt (\<lambda>a b. key b \<le> key a) (order_by_desc key xs)"
proof -
  have "sorted (map key (sort_key key xs))"
    by (rule sorted_sort_key)
  then have "sorted_wrt (\<lambda>a b. key a \<le> key b) (sort_key key xs)"
    by (simp add: sorted_wrt_map)
  then show ?thesis
    by (simp add: order_by_desc_def sorted_wrt_rev)
qed

lemma set_order_by_desc [simp]: "set (order_by_desc key xs) = set xs"
  by (simp add: order_by_desc_def)

section \<open>Authentication\<close>

lemma anonymous_denied:
  "req_user rq = None \<Longrightarrow> dispatch vs rt d rq = (d, error_response HTTP_401_UNAUTHORIZED)"
  by (cases vs) (simp_all add: dispatch_def check_permissions_def permission_denied_def)

lemma authenticated_dispatch:
  "req_user rq = Some u \<Longrightarrow>
   dispatch vs rt d rq =
     (case route_action rt (req_method rq) of
        None \<Rightarrow> (d, error_response HTTP_405_METHOD_NOT_ALLOWED)
      | Some a \<Rightarrow>
          if has_action vs a then handler vs a u d rq
          else (d, error_response HTTP_405_METHOD_NOT_ALLOWED))"
  by (cases vs) (auto simp: dispatch_def check_permissions_def split: option.splits)

text \<open>
  C6. A request without authentication to any URL of the recipe, tag or ingredient
  viewsets is answered 401 Unauthorized, whatever its method and payload, and the
  database after it is the database before it.
\<close>

theorem auth_required:
  "req_user rq = None \<Longrightarrow> resolve u = Some (vs, rt) \<Longrightarrow>
   handle d u rq = (d, \<lparr>status_code = HTTP_401_UNAUTHORIZED, res_data = no_content\<rparr>)"
  using anonymous_denied [of rq vs rt d]
  by (simp add: handle_def error_response_def)

theorem auth_required_witness:
  "req_user anonymous_request = None \<and>
   resolve (list_url RecipeViewSet) = Some (RecipeViewSet, list_route) \<and>
   handle upload_image_db (list_url RecipeViewSet) anonymous_request =
     (upload_image_db, \<lparr>status_code = HTTP_401_UNAUTHORIZED, res_data = no_content\<rparr>)"
proof -
  have a: "req_user anonymous_request = None"
    by (simp add: anonymous_request_def)
  have r: "resolve (list_url RecipeViewSet) = Some (RecipeViewSet, list_route)"
    by (simp add: resolve_def)
  show ?thesis
    using a r auth_required [OF a r, of upload_image_db] by simp
qed

text \<open>
  C10. The recipe list of an authenticated user is ordered by descending recipe id, and
  the tag list and the ingredient list are ordered by descending name.
\<close>

theorem list_ordering:
  "req_user rq = Some u \<Longrightarrow> req_method rq = GET \<Longrightarrow>
   (\<exists>rs. handle d (list_url RecipeViewSet) rq =
            (d, \<lparr>status_code = HTTP_200_OK, res_data = recipe_list rs\<rparr>) \<and>
         sorted_wrt (\<lambda>a b. recipe_id b \<le> recipe_id a) rs) \<and>
   (\<exists>ts. handle d (list_url TagViewSet) rq =
            (d, \<lparr>status_code = HTTP_200_OK, res_data = attr_list ts\<rparr>) \<and>
         sorted_wrt (\<lambda>a b. attr_name b \<le> attr_name a) ts) \<and>
   (\<exists>is. handle d (list_url IngredientViewSet) rq =
            (d, \<lparr>status_code = HTTP_200_OK, res_data = attr_list is\<rparr>) \<and>
         sorted_wrt (\<lambda>a b. attr_name b \<le> attr_name a) is)"
  by (simp add: handle_def resolve_def authenticated_dispatch handler_def
      RecipeViewSet_list_def BaseRecipeAttrViewSet_list_def RecipeViewSet_get_queryset_def
      BaseRecipeAttrViewSet_get_queryset_def sorted_order_by_desc)

theorem list_ordering_witness:
  "req_user assigned_only_request = Some 1 \<and> req_method assigned_only_request = GET \<and>
   (\<exists>rs. handle filter_by_tags_db (list_url RecipeViewSet) assigned_only_request =
            (filter_by_tags_db, \<lparr>status_code = HTTP_200_OK, res_data = recipe_list rs\<rparr>) \<and>
         map recipe_id rs = [3, 2, 1] \<and>
         sorted_wrt (\<lambda>a b. recipe_id b \<le> recipe_id a) rs) \<and>
   (\<exists>ts. handle filter_by_tags_db (list_url TagViewSet) assigned_only_request =
            (filter_by_tags_db, \<lparr>status_code = HTTP_200_OK, res_data = attr_list ts\<rparr>) \<and>
         map attr_name ts = [''Vegetarian'', ''Vegan''] \<and>
         sorted_wrt (\<lambda>a b. attr_name b \<le> attr_name a) ts)"
proof -
  have u: "req_user assigned_only_request = Some 1"
    by (simp add: assigned_only_request_def)
  have m: "req_method assigned_only_request = GET"
    by (simp add: assigned_only_request_def)
  have rs: "handle filter_by_tags_db (list_url RecipeViewSet) assigned_only_request =
      (filter_by_tags_db, \<lparr>status_code = HTTP_200_OK, res_data =
         recipe_list [create_recipe 3 1 ''Recipe3'', create_recipe 2 1 ''Recipe2'',
                      create_recipe 1 1 ''Recipe1'']\<rparr>)"
    by (simp add: handle_def resolve_def authenticated_dispatch [OF u] m handler_def
        RecipeViewSet_list_def RecipeViewSet_get_queryset_def order_by_desc_def u
        filter_by_tags_db_def create_recipe_def)
  have ts: "handle filter_by_tags_db (list_url TagViewSet) assigned_only_request =
      (filter_by_tags_db, \<lparr>status_code = HTTP_200_OK, res_data =
         attr_list [\<lparr>attr_id = 2, attr_user = 1, attr_name = ''Vegetarian''\<rparr>,
                    \<lparr>attr_id = 1, attr_user = 1, attr_name = ''Vegan''\<rparr>]\<rparr>)"
    by (simp add: handle_def resolve_def authenticated_dispatch [OF u] m handler_def
        BaseRecipeAttrViewSet_list_def BaseRecipeAttrViewSet_get_queryset_def order_by_desc_def u
        filter_by_tags_db_def)
  show ?thesis
    using u m rs ts list_ordering [OF u m, of filter_by_tags_db]
    by (simp add: create_recipe_def)
qed

section \<open>Query parameters of the list requests\<close>

text \<open>
  C4. The recipe list for a request with \<open>tags=1,2\<close>, on the database of
  \<open>test_filter_by_tags\<close>: \<open>get_queryset\<close> does not read the query parameters, and the
  response holds all three recipes of the user, the third one among them although it has
  no tag at all.
\<close>

theorem filter_by_tags_returns_untagged:
  "handle filter_by_tags_db (list_url RecipeViewSet) filter_by_tags_request =
     (filter_by_tags_db,
      \<lparr>status_code = HTTP_200_OK,
       res_data = recipe_list [create_recipe 3 1 ''Recipe3'', create_recipe 2 1 ''Recipe2'',
                               create_recipe 1 1 ''Recipe1'']\<rparr>) \<and>
   linked TagKind 3 filter_by_tags_db = []"
  by (simp add: handle_def resolve_def dispatch_def check_permissions_def handler_def
      RecipeViewSet_list_def RecipeViewSet_get_queryset_def order_by_desc_def
      filter_by_tags_db_def filter_by_tags_request_def create_recipe_def linked_def)

text \<open>
  C5. The ingredient list for a request with \<open>assigned_only=1\<close>, on the database of
  \<open>test_filter_ingredients_assigned_to_recipes\<close>: \<open>get_queryset\<close> does not read the
  query parameters, and the response holds Turkey, which is assigned to no recipe.
\<close>

theorem assigned_only_returns_unassigned:
  "handle assigned_only_db (list_url IngredientViewSet) assigned_only_request =
     (assigned_only_db,
      \<lparr>status_code = HTTP_200_OK,
       res_data = attr_list [\<lparr>attr_id = 2, attr_user = 1, attr_name = ''Turkey''\<rparr>,
                             \<lparr>attr_id = 1, attr_user = 1, attr_name = ''Apple''\<rparr>]\<rparr>) \<and>
   filter (\<lambda>l. snd l = 2) (db_recipe_ingredients assigned_only_db) = []"
  by (simp add: handle_def resolve_def dispatch_def check_permissions_def handler_def
      BaseRecipeAttrViewSet_list_def BaseRecipeAttrViewSet_get_queryset_def order_by_desc_def
      assigned_only_db_def assigned_only_request_def)

section \<open>Image upload\<close>

lemma no_extra_routes: "resolve (action_url vs pk name) = None"
  by (simp add: resolve_def extra_actions_def)

text \<open>
  C8. A POST to the upload-image URL of the user's own recipe, on the database of
  \<open>test_upload_image\<close>: RecipeViewSet has no upload-image action, the URL resolves to no
  view, and the answer is 404 Not Found for an image file and for a payload that is not
  an image alike.
\<close>

theorem upload_image_not_routed:
  "handle upload_image_db (action_url RecipeViewSet 1 ''upload-image'') upload_image_request =
     (upload_image_db, \<lparr>status_code = HTTP_404_NOT_FOUND, res_data = no_content\<rparr>) \<and>
   handle upload_image_db (action_url RecipeViewSet 1 ''upload-image'')
       (upload_image_request\<lparr>req_data := empty_payload\<lparr>p_image := Some not_an_image\<rparr>\<rparr>) =
     (upload_image_db, \<lparr>status_code = HTTP_404_NOT_FOUND, res_data = no_content\<rparr>)"
  by (simp add: handle_def no_extra_routes error_response_def)

section \<open>Tables\<close>

lemma attrs_of_put_attrs [simp]:
  "attrs_of k' (put_attrs k xs d) = (if k' = k then xs else attrs_of k' d)"
  by (cases k; cases k') simp_all

lemma attrs_of_put_links [simp]: "attrs_of k' (put_links k ls d) = attrs_of k' d"
  by (cases k; cases k') simp_all

lemma links_of_put_links [simp]:
  "links_of k' (put_links k ls d) = (if k' = k then ls else links_of k' d)"
  by (cases k; cases k') simp_all

lemma links_of_put_attrs [simp]: "links_of k' (put_attrs k xs d) = links_of k' d"
  by (cases k; cases k') simp_all

lemma db_recipes_put_attrs [simp]: "db_recipes (put_attrs k xs d) = db_recipes d"
  by (cases k) simp_all

lemma db_recipes_put_links [simp]: "db_recipes (put_links k ls d) = db_recipes d"
  by (cases k) simp_all

lemma pk_determines_row:
  "distinct (map f xs) \<Longrightarrow> x \<in> set xs \<Longrightarrow> y \<in> set xs \<Longrightarrow> f x = f y \<Longrightarrow> x = y"
  by (meson distinct_map inj_onD)

lemma filter_save_others:
  assumes "distinct (map f xs)" and "y \<in> set xs" and "\<not> Q y" and "\<not> Q y'"
  shows "filter Q (map (\<lambda>x. if f x = f y then y' else x) xs) = filter Q xs"
proof -
  have same: "\<And>x. x \<in> set xs \<Longrightarrow> f x = f y \<Longrightarrow> x = y"
    using assms(1,2) pk_determines_row by metis
  show ?thesis
    using same assms(3,4) by (induction xs) auto
qed

lemma filter_delete_others:
  assumes "distinct (map f xs)" and "y \<in> set xs" and "\<not> Q y"
  shows "filter Q (filter (\<lambda>x. f x \<noteq> f y) xs) = filter Q xs"
proof -
  have same: "\<And>x. x \<in> set xs \<Longrightarrow> f x = f y \<Longrightarrow> x = y"
    using assms(1,2) pk_determines_row by metis
  show ?thesis
    using same assms(3) by (induction xs) auto
qed

section \<open>get_object\<close>

lemma find_Some_holds: "find P xs = Some x \<Longrightarrow> x \<in> set xs \<and> P x"
  by (induction xs) (auto split: if_splits)

lemma get_object_Some:
  "get_object pk_of (order_by_desc key (filter P xs)) pk = Some x \<Longrightarrow>
   x \<in> set xs \<and> P x \<and> pk_of x = pk"
  using find_Some_holds [of "\<lambda>x. pk_of x = pk" "order_by_desc key (filter P xs)" x]
  by (simp add: get_object_def)

lemma get_object_None:
  "get_object pk_of (order_by_desc key (filter P xs)) pk = None \<longleftrightarrow>
   (\<forall>x \<in> set xs. P x \<longrightarrow> pk_of x \<noteq> pk)"
  by (auto simp: get_object_def find_None_iff)

section \<open>get_or_create\<close>

lemma get_or_create_recipes [simp]: "db_recipes (snd (get_or_create k u n d)) = db_recipes d"
  by (simp add: get_or_create_def Let_def split: option.splits)

lemma get_or_create_links [simp]: "links_of k' (snd (get_or_create k u n d)) = links_of k' d"
  by (simp add: get_or_create_def Let_def split: option.splits)

lemma get_or_create_other_kind:
  "k' \<noteq> k \<Longrightarrow> attrs_of k' (snd (get_or_create k u n d)) = attrs_of k' d"
  by (simp add: get_or_create_def Let_def split: option.splits)

lemma get_or_create_others:
  "filter (\<lambda>a. attr_user a \<noteq> u) (attrs_of k' (snd (get_or_create k u n d))) =
   filter (\<lambda>a. attr_user a \<noteq> u) (attrs_of k' d)"
  by (simp add: get_or_create_def Let_def split: option.splits)

lemma get_or_create_attrs_recipes [simp]:
  "db_recipes (get_or_create_attrs k u ns rid d) = db_recipes d"
proof (induction ns arbitrary: d)
  case Nil
  show ?case by simp
next
  case (Cons n ns)
  obtain a d' where g: "get_or_create k u n d = (a, d')" by (cases "get_or_create k u n d")
  have "db_recipes d' = db_recipes d"
    using get_or_create_recipes [of k u n d] g by simp
  then show ?case using g Cons.IH by simp
qed

lemma get_or_create_attrs_others:
  "filter (\<lambda>a. attr_user a \<noteq> u) (attrs_of k' (get_or_create_attrs k u ns rid d)) =
   filter (\<lambda>a. attr_user a \<noteq> u) (attrs_of k' d)"
proof (induction ns arbitrary: d)
  case Nil
  show ?case by simp
next
  case (Cons n ns)
  obtain a d' where g: "get_or_create k u n d = (a, d')" by (cases "get_or_create k u n d")
  have "filter (\<lambda>a. attr_user a \<noteq> u) (attrs_of k' d') = filter (\<lambda>a. attr_user a \<noteq> u) (attrs_of k' d)"
    using get_or_create_others [of u k' k n d] g by simp
  then show ?case using g Cons.IH by simp
qed

section \<open>The rows of the other users\<close>

lemma others_rows_unchanged_refl [simp]: "others_rows_unchanged u d d"
  by (simp add: others_rows_unchanged_def)

lemma all_kinds: "(\<forall>k. P k) \<longleftrightarrow> P TagKind \<and> P IngredientKind"
proof
  assume "\<forall>k. P k"
  then show "P TagKind \<and> P IngredientKind" by simp
next
  assume a: "P TagKind \<and> P IngredientKind"
  show "\<forall>k. P k"
  proof
    fix k show "P k" using a by (cases k) simp_all
  qed
qed

lemma others_rows_unchanged_kinds:
  "others_rows_unchanged u d d' \<longleftrightarrow>
   filter (\<lambda>r. recipe_user r \<noteq> u) (db_recipes d') = filter (\<lambda>r. recipe_user r \<noteq> u) (db_recipes d) \<and>
   (\<forall>k. filter (\<lambda>a. attr_user a \<noteq> u) (attrs_of k d') = filter (\<lambda>a. attr_user a \<noteq> u) (attrs_of k d))"
  by (simp add: others_rows_unchanged_def all_kinds)

lemma apply_fields_keys [simp]:
  "recipe_user (apply_fields p r) = recipe_user r" "recipe_id (apply_fields p r) = recipe_id r"
  by (simp_all add: apply_fields_def)

lemma clear_links_tables [simp]:
  "db_recipes (clear_links k rid d) = db_recipes d"
  "attrs_of k' (clear_links k rid d) = attrs_of k' d"
  by (simp_all add: clear_links_def)

lemma assign_attrs_recipes [simp]: "db_recipes (assign_attrs k u ns rid d) = db_recipes d"
  by (simp add: assign_attrs_def split: option.splits)

lemma assign_attrs_others:
  "filter (\<lambda>a. attr_user a \<noteq> u) (attrs_of k' (assign_attrs k u ns rid d)) =
   filter (\<lambda>a. attr_user a \<noteq> u) (attrs_of k' d)"
  by (simp add: assign_attrs_def get_or_create_attrs_others split: option.splits)

lemma scoped_list:
  "RecipeViewSet_list d rq = (d', res) \<Longrightarrow> req_user rq = Some u \<Longrightarrow>
   others_rows_unchanged u d d' \<and> scoped_rows u (res_data res)"
  by (auto simp: RecipeViewSet_list_def RecipeViewSet_get_queryset_def scoped_rows_def
      list_all_iff)

lemma attrs_of_recipes_update [simp]: "attrs_of k (d\<lparr>db_recipes := rs\<rparr>) = attrs_of k d"
  by (cases k) simp_all

lemma links_of_recipes_update [simp]: "links_of k (d\<lparr>db_recipes := rs\<rparr>) = links_of k d"
  by (cases k) simp_all

lemma scoped_create:
  assumes "RecipeViewSet_create u d rq = (d', res)"
  shows "others_rows_unchanged u d d' \<and> scoped_rows u (res_data res)"
proof (cases "is_valid False (req_data rq)")
  case False
  then show ?thesis
    using assms by (auto simp: RecipeViewSet_create_def error_response_def scoped_rows_def)
next
  case True
  obtain r d1 where c: "RecipeSerializer_create u (req_data rq) d = (r, d1)"
    by (cases "RecipeSerializer_create u (req_data rq) d")
  have d': "d' = d1" and res: "res_data res = recipe_detail r"
    using assms True c
    by (auto simp: RecipeViewSet_create_def RecipeViewSet_perform_create_def)
  have ru: "recipe_user r = u"
    using c by (auto simp: RecipeSerializer_create_def Let_def)
  have rec: "db_recipes d1 = db_recipes d @ [r]"
    using c by (auto simp: RecipeSerializer_create_def Let_def)
  have att: "filter (\<lambda>a. attr_user a \<noteq> u) (attrs_of k d1) =
      filter (\<lambda>a. attr_user a \<noteq> u) (attrs_of k d)" for k
    using c [symmetric]
    by (simp add: RecipeSerializer_create_def Let_def get_or_create_attrs_others)
  show ?thesis
    using d' res ru rec att by (simp add: others_rows_unchanged_kinds scoped_rows_def)
qed

lemma scoped_retrieve:
  "RecipeViewSet_retrieve pk d rq = (d', res) \<Longrightarrow> req_user rq = Some u \<Longrightarrow>
   others_rows_unchanged u d d' \<and> scoped_rows u (res_data res)"
  by (auto simp: RecipeViewSet_retrieve_def RecipeViewSet_get_queryset_def scoped_rows_def
      error_response_def split: option.splits dest!: get_object_Some)

lemma scoped_update:
  assumes "RecipeViewSet_update partial pk u d rq = (d', res)"
    and "req_user rq = Some u" and "pk_unique d"
  shows "others_rows_unchanged u d d' \<and> scoped_rows u (res_data res)"
proof (cases "get_object recipe_id (RecipeViewSet_get_queryset d rq) pk")
  case None
  then show ?thesis
    using assms(1) by (auto simp: RecipeViewSet_update_def error_response_def scoped_rows_def)
next
  case (Some obj)
  have own: "obj \<in> set (db_recipes d)" "recipe_user obj = u"
    using Some assms(2) get_object_Some [of recipe_id recipe_id _ "db_recipes d" pk obj]
    by (auto simp: RecipeViewSet_get_queryset_def)
  show ?thesis
  proof (cases "is_valid partial (req_data rq)")
    case False
    then show ?thesis
      using assms(1) Some
      by (auto simp: RecipeViewSet_update_def error_response_def scoped_rows_def)
  next
    case True
    let ?p = "req_data rq"
    let ?r = "apply_fields ?p obj"
    let ?d2 = "assign_attrs IngredientKind u (p_ingredients ?p) (recipe_id obj)
      (assign_attrs TagKind u (p_tags ?p) (recipe_id obj) d)"
    have d': "d' = save_recipe ?r ?d2" and res: "res_data res = recipe_detail ?r"
      using assms(1) Some True
      by (auto simp: RecipeViewSet_update_def RecipeSerializer_update_def Let_def)
    have "filter (\<lambda>x. recipe_user x \<noteq> u)
            (map (\<lambda>x. if recipe_id x = recipe_id obj then ?r else x) (db_recipes d)) =
          filter (\<lambda>x. recipe_user x \<noteq> u) (db_recipes d)"
      using assms(3) own
      by (intro filter_save_others) (simp_all add: pk_unique_def)
    then have rec: "filter (\<lambda>x. recipe_user x \<noteq> u) (db_recipes d') =
        filter (\<lambda>x. recipe_user x \<noteq> u) (db_recipes d)"
      by (simp add: d' save_recipe_def)
    have att: "filter (\<lambda>a. attr_user a \<noteq> u) (attrs_of k d') =
        filter (\<lambda>a. attr_user a \<noteq> u) (attrs_of k d)" for k
      by (simp add: d' save_recipe_def assign_attrs_others)
    show ?thesis
      using rec att res own by (simp add: others_rows_unchanged_kinds scoped_rows_def)
  qed
qed

lemma scoped_destroy:
  assumes "RecipeViewSet_destroy pk d rq = (d', res)"
    and "req_user rq = Some u" and "pk_unique d"
  shows "others_rows_unchanged u d d' \<and> scoped_rows u (res_data res)"
proof (cases "get_object recipe_id (RecipeViewSet_get_queryset d rq) pk")
  case None
  then show ?thesis
    using assms(1) by (auto simp: RecipeViewSet_destroy_def error_response_def scoped_rows_def)
next
  case (Some obj)
  have own: "obj \<in> set (db_recipes d)" "recipe_user obj = u"
    using Some assms(2) get_object_Some [of recipe_id recipe_id _ "db_recipes d" pk obj]
    by (auto simp: RecipeViewSet_get_queryset_def)
  have d': "d' = delete_recipe (recipe_id obj) d" and res: "res_data res = no_content"
    using assms(1) Some by (auto simp: RecipeViewSet_destroy_def error_response_def)
  have "filter (\<lambda>x. recipe_user x \<noteq> u)
          (filter (\<lambda>x. recipe_id x \<noteq> recipe_id obj) (db_recipes d)) =
        filter (\<lambda>x. recipe_user x \<noteq> u) (db_recipes d)"
    using assms(3) own by (intro filter_delete_others) (simp_all add: pk_unique_def)
  then show ?thesis
    using res by (simp add: d' delete_recipe_def others_rows_unchanged_def scoped_rows_def)
qed

lemma scoped_attr_list:
  "BaseRecipeAttrViewSet_list k d rq = (d', res) \<Longrightarrow> req_user rq = Some u \<Longrightarrow>
   others_rows_unchanged u d d' \<and> scoped_rows u (res_data res)"
  by (auto simp: BaseRecipeAttrViewSet_list_def BaseRecipeAttrViewSet_get_queryset_def
      scoped_rows_def list_all_iff)

lemma pk_unique_attrs: "pk_unique d \<Longrightarrow> distinct (map attr_id (attrs_of k d))"
  by (cases k) (simp_all add: pk_unique_def)

lemma scoped_attr_update:
  assumes "BaseRecipeAttrViewSet_update k partial pk d rq = (d', res)"
    and "req_user rq = Some u" and "pk_unique d"
  shows "others_rows_unchanged u d d' \<and> scoped_rows u (res_data res)"
proof (cases "get_object attr_id (BaseRecipeAttrViewSet_get_queryset k d rq) pk")
  case None
  then show ?thesis
    using assms(1)
    by (auto simp: BaseRecipeAttrViewSet_update_def error_response_def scoped_rows_def)
next
  case (Some obj)
  have own: "obj \<in> set (attrs_of k d)" "attr_user obj = u"
    using Some assms(2) get_object_Some [of attr_id attr_name _ "attrs_of k d" pk obj]
    by (auto simp: BaseRecipeAttrViewSet_get_queryset_def)
  show ?thesis
  proof (cases "attr_is_valid partial (req_data rq)")
    case False
    then show ?thesis
      using assms(1) Some
      by (auto simp: BaseRecipeAttrViewSet_update_def error_response_def scoped_rows_def)
  next
    case True
    let ?a = "obj\<lparr>attr_name :=
      (case p_name (req_data rq) of None \<Rightarrow> attr_name obj | Some v \<Rightarrow> v)\<rparr>"
    have d': "d' = put_attrs k (map (\<lambda>x. if attr_id x = attr_id obj then ?a else x)
        (attrs_of k d)) d" and res: "res_data res = attr_detail ?a"
      using assms(1) Some True
      by (auto simp: BaseRecipeAttrViewSet_update_def AttrSerializer_update_def Let_def)
    have upd: "filter (\<lambda>x. attr_user x \<noteq> u)
            (map (\<lambda>x. if attr_id x = attr_id obj then ?a else x) (attrs_of k d)) =
          filter (\<lambda>x. attr_user x \<noteq> u) (attrs_of k d)"
      using pk_unique_attrs [OF assms(3), of k] own
      by (intro filter_save_others) simp_all
    have att: "filter (\<lambda>a. attr_user a \<noteq> u) (attrs_of k' d') =
        filter (\<lambda>a. attr_user a \<noteq> u) (attrs_of k' d)" for k'
      using upd by (simp add: d')
    show ?thesis
      using att res own by (simp add: others_rows_unchanged_kinds scoped_rows_def d')
  qed
qed

lemma scoped_attr_destroy:
  assumes "BaseRecipeAttrViewSet_destroy k pk d rq = (d', res)"
    and "req_user rq = Some u" and "pk_unique d"
  shows "others_rows_unchanged u d d' \<and> scoped_rows u (res_data res)"
proof (cases "get_object attr_id (BaseRecipeAttrViewSet_get_queryset k d rq) pk")
  case None
  then show ?thesis
    using assms(1)
    by (auto simp: BaseRecipeAttrViewSet_destroy_def error_response_def scoped_rows_def)
next
  case (Some obj)
  have own: "obj \<in> set (attrs_of k d)" "attr_user obj = u"
    using Some assms(2) get_object_Some [of attr_id attr_name _ "attrs_of k d" pk obj]
    by (auto simp: BaseRecipeAttrViewSet_get_queryset_def)
  have d': "d' = delete_attr k (attr_id obj) d" and res: "res_data res = no_content"
    using assms(1) Some by (auto simp: BaseRecipeAttrViewSet_destroy_def error_response_def)
  have del: "filter (\<lambda>x. attr_user x \<noteq> u)
          (filter (\<lambda>x. attr_id x \<noteq> attr_id obj) (attrs_of k d)) =
        filter (\<lambda>x. attr_user x \<noteq> u) (attrs_of k d)"
    using pk_unique_attrs [OF assms(3), of k] own by (intro filter_delete_others) simp_all
  have att: "filter (\<lambda>a. attr_user a \<noteq> u) (attrs_of k' d') =
      filter (\<lambda>a. attr_user a \<noteq> u) (attrs_of k' d)" for k'
    using del by (simp add: d' delete_attr_def)
  show ?thesis
    using att res by (simp add: others_rows_unchanged_kinds scoped_rows_def d' delete_attr_def)
qed

lemma scoped_handler:
  assumes "handler vs a u d rq = (d', res)" and "req_user rq = Some u" and "pk_unique d"
  shows "others_rows_unchanged u d d' \<and> scoped_rows u (res_data res)"
proof (cases "vs = RecipeViewSet")
  case True
  show ?thesis
  proof (cases a)
    case list_action
    then show ?thesis using assms True scoped_list by (simp add: handler_def)
  next
    case create_action
    then show ?thesis using assms True scoped_create by (simp add: handler_def)
  next
    case (retrieve_action pk)
    then show ?thesis using assms True scoped_retrieve by (simp add: handler_def)
  next
    case (update_action pk)
    then show ?thesis using assms True scoped_update by (simp add: handler_def)
  next
    case (partial_update_action pk)
    then show ?thesis using assms True scoped_update by (simp add: handler_def)
  next
    case (destroy_action pk)
    then show ?thesis using assms True scoped_destroy by (simp add: handler_def)
  qed
next
  case False
  show ?thesis
  proof (cases a)
    case list_action
    then show ?thesis using assms False scoped_attr_list by (simp add: handler_def)
  next
    case create_action
    then show ?thesis
      using assms False by (auto simp: handler_def error_response_def scoped_rows_def)
  next
    case (retrieve_action pk)
    then show ?thesis
      using assms False by (auto simp: handler_def error_response_def scoped_rows_def)
  next
    case (update_action pk)
    then show ?thesis using assms False scoped_attr_update by (simp add: handler_def)
  next
    case (partial_update_action pk)
    then show ?thesis using assms False scoped_attr_update by (simp add: handler_def)
  next
    case (destroy_action pk)
    then show ?thesis using assms False scoped_attr_destroy by (simp add: handler_def)
  qed
qed

lemma other_recipe_not_found:
  assumes "pk_unique d" and "req_user rq = Some u" and "owned_by_other RecipeViewSet pk u d"
  shows "get_object recipe_id (RecipeViewSet_get_queryset d rq) pk = None"
proof -
  obtain r where r: "r \<in> set (db_recipes d)" "recipe_id r = pk" "recipe_user r \<noteq> u"
    using assms(3) by (auto simp: owned_by_other_def)
  have "recipe_id x \<noteq> pk" if "x \<in> set (db_recipes d)" "recipe_user x = u" for x
    using pk_determines_row [of recipe_id "db_recipes d" x r] assms(1) r that
    by (auto simp: pk_unique_def)
  then show ?thesis
    using assms(2) by (auto simp: RecipeViewSet_get_queryset_def get_object_None)
qed

lemma other_attr_not_found:
  assumes "pk_unique d" and "req_user rq = Some u" and "vs \<noteq> RecipeViewSet"
    and "owned_by_other vs pk u d"
  shows "get_object attr_id (BaseRecipeAttrViewSet_get_queryset (attr_kind_of vs) d rq) pk = None"
proof -
  let ?k = "attr_kind_of vs"
  obtain a where a: "a \<in> set (attrs_of ?k d)" "attr_id a = pk" "attr_user a \<noteq> u"
    using assms(3,4) by (auto simp: owned_by_other_def)
  have "attr_id x \<noteq> pk" if "x \<in> set (attrs_of ?k d)" "attr_user x = u" for x
    using pk_determines_row [of attr_id "attrs_of ?k d" x a] pk_unique_attrs [OF assms(1), of ?k]
      a that
    by auto
  then show ?thesis
    using assms(2) by (auto simp: BaseRecipeAttrViewSet_get_queryset_def get_object_None)
qed

lemma other_target_not_found:
  assumes "pk_unique d" and "req_user rq = Some u" and "owned_by_other vs pk u d"
    and "route_action (detail_route pk) (req_method rq) = Some a" and "has_action vs a"
  shows "handler vs a u d rq = (d, error_response HTTP_404_NOT_FOUND)"
proof (cases "vs = RecipeViewSet")
  case True
  have n: "get_object recipe_id (RecipeViewSet_get_queryset d rq) pk = None"
    using other_recipe_not_found assms(1,2,3) True by simp
  show ?thesis
    using assms(4) True n
    by (cases "req_method rq")
      (auto simp: handler_def RecipeViewSet_retrieve_def RecipeViewSet_update_def
        RecipeViewSet_destroy_def)
next
  case False
  have n: "get_object attr_id (BaseRecipeAttrViewSet_get_queryset (attr_kind_of vs) d rq) pk = None"
    using other_attr_not_found assms(1,2,3) False by simp
  have "has_action vs (retrieve_action pk) = False"
    using False by (cases vs) simp_all
  then show ?thesis
    using assms(4,5) False n
    by (cases "req_method rq")
      (auto simp: handler_def BaseRecipeAttrViewSet_update_def BaseRecipeAttrViewSet_destroy_def)
qed

text \<open>
  The tag and ingredient viewsets have no retrieve and no create action: a GET of a
  detail URL and a POST to the list URL are answered 405 Method Not Allowed, whoever
  owns the object.
\<close>

lemma attr_retrieve_create_not_allowed:
  assumes "req_user rq = Some u" and "vs \<noteq> RecipeViewSet"
    and "url = detail_url vs pk \<and> req_method rq = GET \<or> url = list_url vs \<and> req_method rq = POST"
  shows "handle d url rq = (d, error_response HTTP_405_METHOD_NOT_ALLOWED)"
  using assms
  by (cases vs) (auto simp: handle_def resolve_def authenticated_dispatch)

text \<open>
  The rows of the tables. For an authenticated user \<open>u\<close> and any request to any URL,
  on a database with unique primary keys: the recipe, tag and ingredient rows of every
  other user are the same after the request as before; every row in the body of the
  response belongs to \<open>u\<close>; and a request for an action of the viewset whose URL names
  an object of another user is answered 404 Not Found and leaves the whole database as
  it was.
\<close>

lemma rows_scoped:
  assumes "pk_unique d" and "req_user rq = Some u" and "handle d url rq = (d', res)"
  shows "others_rows_unchanged u d d' \<and>
         scoped_rows u (res_data res) \<and>
         (\<forall>vs pk. url = detail_url vs pk \<and> routed vs (detail_route pk) (req_method rq) \<and>
                  owned_by_other vs pk u d \<longrightarrow>
                  status_code res = HTTP_404_NOT_FOUND \<and> d' = d)"
proof (cases "resolve url")
  case None
  then show ?thesis
    using assms(3)
    by (auto simp: handle_def error_response_def scoped_rows_def resolve_def
        split: url.splits)
next
  case (Some vr)
  obtain vs rt where vr: "vr = (vs, rt)" by (cases vr)
  have run: "dispatch vs rt d rq = (d', res)"
    using assms(3) Some vr by (simp add: handle_def)
  show ?thesis
  proof (cases "route_action rt (req_method rq)")
    case None
    then have "d' = d" "res = error_response HTTP_405_METHOD_NOT_ALLOWED"
      using run authenticated_dispatch [OF assms(2), of vs rt d] by simp_all
    then show ?thesis
      using None Some vr
      by (auto simp: error_response_def scoped_rows_def routed_def resolve_def
          split: url.splits)
  next
    case (Some a)
    show ?thesis
    proof (cases "has_action vs a")
      case False
      then have "d' = d" "res = error_response HTTP_405_METHOD_NOT_ALLOWED"
        using run Some authenticated_dispatch [OF assms(2), of vs rt d] by simp_all
      then show ?thesis
        using False Some \<open>resolve url = Some vr\<close> vr
        by (auto simp: error_response_def scoped_rows_def routed_def resolve_def
            split: url.splits)
    next
      case True
      then have h: "handler vs a u d rq = (d', res)"
        using run Some authenticated_dispatch [OF assms(2), of vs rt d] by simp
      have scoped: "others_rows_unchanged u d d' \<and> scoped_rows u (res_data res)"
        using scoped_handler [OF h assms(2,1)] .
      have "status_code res = HTTP_404_NOT_FOUND \<and> d' = d"
        if "url = detail_url vs' pk" "owned_by_other vs' pk u d" for vs' pk
      proof -
        have "vs' = vs" "rt = detail_route pk"
          using that(1) \<open>resolve url = Some vr\<close> vr by (simp_all add: resolve_def)
        then have "handler vs a u d rq = (d, error_response HTTP_404_NOT_FOUND)"
          using other_target_not_found [OF assms(1,2), of vs pk a] that(2) Some True by simp
        then show ?thesis
          using h by (simp add: error_response_def)
      qed
      then show ?thesis
        using scoped by blast
    qed
  qed
qed

section \<open>Upsert of nested tags and ingredients\<close>

lemma next_id_gt: "x \<in> set ids \<Longrightarrow> x < next_id ids"
proof -
  assume "x \<in> set ids"
  have "fold max ids 0 = Max (set (0 # ids))"
    by (simp only: Max.set_eq_fold)
  moreover have "x \<le> Max (set (0 # ids))"
    using \<open>x \<in> set ids\<close> by (intro Max_ge) auto
  ultimately show ?thesis by (simp add: next_id_def)
qed

lemma next_id_fresh: "next_id ids \<notin> set ids"
  using next_id_gt [of "next_id ids" ids] by auto

lemma find_append_Some: "find P xs = Some x \<Longrightarrow> find P (xs @ ys) = Some x"
  by (induction xs) (auto split: if_splits)

lemma find_append_None: "find P xs = None \<Longrightarrow> find P (xs @ ys) = find P ys"
  by (induction xs) (auto split: if_splits)

lemma find_prefix_None: "find P (xs @ ys) = None \<Longrightarrow> find P xs = None"
  by (auto simp: find_None_iff)

text \<open>One step of the loop: the row of the name, and the database with the row linked.\<close>

lemma get_or_create_found:
  "find (\<lambda>a. attr_user a = u \<and> attr_name a = n) (attrs_of k d) = Some a \<Longrightarrow>
   get_or_create k u n d = (a, d)"
  by (simp add: get_or_create_def)

lemma get_or_create_made:
  "find (\<lambda>a. attr_user a = u \<and> attr_name a = n) (attrs_of k d) = None \<Longrightarrow>
   get_or_create k u n d =
     (\<lparr>attr_id = next_id (map attr_id (attrs_of k d)), attr_user = u, attr_name = n\<rparr>,
      put_attrs k (attrs_of k d @
        [\<lparr>attr_id = next_id (map attr_id (attrs_of k d)), attr_user = u, attr_name = n\<rparr>]) d)"
  by (simp add: get_or_create_def Let_def)

lemma get_or_create_attrs_spec:
  assumes "distinct (map attr_id (attrs_of k d))"
  shows "\<exists>new. attrs_of k (get_or_create_attrs k u ns rid d) = attrs_of k d @ new \<and>
           distinct (map attr_id (attrs_of k d @ new)) \<and>
           (\<forall>b \<in> set new. attr_user b = u \<and> attr_name b \<in> set ns \<and>
              find (\<lambda>a. attr_user a = u \<and> attr_name a = attr_name b) (attrs_of k d) = None) \<and>
           distinct (map attr_name new) \<and>
           (\<forall>n \<in> set ns. find (\<lambda>a. attr_user a = u \<and> attr_name a = n) (attrs_of k d @ new) \<noteq> None) \<and>
           set (links_of k (get_or_create_attrs k u ns rid d)) =
             set (links_of k d) \<union>
             (\<lambda>n. (rid, attr_id (the (find (\<lambda>a. attr_user a = u \<and> attr_name a = n)
                                       (attrs_of k d @ new))))) ` set ns"
  using assms
proof (induction ns arbitrary: d)
  case Nil
  then show ?case by simp
next
  case (Cons n ns)
  let ?M = "\<lambda>m a. attr_user a = u \<and> attr_name a = m"
  let ?A = "attrs_of k d"
  show ?case
  proof (cases "find (?M n) ?A")
    case (Some a)
    let ?d1 = "put_links k (add_link (rid, attr_id a) (links_of k d)) d"
    have step: "get_or_create_attrs k u (n # ns) rid d = get_or_create_attrs k u ns rid ?d1"
      using get_or_create_found [OF Some] by simp
    have A1: "attrs_of k ?d1 = ?A" by simp
    have L1: "set (links_of k ?d1) = insert (rid, attr_id a) (set (links_of k d))"
      by (auto simp: add_link_def)
    obtain new where new:
      "attrs_of k (get_or_create_attrs k u ns rid ?d1) = ?A @ new"
      "distinct (map attr_id (?A @ new))"
      "\<forall>b \<in> set new. attr_user b = u \<and> attr_name b \<in> set ns \<and> find (?M (attr_name b)) ?A = None"
      "distinct (map attr_name new)"
      "\<forall>m \<in> set ns. find (?M m) (?A @ new) \<noteq> None"
      "set (links_of k (get_or_create_attrs k u ns rid ?d1)) =
         set (links_of k ?d1) \<union> (\<lambda>m. (rid, attr_id (the (find (?M m) (?A @ new))))) ` set ns"
      using Cons.IH [of ?d1] Cons.prems unfolding A1 by blast
    have fn: "find (?M n) (?A @ new) = Some a"
      using Some by (rule find_append_Some)
    have c5: "\<forall>m \<in> set (n # ns). find (?M m) (?A @ new) \<noteq> None"
      using new(5) fn by simp
    have c3: "\<forall>b \<in> set new. attr_user b = u \<and> attr_name b \<in> set (n # ns) \<and>
        find (?M (attr_name b)) ?A = None"
      using new(3) by simp
    have c6: "set (links_of k (get_or_create_attrs k u ns rid ?d1)) =
        set (links_of k d) \<union>
        (\<lambda>m. (rid, attr_id (the (find (?M m) (?A @ new))))) ` set (n # ns)"
      using new(6) L1 fn by simp
    show ?thesis
      unfolding step using new(1,2,4) c3 c5 c6 by (intro exI [of _ new] conjI)
  next
    case None
    let ?a = "\<lparr>attr_id = next_id (map attr_id ?A), attr_user = u, attr_name = n\<rparr>"
    let ?d0 = "put_attrs k (?A @ [?a]) d"
    let ?d1 = "put_links k (add_link (rid, attr_id ?a) (links_of k ?d0)) ?d0"
    have step: "get_or_create_attrs k u (n # ns) rid d = get_or_create_attrs k u ns rid ?d1"
      using get_or_create_made [OF None] by simp
    have A1: "attrs_of k ?d1 = ?A @ [?a]" by simp
    have L1: "set (links_of k ?d1) = insert (rid, attr_id ?a) (set (links_of k d))"
      by (auto simp: add_link_def)
    have dist1: "distinct (map attr_id (attrs_of k ?d1))"
      using Cons.prems next_id_fresh [of "map attr_id ?A"] by simp
    obtain new where new:
      "attrs_of k (get_or_create_attrs k u ns rid ?d1) = (?A @ [?a]) @ new"
      "distinct (map attr_id ((?A @ [?a]) @ new))"
      "\<forall>b \<in> set new. attr_user b = u \<and> attr_name b \<in> set ns \<and>
          find (?M (attr_name b)) (?A @ [?a]) = None"
      "distinct (map attr_name new)"
      "\<forall>m \<in> set ns. find (?M m) ((?A @ [?a]) @ new) \<noteq> None"
      "set (links_of k (get_or_create_attrs k u ns rid ?d1)) =
         set (links_of k ?d1) \<union>
         (\<lambda>m. (rid, attr_id (the (find (?M m) ((?A @ [?a]) @ new))))) ` set ns"
      using Cons.IH [of ?d1] dist1 unfolding A1 by blast
    have fn: "find (?M n) (?A @ ?a # new) = Some ?a"
      using None by (simp add: find_append_None)
    have names: "attr_name b \<noteq> n" if "b \<in> set new" for b
    proof
      assume "attr_name b = n"
      then have "find (?M n) (?A @ [?a]) = None"
        using new(3) that by auto
      then show False
        using None by (simp add: find_append_None)
    qed
    have old: "find (?M (attr_name b)) ?A = None" if "b \<in> set new" for b
      using new(3) that find_prefix_None [of "?M (attr_name b)" ?A "[?a]"] by auto
    have c1: "attrs_of k (get_or_create_attrs k u ns rid ?d1) = ?A @ ?a # new"
      using new(1) by simp
    have c2: "distinct (map attr_id (?A @ ?a # new))"
      using new(2) by simp
    have c3: "\<forall>b \<in> set (?a # new). attr_user b = u \<and> attr_name b \<in> set (n # ns) \<and>
        find (?M (attr_name b)) ?A = None"
      using new(3) old None by simp
    have "n \<notin> attr_name ` set new"
      using names by force
    then have c4: "distinct (map attr_name (?a # new))"
      using new(4) by simp
    have c5: "\<forall>m \<in> set (n # ns). find (?M m) (?A @ ?a # new) \<noteq> None"
      using new(5) fn by simp
    have c6: "set (links_of k (get_or_create_attrs k u ns rid ?d1)) =
        set (links_of k d) \<union>
        (\<lambda>m. (rid, attr_id (the (find (?M m) (?A @ ?a # new))))) ` set (n # ns)"
      using new(6) L1 fn by simp
    show ?thesis
      unfolding step using c1 c2 c3 c4 c5 c6 by (intro exI [of _ "?a # new"] conjI)
  qed
qed

lemma find_filter_hd: "find P xs = (case filter P xs of [] \<Rightarrow> None | x # _ \<Rightarrow> Some x)"
  by (induction xs) auto

lemma filter_single:
  assumes "distinct (map f xs)" and "x \<in> set xs" and "\<forall>y \<in> set xs. P y \<longleftrightarrow> f y = f x"
  shows "filter P xs = [x]"
  using assms
proof (induction xs)
  case Nil
  then show ?case by simp
next
  case (Cons y ys)
  show ?case
  proof (cases "y = x")
    case True
    then have "\<forall>z \<in> set ys. \<not> P z"
      using Cons.prems(1,3) by (auto simp: image_iff)
    then have "filter P ys = []"
      by (simp add: filter_empty_conv)
    then show ?thesis
      using True Cons.prems(3) by simp
  next
    case False
    then have "x \<in> set ys" using Cons.prems(2) by simp
    moreover have "f y \<noteq> f x"
      using Cons.prems(1) \<open>x \<in> set ys\<close> by (auto simp: image_iff)
    ultimately show ?thesis
      using Cons.IH Cons.prems by simp
  qed
qed

lemma upsert_core:
  assumes dist: "distinct (map attr_id (attrs_of k d))"
    and clear: "\<forall>l \<in> set (links_of k d). fst l \<noteq> rid"
  shows "(\<forall>n \<in> set ns. upsert_of_name k u rid d (get_or_create_attrs k u ns rid d) n) \<and>
         one_per_name k u ns rid (get_or_create_attrs k u ns rid d)"
proof -
  let ?M = "\<lambda>m a. attr_user a = u \<and> attr_name a = m"
  let ?A = "attrs_of k d"
  let ?d' = "get_or_create_attrs k u ns rid d"
  obtain new where A': "attrs_of k ?d' = ?A @ new"
    and dist': "distinct (map attr_id (?A @ new))"
    and new: "\<forall>b \<in> set new. attr_user b = u \<and> attr_name b \<in> set ns \<and>
        find (?M (attr_name b)) ?A = None"
    and names: "distinct (map attr_name new)"
    and ex: "\<forall>n \<in> set ns. find (?M n) (?A @ new) \<noteq> None"
    and L': "set (links_of k ?d') = set (links_of k d) \<union>
        (\<lambda>n. (rid, attr_id (the (find (?M n) (?A @ new))))) ` set ns"
    using get_or_create_attrs_spec [OF dist, of u ns rid] by blast
  define fm where "fm = (\<lambda>n. the (find (?M n) (?A @ new)))"
  have fm: "fm n \<in> set (?A @ new) \<and> attr_user (fm n) = u \<and> attr_name (fm n) = n \<and>
      find (?M n) (?A @ new) = Some (fm n)" if n: "n \<in> set ns" for n
  proof -
    obtain b where b: "find (?M n) (?A @ new) = Some b"
      using ex n by auto
    then show ?thesis
      using find_Some_holds [OF b] by (simp add: fm_def)
  qed
  have link_iff: "(rid, i) \<in> set (links_of k ?d') \<longleftrightarrow> (\<exists>n \<in> set ns. i = attr_id (fm n))" for i
    using L' clear by (auto simp: fm_def)
  have linked_set: "set (linked k rid ?d') = fm ` set ns"
  proof
    show "set (linked k rid ?d') \<subseteq> fm ` set ns"
    proof
      fix a assume "a \<in> set (linked k rid ?d')"
      then have a: "a \<in> set (?A @ new)" and "(rid, attr_id a) \<in> set (links_of k ?d')"
        by (auto simp: linked_def A')
      then obtain n where n: "n \<in> set ns" "attr_id a = attr_id (fm n)"
        using link_iff by auto
      have "a = fm n"
        using pk_determines_row [OF dist' a _ n(2)] fm [OF n(1)] by simp
      then show "a \<in> fm ` set ns" using n(1) by simp
    qed
    show "fm ` set ns \<subseteq> set (linked k rid ?d')"
      using fm link_iff by (auto simp: linked_def A')
  qed
  have inj: "inj_on attr_name (set (linked k rid ?d'))"
    unfolding linked_set using fm by (auto simp: inj_on_def)
  have "distinct (?A @ new)"
    using dist' distinct_map by blast
  then have "distinct (linked k rid ?d')"
    by (simp add: linked_def A' del: filter_append)
  then have d1: "distinct (map attr_name (linked k rid ?d'))"
    using inj by (simp add: distinct_map)
  have d2: "set (map attr_name (linked k rid ?d')) = set ns"
    using fm by (auto simp: linked_set image_iff)
  have d3: "list_all (\<lambda>a. attr_user a = u) (linked k rid ?d')"
    using fm by (auto simp: list_all_iff linked_set)
  have per_name: "upsert_of_name k u rid d ?d' n" if n: "n \<in> set ns" for n
  proof (cases "filter (?M n) ?A")
    case Nil
    then have none: "find (?M n) ?A = None"
      by (simp add: find_filter_hd)
    then have "find (?M n) new = Some (fm n)"
      using fm [OF n] by (simp add: find_append_None)
    then have b: "fm n \<in> set new" "attr_name (fm n) = n"
      using find_Some_holds [of "?M n" new "fm n"] by simp_all
    have "\<forall>y \<in> set new. ?M n y \<longleftrightarrow> attr_name y = attr_name (fm n)"
      using new b(2) by auto
    then have one: "filter (?M n) new = [fm n]"
      using filter_single [OF names b(1)] by simp
    have fresh: "attr_id (fm n) \<notin> set (map attr_id ?A)"
      using dist' b(1) by auto
    have "fm n \<in> set (linked k rid ?d')"
      using n by (simp add: linked_set)
    then show ?thesis
      using Nil one fresh by (simp add: upsert_of_name_def A')
  next
    case (Cons a as)
    then have some: "find (?M n) ?A = Some a"
      by (simp add: find_filter_hd)
    then have "fm n = a"
      using fm [OF n] find_append_Some [OF some, of new] by simp
    then have lk: "a \<in> set (linked k rid ?d')"
      using n by (auto simp: linked_set)
    have "\<not> ?M n b" if "b \<in> set new" for b
      using new that some by auto
    then have "filter (?M n) new = []"
      by (simp add: filter_empty_conv)
    then show ?thesis
      using Cons lk by (simp add: upsert_of_name_def A')
  qed
  show ?thesis
    using per_name d1 d2 d3 by (simp add: one_per_name_def)
qed

lemma upsert_frame:
  assumes "attrs_of k d0 = attrs_of k d" and "attrs_of k d0' = attrs_of k d'"
    and "links_of k d0' = links_of k d'"
  shows "upsert_of_name k u rid d0 d0' n = upsert_of_name k u rid d d' n"
    and "one_per_name k u ns rid d0' = one_per_name k u ns rid d'"
proof -
  have lk: "linked k rid d0' = linked k rid d'"
    by (simp add: linked_def assms)
  show "upsert_of_name k u rid d0 d0' n = upsert_of_name k u rid d d' n"
    unfolding upsert_of_name_def lk assms(1,2) by (rule refl)
  show "one_per_name k u ns rid d0' = one_per_name k u ns rid d'"
    unfolding one_per_name_def lk by (rule refl)
qed

lemma get_or_create_attrs_other_kind:
  "k' \<noteq> k \<Longrightarrow>
   attrs_of k' (get_or_create_attrs k u ns rid d) = attrs_of k' d \<and>
   links_of k' (get_or_create_attrs k u ns rid d) = links_of k' d"
proof (induction ns arbitrary: d)
  case Nil
  show ?case by simp
next
  case (Cons n ns)
  obtain a d1 where g: "get_or_create k u n d = (a, d1)" by (cases "get_or_create k u n d")
  have "attrs_of k' d1 = attrs_of k' d" "links_of k' d1 = links_of k' d"
    using get_or_create_other_kind [OF Cons.prems, of u n d] get_or_create_links [of k' k u n d] g
    by simp_all
  then show ?case
    using g Cons.IH [OF Cons.prems] Cons.prems by simp
qed

lemma links_of_clear_links:
  "links_of k' (clear_links k rid d) =
     (if k' = k then filter (\<lambda>l. fst l \<noteq> rid) (links_of k d) else links_of k' d)"
  by (simp add: clear_links_def)

lemma assign_attrs_other_kind:
  "k' \<noteq> k \<Longrightarrow>
   attrs_of k' (assign_attrs k u x rid d) = attrs_of k' d \<and>
   links_of k' (assign_attrs k u x rid d) = links_of k' d"
  by (cases x) (simp_all add: assign_attrs_def get_or_create_attrs_other_kind links_of_clear_links)

lemma assign_attrs_upsert:
  assumes "distinct (map attr_id (attrs_of k d))"
  shows "(\<forall>n \<in> set ns. upsert_of_name k u rid d (assign_attrs k u (Some ns) rid d) n) \<and>
         one_per_name k u ns rid (assign_attrs k u (Some ns) rid d)"
proof -
  let ?c = "clear_links k rid d"
  have "distinct (map attr_id (attrs_of k ?c))" "\<forall>l \<in> set (links_of k ?c). fst l \<noteq> rid"
    using assms by (simp_all add: links_of_clear_links)
  then have "(\<forall>n \<in> set ns. upsert_of_name k u rid ?c (get_or_create_attrs k u ns rid ?c) n) \<and>
      one_per_name k u ns rid (get_or_create_attrs k u ns rid ?c)"
    by (rule upsert_core)
  moreover have "upsert_of_name k u rid ?c (get_or_create_attrs k u ns rid ?c) n =
      upsert_of_name k u rid d (get_or_create_attrs k u ns rid ?c) n" for n
    by (rule upsert_frame) simp_all
  ultimately show ?thesis
    by (simp add: assign_attrs_def)
qed

lemma update_upsert:
  assumes "pk_unique d" and "payload_names k p = Some ns"
    and "RecipeSerializer_update u obj p d = (r, d')"
  shows "(\<forall>n \<in> set ns. upsert_of_name k u (recipe_id obj) d d' n) \<and>
         one_per_name k u ns (recipe_id obj) d'"
proof -
  let ?rid = "recipe_id obj"
  let ?d1 = "assign_attrs TagKind u (p_tags p) ?rid d"
  let ?d2 = "assign_attrs IngredientKind u (p_ingredients p) ?rid ?d1"
  have d': "d' = save_recipe (apply_fields p obj) ?d2"
    using assms(3) by (auto simp: RecipeSerializer_update_def Let_def)
  have sv: "attrs_of k' d' = attrs_of k' ?d2" "links_of k' d' = links_of k' ?d2" for k'
    by (simp_all add: d' save_recipe_def)
  show ?thesis
  proof (cases k)
    case TagKind
    then have ns: "p_tags p = Some ns" using assms(2) by simp
    have core: "(\<forall>n \<in> set ns. upsert_of_name TagKind u ?rid d ?d1 n) \<and>
        one_per_name TagKind u ns ?rid ?d1"
      unfolding ns using pk_unique_attrs [OF assms(1), of TagKind]
      by (rule assign_attrs_upsert)
    have fr: "attrs_of TagKind d' = attrs_of TagKind ?d1" "links_of TagKind d' = links_of TagKind ?d1"
      using assign_attrs_other_kind [of TagKind IngredientKind u "p_ingredients p" ?rid ?d1]
      by (simp_all only: sv) simp_all
    have "upsert_of_name TagKind u ?rid d d' n = upsert_of_name TagKind u ?rid d ?d1 n" for n
      using fr by (intro upsert_frame) simp_all
    moreover have "one_per_name TagKind u ns ?rid d' = one_per_name TagKind u ns ?rid ?d1"
      using fr by (intro upsert_frame(2) [of TagKind d d]) simp_all
    ultimately show ?thesis
      using core TagKind by simp
  next
    case IngredientKind
    then have ns: "p_ingredients p = Some ns" using assms(2) by simp
    have a1: "attrs_of IngredientKind ?d1 = attrs_of IngredientKind d"
      using assign_attrs_other_kind [of IngredientKind TagKind u "p_tags p" ?rid d] by simp
    then have "distinct (map attr_id (attrs_of IngredientKind ?d1))"
      using pk_unique_attrs [OF assms(1), of IngredientKind] by simp
    then have core: "(\<forall>n \<in> set ns. upsert_of_name IngredientKind u ?rid ?d1 ?d2 n) \<and>
        one_per_name IngredientKind u ns ?rid ?d2"
      unfolding ns by (rule assign_attrs_upsert)
    have "upsert_of_name IngredientKind u ?rid d d' n =
        upsert_of_name IngredientKind u ?rid ?d1 ?d2 n" for n
      using a1 sv by (intro upsert_frame) simp_all
    moreover have "one_per_name IngredientKind u ns ?rid d' =
        one_per_name IngredientKind u ns ?rid ?d2"
      using sv by (intro upsert_frame(2) [of IngredientKind d d]) simp_all
    ultimately show ?thesis
      using core IngredientKind by simp
  qed
qed

lemma create_upsert:
  assumes "pk_unique d" and "fk_valid d" and "payload_names k p = Some ns"
    and "RecipeSerializer_create u p d = (r, d')"
  shows "(\<forall>n \<in> set ns. upsert_of_name k u (recipe_id r) d d' n) \<and>
         one_per_name k u ns (recipe_id r) d'"
proof -
  let ?rid = "next_id (map recipe_id (db_recipes d))"
  let ?r = "apply_fields p
      \<lparr>recipe_id = ?rid, recipe_user = u, title = [], time_minutes = 0, price = 0,
       description = [], link = [], recipe_image = None\<rparr>"
  let ?d1 = "d\<lparr>db_recipes := db_recipes d @ [?r]\<rparr>"
  let ?ts = "case p_tags p of None \<Rightarrow> [] | Some ns \<Rightarrow> ns"
  let ?is = "case p_ingredients p of None \<Rightarrow> [] | Some ns \<Rightarrow> ns"
  let ?d2 = "get_or_create_attrs TagKind u ?ts ?rid ?d1"
  let ?d3 = "get_or_create_attrs IngredientKind u ?is ?rid ?d2"
  have r: "recipe_id r = ?rid" and d': "d' = ?d3"
    using assms(4) by (auto simp: RecipeSerializer_create_def Let_def)
  have nolink: "\<forall>l \<in> set (links_of k' d). fst l \<noteq> ?rid" for k'
    using assms(2) next_id_fresh [of "map recipe_id (db_recipes d)"]
    by (cases k') (auto simp: fk_valid_def)
  show ?thesis
  proof (cases k)
    case TagKind
    then have ns: "?ts = ns" using assms(3) by simp
    have "distinct (map attr_id (attrs_of TagKind ?d1))"
      "\<forall>l \<in> set (links_of TagKind ?d1). fst l \<noteq> ?rid"
      using pk_unique_attrs [OF assms(1), of TagKind] nolink [of TagKind] by simp_all
    then have core: "(\<forall>n \<in> set ns. upsert_of_name TagKind u ?rid ?d1 ?d2 n) \<and>
        one_per_name TagKind u ns ?rid ?d2"
      unfolding ns by (rule upsert_core)
    have fr: "attrs_of TagKind ?d3 = attrs_of TagKind ?d2" "links_of TagKind ?d3 = links_of TagKind ?d2"
      using get_or_create_attrs_other_kind [of TagKind IngredientKind u ?is ?rid ?d2]
      by simp_all
    have "upsert_of_name TagKind u ?rid d ?d3 n = upsert_of_name TagKind u ?rid ?d1 ?d2 n" for n
      using fr by (intro upsert_frame) simp_all
    moreover have "one_per_name TagKind u ns ?rid ?d3 = one_per_name TagKind u ns ?rid ?d2"
      using fr by (intro upsert_frame(2) [of TagKind d d]) simp_all
    ultimately show ?thesis
      using core TagKind r d' by simp
  next
    case IngredientKind
    then have ns: "?is = ns" using assms(3) by simp
    have fr: "attrs_of IngredientKind ?d2 = attrs_of IngredientKind d"
      "links_of IngredientKind ?d2 = links_of IngredientKind d"
      using get_or_create_attrs_other_kind [of IngredientKind TagKind u ?ts ?rid ?d1]
      by simp_all
    have "distinct (map attr_id (attrs_of IngredientKind ?d2))"
      "\<forall>l \<in> set (links_of IngredientKind ?d2). fst l \<noteq> ?rid"
      using pk_unique_attrs [OF assms(1), of IngredientKind] nolink [of IngredientKind] fr
      by simp_all
    then have core: "(\<forall>n \<in> set ns. upsert_of_name IngredientKind u ?rid ?d2 ?d3 n) \<and>
        one_per_name IngredientKind u ns ?rid ?d3"
      unfolding ns by (rule upsert_core)
    have "upsert_of_name IngredientKind u ?rid d ?d3 n =
        upsert_of_name IngredientKind u ?rid ?d2 ?d3 n" for n
      using fr by (intro upsert_frame) simp_all
    then show ?thesis
      using core IngredientKind r d' by simp
  qed
qed

section \<open>Recipe writes through the view\<close>

lemma recipe_create_outcome:
  assumes "req_user rq = Some u" and "req_method rq = POST"
    and "handle d (list_url RecipeViewSet) rq = (d', res)"
  shows "if is_valid False (req_data rq)
         then status_code res = HTTP_201_CREATED \<and>
              (\<exists>r. res_data res = recipe_detail r \<and>
                    RecipeSerializer_create u (req_data rq) d = (r, d'))
         else status_code res = HTTP_400_BAD_REQUEST \<and> res_data res = no_content \<and> d' = d"
  using assms
  by (auto simp: handle_def resolve_def authenticated_dispatch handler_def
      RecipeViewSet_create_def RecipeViewSet_perform_create_def error_response_def
      split: prod.splits)

lemma recipe_update_outcome:
  assumes "req_user rq = Some u" and "req_method rq = PUT \<or> req_method rq = PATCH"
    and "handle d (detail_url RecipeViewSet pk) rq = (d', res)"
  shows "(status_code res = HTTP_200_OK \<and>
          (\<exists>obj r. get_object recipe_id (RecipeViewSet_get_queryset d rq) pk = Some obj \<and>
                  res_data res = recipe_detail r \<and>
                  RecipeSerializer_update u obj (req_data rq) d = (r, d'))) \<or>
         (status_code res \<noteq> HTTP_200_OK \<and> res_data res = no_content \<and> d' = d)"
  using assms
  by (auto simp: handle_def resolve_def authenticated_dispatch handler_def
      RecipeViewSet_update_def error_response_def
      split: prod.splits option.splits if_splits)

lemma get_object_pk: "get_object pk_of xs pk = Some x \<Longrightarrow> pk_of x = pk"
  using find_Some_holds [of "\<lambda>x. pk_of x = pk" xs x] by (simp add: get_object_def)

lemma update_recipe_id:
  "RecipeSerializer_update u obj p d = (r, d') \<Longrightarrow> recipe_id r = recipe_id obj"
  by (auto simp: RecipeSerializer_update_def Let_def)

lemma has_fields_apply_fields: "has_fields p (apply_fields p r)"
  by (simp add: has_fields_def apply_fields_def split: option.splits)

lemma create_row:
  assumes "RecipeSerializer_create u p d = (r, d')"
  shows "recipe_user r = u" and "has_fields p r"
    and "db_recipes d' = db_recipes d @ [r]"
    and "recipe_id r = next_id (map recipe_id (db_recipes d))"
  using assms
  by (auto simp: RecipeSerializer_create_def Let_def has_fields_apply_fields)

lemma recipe_update_success:
  assumes "req_user rq = Some u"
    and "req_method rq = PUT \<and> is_valid False (req_data rq) \<or> req_method rq = PATCH"
    and "r0 \<in> set (db_recipes d)" and "recipe_id r0 = pk" and "recipe_user r0 = u"
    and "handle d (detail_url RecipeViewSet pk) rq = (d', res)"
  shows "status_code res = HTTP_200_OK \<and>
         (\<exists>obj r. get_object recipe_id (RecipeViewSet_get_queryset d rq) pk = Some obj \<and>
                 res_data res = recipe_detail r \<and>
                 RecipeSerializer_update u obj (req_data rq) d = (r, d'))"
proof -
  have "get_object recipe_id (RecipeViewSet_get_queryset d rq) pk \<noteq> None"
    using assms(1,3,4,5) by (auto simp: RecipeViewSet_get_queryset_def get_object_None)
  then obtain obj where obj: "get_object recipe_id (RecipeViewSet_get_queryset d rq) pk = Some obj"
    by auto
  obtain r d1 where upd: "RecipeSerializer_update u obj (req_data rq) d = (r, d1)"
    by (cases "RecipeSerializer_update u obj (req_data rq) d")
  have "handle d (detail_url RecipeViewSet pk) rq =
      (d1, \<lparr>status_code = HTTP_200_OK, res_data = recipe_detail r\<rparr>)"
    using assms(1,2) obj upd
    by (auto simp: handle_def resolve_def authenticated_dispatch handler_def
        RecipeViewSet_update_def is_valid_def)
  then show ?thesis
    using assms(6) obj upd by auto
qed

text \<open>
  C2. Upsert-or-create of nested tags and ingredients, for a payload that gives the list
  \<open>ns\<close> of tag names (or of ingredient names), on a database with unique primary keys
  and valid link rows. A POST of a valid recipe payload by user \<open>u\<close> is answered 201 with
  a new recipe, and a PATCH (or a valid PUT) of a recipe of \<open>u\<close> is answered 200 with
  that recipe. Either way, for every name of \<open>ns\<close>: if \<open>u\<close> already had rows of that
  name, one of them is linked to the recipe and no row of that name is added; if \<open>u\<close>
  had none, exactly one new row of that name, owned by \<open>u\<close>, exists and is linked to the
  recipe. Afterwards the recipe is linked to exactly one row for each distinct name of
  \<open>ns\<close>, and to no other.
\<close>

theorem nested_upsert:
  assumes "pk_unique d" and "fk_valid d" and "req_user rq = Some u"
    and "payload_names k (req_data rq) = Some ns"
    and "handle d url rq = (d', res)"
  shows "(url = list_url RecipeViewSet \<and> req_method rq = POST \<and>
          is_valid False (req_data rq) \<longrightarrow>
            status_code res = HTTP_201_CREATED \<and>
            (\<exists>r. res_data res = recipe_detail r \<and>
                 recipe_id r \<notin> recipe_id ` set (db_recipes d) \<and>
                 (\<forall>n \<in> set ns. upsert_of_name k u (recipe_id r) d d' n) \<and>
                 one_per_name k u ns (recipe_id r) d')) \<and>
         (\<forall>pk. url = detail_url RecipeViewSet pk \<and>
               (req_method rq = PUT \<and> is_valid False (req_data rq) \<or> req_method rq = PATCH) \<and>
               (\<exists>r \<in> set (db_recipes d). recipe_id r = pk \<and> recipe_user r = u) \<longrightarrow>
            status_code res = HTTP_200_OK \<and>
            (\<exists>r. res_data res = recipe_detail r \<and> recipe_id r = pk) \<and>
            (\<forall>n \<in> set ns. upsert_of_name k u pk d d' n) \<and>
            one_per_name k u ns pk d')"
proof -
  have created: "status_code res = HTTP_201_CREATED \<and>
      (\<exists>r. res_data res = recipe_detail r \<and>
           recipe_id r \<notin> recipe_id ` set (db_recipes d) \<and>
           (\<forall>n \<in> set ns. upsert_of_name k u (recipe_id r) d d' n) \<and>
           one_per_name k u ns (recipe_id r) d')"
    if a: "url = list_url RecipeViewSet \<and> req_method rq = POST \<and> is_valid False (req_data rq)"
  proof -
    have out: "status_code res = HTTP_201_CREATED \<and>
        (\<exists>r. res_data res = recipe_detail r \<and> RecipeSerializer_create u (req_data rq) d = (r, d'))"
      using recipe_create_outcome [OF assms(3), of d d' res] assms(5) a by simp
    then obtain r where r: "res_data res = recipe_detail r"
      and c: "RecipeSerializer_create u (req_data rq) d = (r, d')"
      by blast
    have fresh: "recipe_id r \<notin> recipe_id ` set (db_recipes d)"
      using create_row(4) [OF c] next_id_fresh [of "map recipe_id (db_recipes d)"] by simp
    show ?thesis
      using out r fresh create_upsert [OF assms(1,2,4) c] by blast
  qed
  have updated: "status_code res = HTTP_200_OK \<and>
      (\<exists>r. res_data res = recipe_detail r \<and> recipe_id r = pk) \<and>
      (\<forall>n \<in> set ns. upsert_of_name k u pk d d' n) \<and>
      one_per_name k u ns pk d'"
    if a: "url = detail_url RecipeViewSet pk \<and>
      (req_method rq = PUT \<and> is_valid False (req_data rq) \<or> req_method rq = PATCH) \<and>
      (\<exists>r \<in> set (db_recipes d). recipe_id r = pk \<and> recipe_user r = u)" for pk
  proof -
    obtain r0 where r0: "r0 \<in> set (db_recipes d)" "recipe_id r0 = pk" "recipe_user r0 = u"
      using a by blast
    have h: "handle d (detail_url RecipeViewSet pk) rq = (d', res)"
      using assms(5) a by simp
    have m: "req_method rq = PUT \<and> is_valid False (req_data rq) \<or> req_method rq = PATCH"
      using a by simp
    obtain obj r where s: "status_code res = HTTP_200_OK"
      and obj: "get_object recipe_id (RecipeViewSet_get_queryset d rq) pk = Some obj"
      and r: "res_data res = recipe_detail r"
      and upd: "RecipeSerializer_update u obj (req_data rq) d = (r, d')"
      using recipe_update_success [OF assms(3) m r0 h] by blast
    have id: "recipe_id obj = pk" "recipe_id r = recipe_id obj"
      using get_object_pk [OF obj] update_recipe_id [OF upd] by simp_all
    show ?thesis
      using s r id update_upsert [OF assms(1,4) upd] by simp
  qed
  show ?thesis
    using created updated by blast
qed

theorem nested_upsert_witness:
  "pk_unique existing_tag_db \<and> fk_valid existing_tag_db \<and>
   req_user create_with_tags_request = Some 1 \<and>
   req_method create_with_tags_request = POST \<and>
   is_valid False (req_data create_with_tags_request) \<and>
   payload_names TagKind (req_data create_with_tags_request) = Some [''Dinner'', ''Breakfast''] \<and>
   (\<exists>d' r. handle existing_tag_db (list_url RecipeViewSet) create_with_tags_request =
             (d', \<lparr>status_code = HTTP_201_CREATED, res_data = recipe_detail r\<rparr>) \<and>
           recipe_id r = 1 \<and>
           db_tags d' = [\<lparr>attr_id = 1, attr_user = 1, attr_name = ''Dinner''\<rparr>,
                         \<lparr>attr_id = 2, attr_user = 1, attr_name = ''Breakfast''\<rparr>] \<and>
           db_recipe_tags d' = [(1, 1), (1, 2)] \<and>
           upsert_of_name TagKind 1 1 existing_tag_db d' ''Dinner'' \<and>
           upsert_of_name TagKind 1 1 existing_tag_db d' ''Breakfast'' \<and>
           one_per_name TagKind 1 [''Dinner'', ''Breakfast''] 1 d') \<and>
   pk_unique assign_tag_db \<and> fk_valid assign_tag_db \<and>
   req_user update_with_tags_request = Some 1 \<and>
   req_method update_with_tags_request = PATCH \<and>
   payload_names TagKind (req_data update_with_tags_request) = Some [''Lunch'', ''Dinner''] \<and>
   create_recipe 1 1 ''Sample title'' \<in> set (db_recipes assign_tag_db) \<and>
   (\<exists>d' r. handle assign_tag_db (detail_url RecipeViewSet 1) update_with_tags_request =
             (d', \<lparr>status_code = HTTP_200_OK, res_data = recipe_detail r\<rparr>) \<and>
           recipe_id r = 1 \<and>
           db_tags d' = [\<lparr>attr_id = 1, attr_user = 1, attr_name = ''Breakfast''\<rparr>,
                         \<lparr>attr_id = 2, attr_user = 1, attr_name = ''Lunch''\<rparr>,
                         \<lparr>attr_id = 3, attr_user = 1, attr_name = ''Dinner''\<rparr>] \<and>
           db_recipe_tags d' = [(1, 2), (1, 3)] \<and>
           upsert_of_name TagKind 1 1 assign_tag_db d' ''Lunch'' \<and>
           upsert_of_name TagKind 1 1 assign_tag_db d' ''Dinner'' \<and>
           one_per_name TagKind 1 [''Lunch'', ''Dinner''] 1 d')"
proof -
  let ?r = "\<lparr>recipe_id = 1, recipe_user = 1, title = ''Dinner title'', time_minutes = 40,
             price = 5099 / 100, description = [], link = [], recipe_image = None\<rparr>"
  let ?d' = "\<lparr>db_recipes = [?r],
              db_tags = [\<lparr>attr_id = 1, attr_user = 1, attr_name = ''Dinner''\<rparr>,
                         \<lparr>attr_id = 2, attr_user = 1, attr_name = ''Breakfast''\<rparr>],
              db_ingredients = [], db_recipe_tags = [(1, 1), (1, 2)],
              db_recipe_ingredients = []\<rparr>"
  let ?e' = "\<lparr>db_recipes = [create_recipe 1 1 ''Sample title''],
              db_tags = [\<lparr>attr_id = 1, attr_user = 1, attr_name = ''Breakfast''\<rparr>,
                         \<lparr>attr_id = 2, attr_user = 1, attr_name = ''Lunch''\<rparr>,
                         \<lparr>attr_id = 3, attr_user = 1, attr_name = ''Dinner''\<rparr>],
              db_ingredients = [], db_recipe_tags = [(1, 2), (1, 3)],
              db_recipe_ingredients = []\<rparr>"
  have pk: "pk_unique existing_tag_db" and fk: "fk_valid existing_tag_db"
    by (simp_all add: pk_unique_def fk_valid_def existing_tag_db_def)
  have u: "req_user create_with_tags_request = Some 1"
    and m: "req_method create_with_tags_request = POST"
    and v: "is_valid False (req_data create_with_tags_request)"
    and ns: "payload_names TagKind (req_data create_with_tags_request) =
        Some [''Dinner'', ''Breakfast'']"
    by (simp_all add: create_with_tags_request_def empty_payload_def is_valid_def)
  have ev: "handle existing_tag_db (list_url RecipeViewSet) create_with_tags_request =
      (?d', \<lparr>status_code = HTTP_201_CREATED, res_data = recipe_detail ?r\<rparr>)"
    by (simp add: handle_def resolve_def dispatch_def check_permissions_def handler_def
        RecipeViewSet_create_def RecipeViewSet_perform_create_def RecipeSerializer_create_def
        is_valid_def apply_fields_def get_or_create_def add_link_def next_id_def Let_def
        create_with_tags_request_def existing_tag_db_def empty_payload_def)
  have c: "(\<forall>n \<in> set [''Dinner'', ''Breakfast''].
            upsert_of_name TagKind 1 1 existing_tag_db ?d' n) \<and>
        one_per_name TagKind 1 [''Dinner'', ''Breakfast''] 1 ?d'"
    using nested_upsert [OF pk fk u ns ev, THEN conjunct1] m v by simp
  have pk2: "pk_unique assign_tag_db" and fk2: "fk_valid assign_tag_db"
    by (simp_all add: pk_unique_def fk_valid_def assign_tag_db_def create_recipe_def)
  have u2: "req_user update_with_tags_request = Some 1"
    and m2: "req_method update_with_tags_request = PATCH"
    and ns2: "payload_names TagKind (req_data update_with_tags_request) =
        Some [''Lunch'', ''Dinner'']"
    by (simp_all add: update_with_tags_request_def empty_payload_def)
  have own: "create_recipe 1 1 ''Sample title'' \<in> set (db_recipes assign_tag_db)"
    by (simp add: assign_tag_db_def)
  have ex: "\<exists>r \<in> set (db_recipes assign_tag_db). recipe_id r = 1 \<and> recipe_user r = 1"
    by (simp add: assign_tag_db_def create_recipe_def)
  have ev2: "handle assign_tag_db (detail_url RecipeViewSet 1) update_with_tags_request =
      (?e', \<lparr>status_code = HTTP_200_OK,
             res_data = recipe_detail (create_recipe 1 1 ''Sample title'')\<rparr>)"
    by (simp add: handle_def resolve_def dispatch_def check_permissions_def handler_def
        RecipeViewSet_update_def RecipeViewSet_get_queryset_def order_by_desc_def get_object_def
        RecipeSerializer_update_def assign_attrs_def clear_links_def save_recipe_def
        is_valid_def apply_fields_def get_or_create_def add_link_def next_id_def Let_def
        update_with_tags_request_def assign_tag_db_def empty_payload_def create_recipe_def)
  have c2: "(\<forall>n \<in> set [''Lunch'', ''Dinner''].
            upsert_of_name TagKind 1 1 assign_tag_db ?e' n) \<and>
        one_per_name TagKind 1 [''Lunch'', ''Dinner''] 1 ?e'"
    using nested_upsert [OF pk2 fk2 u2 ns2 ev2, THEN conjunct2, THEN spec, of 1] m2 ex
    by simp
  have ids: "recipe_id (create_recipe 1 1 ''Sample title'') = 1"
    by (simp add: create_recipe_def)
  show ?thesis
    using pk fk u m v ns ev c pk2 fk2 u2 m2 ns2 own ev2 c2 ids by simp
qed

section \<open>Replacement of the assignment on update\<close>

text \<open>
  C3. Assignment replacement on update. A recipe update (PUT, PATCH) that succeeds and
  whose payload gives the list \<open>ns\<close> of tag names (or of ingredient names), on a
  database with unique primary keys: afterwards the names of the recipe's tags (or
  ingredients) are exactly the names of \<open>ns\<close>, one row for each; a row that was
  assigned before and whose name is not in \<open>ns\<close> is assigned no more; and the empty
  list leaves the recipe with no tag (or ingredient) at all.
\<close>

theorem assignment_replaced:
  assumes "pk_unique d" and "req_user rq = Some u"
    and "req_method rq = PUT \<or> req_method rq = PATCH"
    and "payload_names k (req_data rq) = Some ns"
    and "handle d (detail_url RecipeViewSet pk) rq = (d', res)"
    and "status_code res = HTTP_200_OK"
  shows "set (map attr_name (linked k pk d')) = set ns \<and>
         distinct (map attr_name (linked k pk d')) \<and>
         (\<forall>a \<in> set (linked k pk d). attr_name a \<notin> set ns \<longrightarrow> a \<notin> set (linked k pk d')) \<and>
         (ns = [] \<longrightarrow> linked k pk d' = [])"
proof -
  obtain obj r where obj: "get_object recipe_id (RecipeViewSet_get_queryset d rq) pk = Some obj"
    and upd: "RecipeSerializer_update u obj (req_data rq) d = (r, d')"
    using recipe_update_outcome [OF assms(2,3,5)] assms(6) by auto
  have "recipe_id obj = pk"
    using obj by (rule get_object_pk)
  then have one: "one_per_name k u ns pk d'"
    using update_upsert [OF assms(1,4) upd] by simp
  then have names: "set (map attr_name (linked k pk d')) = set ns"
    and dist: "distinct (map attr_name (linked k pk d'))"
    by (simp_all add: one_per_name_def)
  have gone: "a \<notin> set (linked k pk d')" if "attr_name a \<notin> set ns" for a
    using names that by auto
  have "linked k pk d' = []" if "ns = []"
    using names that by simp
  then show ?thesis
    using names dist gone by blast
qed

theorem assignment_replaced_witness:
  "pk_unique assign_tag_db \<and> req_user assign_tag_request = Some 1 \<and>
   req_method assign_tag_request = PATCH \<and>
   payload_names TagKind (req_data assign_tag_request) = Some [''Lunch''] \<and>
   linked TagKind 1 assign_tag_db = [\<lparr>attr_id = 1, attr_user = 1, attr_name = ''Breakfast''\<rparr>] \<and>
   (\<exists>d' r. handle assign_tag_db (detail_url RecipeViewSet 1) assign_tag_request =
             (d', \<lparr>status_code = HTTP_200_OK, res_data = recipe_detail r\<rparr>) \<and>
           linked TagKind 1 d' = [\<lparr>attr_id = 2, attr_user = 1, attr_name = ''Lunch''\<rparr>] \<and>
           set (map attr_name (linked TagKind 1 d')) = set [''Lunch''] \<and>
           \<lparr>attr_id = 1, attr_user = 1, attr_name = ''Breakfast''\<rparr> \<notin> set (linked TagKind 1 d'))"
proof -
  let ?d' = "assign_tag_db\<lparr>db_recipe_tags := [(1, 2)]\<rparr>"
  have pk: "pk_unique assign_tag_db"
    by (simp add: pk_unique_def assign_tag_db_def create_recipe_def)
  have u: "req_user assign_tag_request = Some 1"
    and m: "req_method assign_tag_request = PATCH"
    and ns: "payload_names TagKind (req_data assign_tag_request) = Some [''Lunch'']"
    by (simp_all add: assign_tag_request_def empty_payload_def)
  have before: "linked TagKind 1 assign_tag_db =
      [\<lparr>attr_id = 1, attr_user = 1, attr_name = ''Breakfast''\<rparr>]"
    by (simp add: linked_def assign_tag_db_def)
  have ev: "handle assign_tag_db (detail_url RecipeViewSet 1) assign_tag_request =
      (?d', \<lparr>status_code = HTTP_200_OK, res_data = recipe_detail (create_recipe 1 1 ''Sample title'')\<rparr>)"
    by (simp add: handle_def resolve_def dispatch_def check_permissions_def handler_def
        RecipeViewSet_update_def RecipeViewSet_get_queryset_def order_by_desc_def get_object_def
        RecipeSerializer_update_def assign_attrs_def clear_links_def save_recipe_def
        is_valid_def apply_fields_def get_or_create_def add_link_def Let_def
        assign_tag_request_def assign_tag_db_def empty_payload_def create_recipe_def)
  have after: "linked TagKind 1 ?d' = [\<lparr>attr_id = 2, attr_user = 1, attr_name = ''Lunch''\<rparr>]"
    by (simp add: linked_def assign_tag_db_def)
  have "set (map attr_name (linked TagKind 1 ?d')) = set [''Lunch''] \<and>
      (\<forall>a \<in> set (linked TagKind 1 assign_tag_db).
          attr_name a \<notin> set [''Lunch''] \<longrightarrow> a \<notin> set (linked TagKind 1 ?d'))"
    using assignment_replaced [OF pk u _ ns ev] m by simp
  then show ?thesis
    using pk u m ns before ev after by simp
qed

section \<open>Create, retrieve and delete\<close>

lemma find_unique:
  "x \<in> set xs \<Longrightarrow> \<forall>y \<in> set xs. f y = f x \<longrightarrow> y = x \<Longrightarrow> find (\<lambda>y. f y = f x) xs = Some x"
  by (induction xs) auto

lemma retrieve_created:
  assumes "db_recipes d' = db_recipes d @ [r]"
    and "recipe_id r = next_id (map recipe_id (db_recipes d))"
    and "req_user rq' = Some (recipe_user r)" and "req_method rq' = GET"
  shows "handle d' (detail_url RecipeViewSet (recipe_id r)) rq' =
           (d', \<lparr>status_code = HTTP_200_OK, res_data = recipe_detail r\<rparr>)"
proof -
  let ?qs = "RecipeViewSet_get_queryset d' rq'"
  have mem: "r \<in> set ?qs"
    using assms(1,3) by (simp add: RecipeViewSet_get_queryset_def)
  have "y = r" if "y \<in> set ?qs" "recipe_id y = recipe_id r" for y
  proof (rule ccontr)
    assume "y \<noteq> r"
    then have "y \<in> set (db_recipes d)"
      using that(1) assms(1) by (auto simp: RecipeViewSet_get_queryset_def split: if_splits)
    then have "recipe_id y < next_id (map recipe_id (db_recipes d))"
      by (intro next_id_gt) simp
    then show False
      using that(2) assms(2) by simp
  qed
  then have "get_object recipe_id ?qs (recipe_id r) = Some r"
    unfolding get_object_def using mem by (intro find_unique) auto
  then show ?thesis
    using assms(3,4)
    by (simp add: handle_def resolve_def authenticated_dispatch handler_def
        RecipeViewSet_retrieve_def)
qed

lemma destroy_own:
  assumes "req_user rq = Some u" and "req_method rq = DELETE"
    and "r \<in> set (db_recipes d)" and "recipe_id r = pk" and "recipe_user r = u"
  shows "handle d (detail_url RecipeViewSet pk) rq =
           (delete_recipe pk d, error_response HTTP_204_NO_CONTENT)"
proof -
  have "get_object recipe_id (RecipeViewSet_get_queryset d rq) pk \<noteq> None"
    using assms(1,3,4,5) by (auto simp: RecipeViewSet_get_queryset_def get_object_None)
  then obtain obj where obj: "get_object recipe_id (RecipeViewSet_get_queryset d rq) pk = Some obj"
    by auto
  have "recipe_id obj = pk"
    using obj by (rule get_object_pk)
  then show ?thesis
    using assms(1,2) obj
    by (simp add: handle_def resolve_def authenticated_dispatch handler_def
        RecipeViewSet_destroy_def)
qed

lemma deleted_gone:
  assumes "req_user rq' = Some v" and "req_method rq' = GET"
  shows "handle (delete_recipe pk d) (detail_url RecipeViewSet pk) rq' =
           (delete_recipe pk d, error_response HTTP_404_NOT_FOUND)"
    and "\<exists>rs. handle (delete_recipe pk d) (list_url RecipeViewSet) rq' =
           (delete_recipe pk d, \<lparr>status_code = HTTP_200_OK, res_data = recipe_list rs\<rparr>) \<and>
           pk \<notin> recipe_id ` set rs"
proof -
  have "get_object recipe_id (RecipeViewSet_get_queryset (delete_recipe pk d) rq') pk = None"
    by (auto simp: RecipeViewSet_get_queryset_def get_object_None delete_recipe_def)
  then show "handle (delete_recipe pk d) (detail_url RecipeViewSet pk) rq' =
           (delete_recipe pk d, error_response HTTP_404_NOT_FOUND)"
    using assms
    by (simp add: handle_def resolve_def authenticated_dispatch handler_def
        RecipeViewSet_retrieve_def)
  have "pk \<notin> recipe_id ` set (RecipeViewSet_get_queryset (delete_recipe pk d) rq')"
    by (auto simp: RecipeViewSet_get_queryset_def delete_recipe_def)
  then show "\<exists>rs. handle (delete_recipe pk d) (list_url RecipeViewSet) rq' =
           (delete_recipe pk d, \<lparr>status_code = HTTP_200_OK, res_data = recipe_list rs\<rparr>) \<and>
           pk \<notin> recipe_id ` set rs"
    using assms
    by (simp add: handle_def resolve_def authenticated_dispatch handler_def
        RecipeViewSet_list_def)
qed

text \<open>
  C7. CRUD round trip. A POST of a valid recipe payload by user \<open>u\<close> is answered 201
  with a recipe that has the payload's field values and \<open>u\<close> as its owner, and a
  following GET of that recipe's detail by \<open>u\<close> returns the same recipe. A DELETE of
  a recipe of \<open>u\<close> is answered 204; afterwards the table has no row with that primary
  key, a GET of its detail by any user is answered 404, and no list holds it.
\<close>

theorem crud_round_trip:
  assumes "req_user rq = Some u" and "handle d url rq = (d', res)"
  shows "(url = list_url RecipeViewSet \<and> req_method rq = POST \<and> is_valid False (req_data rq) \<longrightarrow>
            status_code res = HTTP_201_CREATED \<and>
            (\<exists>r. res_data res = recipe_detail r \<and> recipe_user r = u \<and>
                  has_fields (req_data rq) r \<and>
                  (\<forall>rq'. req_user rq' = Some u \<and> req_method rq' = GET \<longrightarrow>
                     handle d' (detail_url RecipeViewSet (recipe_id r)) rq' =
                       (d', \<lparr>status_code = HTTP_200_OK, res_data = recipe_detail r\<rparr>)))) \<and>
         (\<forall>pk. url = detail_url RecipeViewSet pk \<and> req_method rq = DELETE \<and>
                (\<exists>r \<in> set (db_recipes d). recipe_id r = pk \<and> recipe_user r = u) \<longrightarrow>
            status_code res = HTTP_204_NO_CONTENT \<and>
            pk \<notin> recipe_id ` set (db_recipes d') \<and>
            (\<forall>rq' v. req_user rq' = Some v \<and> req_method rq' = GET \<longrightarrow>
               handle d' (detail_url RecipeViewSet pk) rq' =
                 (d', \<lparr>status_code = HTTP_404_NOT_FOUND, res_data = no_content\<rparr>) \<and>
               (\<exists>rs. handle d' (list_url RecipeViewSet) rq' =
                        (d', \<lparr>status_code = HTTP_200_OK, res_data = recipe_list rs\<rparr>) \<and>
                      pk \<notin> recipe_id ` set rs)))"
proof -
  have created: "status_code res = HTTP_201_CREATED \<and>
      (\<exists>r. res_data res = recipe_detail r \<and> recipe_user r = u \<and>
            has_fields (req_data rq) r \<and>
            (\<forall>rq'. req_user rq' = Some u \<and> req_method rq' = GET \<longrightarrow>
               handle d' (detail_url RecipeViewSet (recipe_id r)) rq' =
                 (d', \<lparr>status_code = HTTP_200_OK, res_data = recipe_detail r\<rparr>)))"
    if a: "url = list_url RecipeViewSet \<and> req_method rq = POST \<and> is_valid False (req_data rq)"
  proof -
    have out: "status_code res = HTTP_201_CREATED \<and>
        (\<exists>r. res_data res = recipe_detail r \<and> RecipeSerializer_create u (req_data rq) d = (r, d'))"
      using recipe_create_outcome [OF assms(1), of d d' res] assms(2) a by simp
    then obtain r where r: "res_data res = recipe_detail r"
      and c: "RecipeSerializer_create u (req_data rq) d = (r, d')"
      by blast
    have "handle d' (detail_url RecipeViewSet (recipe_id r)) rq' =
        (d', \<lparr>status_code = HTTP_200_OK, res_data = recipe_detail r\<rparr>)"
      if "req_user rq' = Some u \<and> req_method rq' = GET" for rq'
      using retrieve_created [OF create_row(3,4) [OF c], of rq'] create_row(1) [OF c] that
      by simp
    then show ?thesis
      using out r create_row(1,2) [OF c] by blast
  qed
  have deleted: "status_code res = HTTP_204_NO_CONTENT \<and>
      pk \<notin> recipe_id ` set (db_recipes d') \<and>
      (\<forall>rq' v. req_user rq' = Some v \<and> req_method rq' = GET \<longrightarrow>
         handle d' (detail_url RecipeViewSet pk) rq' =
           (d', \<lparr>status_code = HTTP_404_NOT_FOUND, res_data = no_content\<rparr>) \<and>
         (\<exists>rs. handle d' (list_url RecipeViewSet) rq' =
                  (d', \<lparr>status_code = HTTP_200_OK, res_data = recipe_list rs\<rparr>) \<and>
                pk \<notin> recipe_id ` set rs))"
    if a: "url = detail_url RecipeViewSet pk \<and> req_method rq = DELETE \<and>
      (\<exists>r \<in> set (db_recipes d). recipe_id r = pk \<and> recipe_user r = u)" for pk
  proof -
    obtain r where r: "r \<in> set (db_recipes d)" "recipe_id r = pk" "recipe_user r = u"
      using a by blast
    have del: "d' = delete_recipe pk d" "res = error_response HTTP_204_NO_CONTENT"
      using destroy_own [OF assms(1) _ r] a assms(2) by simp_all
    have s: "status_code res = HTTP_204_NO_CONTENT"
      by (simp add: del error_response_def)
    have g: "pk \<notin> recipe_id ` set (db_recipes d')"
      by (auto simp: del delete_recipe_def)
    have "handle d' (detail_url RecipeViewSet pk) rq' =
          (d', \<lparr>status_code = HTTP_404_NOT_FOUND, res_data = no_content\<rparr>) \<and>
        (\<exists>rs. handle d' (list_url RecipeViewSet) rq' =
                 (d', \<lparr>status_code = HTTP_200_OK, res_data = recipe_list rs\<rparr>) \<and>
               pk \<notin> recipe_id ` set rs)"
      if "req_user rq' = Some v \<and> req_method rq' = GET" for rq' v
      using deleted_gone [of rq' v pk d] that by (simp add: del(1) error_response_def)
    then show ?thesis
      using s g by blast
  qed
  show ?thesis
    using created deleted by blast
qed

theorem crud_round_trip_witness:
  "req_user create_request = Some 1 \<and> req_method create_request = POST \<and>
   is_valid False (req_data create_request) \<and>
   (\<exists>d'. handle upload_image_db (list_url RecipeViewSet) create_request =
      (d', \<lparr>status_code = HTTP_201_CREATED,
            res_data = recipe_detail
              \<lparr>recipe_id = 2, recipe_user = 1, title = ''Sample Recipe'', time_minutes = 30,
               price = 1099 / 100, description = [], link = [], recipe_image = None\<rparr>\<rparr>) \<and>
      handle d' (detail_url RecipeViewSet 2) list_request =
      (d', \<lparr>status_code = HTTP_200_OK,
            res_data = recipe_detail
              \<lparr>recipe_id = 2, recipe_user = 1, title = ''Sample Recipe'', time_minutes = 30,
               price = 1099 / 100, description = [], link = [], recipe_image = None\<rparr>\<rparr>)) \<and>
   req_user delete_request = Some 1 \<and> req_method delete_request = DELETE \<and>
   create_recipe 1 1 ''Sample title'' \<in> set (db_recipes upload_image_db) \<and>
   (\<exists>d'. handle upload_image_db (detail_url RecipeViewSet 1) delete_request =
      (d', \<lparr>status_code = HTTP_204_NO_CONTENT, res_data = no_content\<rparr>) \<and>
      db_recipes d' = [] \<and>
      handle d' (detail_url RecipeViewSet 1) list_request =
      (d', \<lparr>status_code = HTTP_404_NOT_FOUND, res_data = no_content\<rparr>))"
proof -
  let ?r = "\<lparr>recipe_id = 2, recipe_user = 1, title = ''Sample Recipe'', time_minutes = 30,
             price = 1099 / 100, description = [], link = [], recipe_image = None\<rparr>"
  let ?d1 = "upload_image_db\<lparr>db_recipes := [create_recipe 1 1 ''Sample title'', ?r]\<rparr>"
  let ?d2 = "upload_image_db\<lparr>db_recipes := []\<rparr>"
  have u: "req_user create_request = Some 1" and m: "req_method create_request = POST"
    and v: "is_valid False (req_data create_request)"
    by (simp_all add: create_request_def is_valid_def empty_payload_def)
  have u2: "req_user delete_request = Some 1" and m2: "req_method delete_request = DELETE"
    by (simp_all add: delete_request_def)
  have u3: "req_user list_request = Some 1" and m3: "req_method list_request = GET"
    by (simp_all add: list_request_def)
  have own: "create_recipe 1 1 ''Sample title'' \<in> set (db_recipes upload_image_db)"
    by (simp add: upload_image_db_def)
  have ev1: "handle upload_image_db (list_url RecipeViewSet) create_request =
      (?d1, \<lparr>status_code = HTTP_201_CREATED, res_data = recipe_detail ?r\<rparr>)"
    by (simp add: handle_def resolve_def dispatch_def check_permissions_def handler_def
        RecipeViewSet_create_def RecipeViewSet_perform_create_def RecipeSerializer_create_def
        is_valid_def apply_fields_def next_id_def Let_def
        create_request_def upload_image_db_def empty_payload_def create_recipe_def)
  have ev2: "handle upload_image_db (detail_url RecipeViewSet 1) delete_request =
      (?d2, \<lparr>status_code = HTTP_204_NO_CONTENT, res_data = no_content\<rparr>)"
    by (simp add: handle_def resolve_def dispatch_def check_permissions_def handler_def
        RecipeViewSet_destroy_def RecipeViewSet_get_queryset_def order_by_desc_def
        get_object_def delete_recipe_def error_response_def
        delete_request_def upload_image_db_def create_recipe_def)
  have r1: "handle ?d1 (detail_url RecipeViewSet 2) list_request =
      (?d1, \<lparr>status_code = HTTP_200_OK, res_data = recipe_detail ?r\<rparr>)"
    using crud_round_trip [OF u ev1] m v u3 m3 by auto
  have r2: "handle ?d2 (detail_url RecipeViewSet 1) list_request =
      (?d2, \<lparr>status_code = HTTP_404_NOT_FOUND, res_data = no_content\<rparr>)"
  proof -
    have ex: "\<exists>r \<in> set (db_recipes upload_image_db). recipe_id r = 1 \<and> recipe_user r = 1"
      by (simp add: upload_image_db_def create_recipe_def)
    have "\<forall>rq' v. req_user rq' = Some v \<and> req_method rq' = GET \<longrightarrow>
        handle ?d2 (detail_url RecipeViewSet 1) rq' =
          (?d2, \<lparr>status_code = HTTP_404_NOT_FOUND, res_data = no_content\<rparr>) \<and>
        (\<exists>rs. handle ?d2 (list_url RecipeViewSet) rq' =
                 (?d2, \<lparr>status_code = HTTP_200_OK, res_data = recipe_list rs\<rparr>) \<and>
               1 \<notin> recipe_id ` set rs)"
      using crud_round_trip [OF u2 ev2, THEN conjunct2, THEN spec, of 1] m2 ex by simp
    then show ?thesis
      using u3 m3 by blast
  qed
  show ?thesis
    using u m v u2 m2 own ev1 ev2 r1 r2 by simp
qed

section \<open>The outcome of a request\<close>

lemma handle_outcome:
  assumes "req_user rq = Some u" and "handle d url rq = (d', res)"
  shows "d' = d \<or> (\<exists>vs a. handler vs a u d rq = (d', res))"
  using assms
  by (auto simp: handle_def authenticated_dispatch split: option.splits if_splits)

lemma update_rows:
  assumes "RecipeSerializer_update u obj p d = (r, d')"
  shows "r = apply_fields p obj"
    and "db_recipes d' =
           map (\<lambda>x. if recipe_id x = recipe_id obj then apply_fields p obj else x) (db_recipes d)"
  using assms by (auto simp: RecipeSerializer_update_def Let_def save_recipe_def)

section \<open>The constraints of the database are kept\<close>

lemma get_or_create_attrs_links_fst:
  "fst ` set (links_of k' (get_or_create_attrs k u ns rid d)) \<subseteq> insert rid (fst ` set (links_of k' d))"
proof (induction ns arbitrary: d)
  case Nil
  show ?case by auto
next
  case (Cons n ns)
  obtain a d1 where g: "get_or_create k u n d = (a, d1)" by (cases "get_or_create k u n d")
  let ?d2 = "put_links k (add_link (rid, attr_id a) (links_of k d1)) d1"
  have l1: "links_of k' d1 = links_of k' d" for k'
    using get_or_create_links [of k' k u n d] g by simp
  have step: "fst ` set (links_of k' ?d2) \<subseteq> insert rid (fst ` set (links_of k' d))"
    by (auto simp: l1 add_link_def split: if_splits)
  have ih: "fst ` set (links_of k' (get_or_create_attrs k u ns rid ?d2)) \<subseteq>
      insert rid (fst ` set (links_of k' ?d2))"
    by (rule Cons.IH)
  have "fst ` set (links_of k' (get_or_create_attrs k u ns rid ?d2)) \<subseteq>
      insert rid (insert rid (fst ` set (links_of k' d)))"
    using ih insert_mono [OF step, of rid] by (rule subset_trans)
  moreover have "get_or_create_attrs k u (n # ns) rid d = get_or_create_attrs k u ns rid ?d2"
    using g by simp
  ultimately show ?case by simp
qed

lemma get_or_create_attrs_distinct:
  assumes "distinct (map attr_id (attrs_of k' d))"
  shows "distinct (map attr_id (attrs_of k' (get_or_create_attrs k u ns rid d)))"
proof (cases "k' = k")
  case True
  then show ?thesis
    using get_or_create_attrs_spec [of k d u ns rid] assms by auto
next
  case False
  then show ?thesis
    using get_or_create_attrs_other_kind [of k' k u ns rid d] assms by simp
qed

lemma assign_attrs_distinct:
  assumes "distinct (map attr_id (attrs_of k' d))"
  shows "distinct (map attr_id (attrs_of k' (assign_attrs k u x rid d)))"
  using assms by (cases x) (simp_all add: assign_attrs_def get_or_create_attrs_distinct)

lemma assign_attrs_links_fst:
  "fst ` set (links_of k' (assign_attrs k u x rid d)) \<subseteq> insert rid (fst ` set (links_of k' d))"
proof (cases x)
  case None
  then show ?thesis by (auto simp: assign_attrs_def)
next
  case (Some ns)
  have cl: "fst ` set (links_of k' (clear_links k rid d)) \<subseteq> fst ` set (links_of k' d)"
    by (auto simp: links_of_clear_links)
  have "fst ` set (links_of k' (get_or_create_attrs k u ns rid (clear_links k rid d))) \<subseteq>
      insert rid (fst ` set (links_of k' (clear_links k rid d)))"
    by (rule get_or_create_attrs_links_fst)
  then have "fst ` set (links_of k' (get_or_create_attrs k u ns rid (clear_links k rid d))) \<subseteq>
      insert rid (fst ` set (links_of k' d))"
    using insert_mono [OF cl, of rid] by (rule subset_trans)
  then show ?thesis
    using Some by (simp add: assign_attrs_def)
qed

lemma wf_db_kinds:
  "wf_db d \<longleftrightarrow>
   distinct (map recipe_id (db_recipes d)) \<and>
   (\<forall>k. distinct (map attr_id (attrs_of k d)) \<and>
        fst ` set (links_of k d) \<subseteq> recipe_id ` set (db_recipes d))"
  by (auto simp: wf_db_def pk_unique_def fk_valid_def all_kinds)

lemma create_wf:
  assumes "wf_db d" and "RecipeSerializer_create u p d = (r, d')"
  shows "wf_db d'"
proof -
  let ?rid = "next_id (map recipe_id (db_recipes d))"
  let ?r = "apply_fields p
      \<lparr>recipe_id = ?rid, recipe_user = u, title = [], time_minutes = 0, price = 0,
       description = [], link = [], recipe_image = None\<rparr>"
  let ?d1 = "d\<lparr>db_recipes := db_recipes d @ [?r]\<rparr>"
  let ?ts = "case p_tags p of None \<Rightarrow> [] | Some ns \<Rightarrow> ns"
  let ?is = "case p_ingredients p of None \<Rightarrow> [] | Some ns \<Rightarrow> ns"
  let ?d2 = "get_or_create_attrs TagKind u ?ts ?rid ?d1"
  let ?d3 = "get_or_create_attrs IngredientKind u ?is ?rid ?d2"
  have d': "d' = ?d3"
    using assms(2) by (auto simp: RecipeSerializer_create_def Let_def)
  have rec: "db_recipes d' = db_recipes d @ [?r]"
    by (simp add: d')
  have r1: "distinct (map recipe_id (db_recipes d'))"
    using assms(1) next_id_fresh [of "map recipe_id (db_recipes d)"]
    by (simp add: rec wf_db_kinds)
  have a1: "distinct (map attr_id (attrs_of k d'))" for k
    unfolding d'
    using assms(1)
    by (intro get_or_create_attrs_distinct) (simp add: wf_db_kinds)
  have l1: "fst ` set (links_of k d') \<subseteq> recipe_id ` set (db_recipes d')" for k
  proof -
    have s2: "fst ` set (links_of k ?d2) \<subseteq> insert ?rid (fst ` set (links_of k ?d1))"
      by (rule get_or_create_attrs_links_fst)
    have s3: "fst ` set (links_of k ?d3) \<subseteq> insert ?rid (fst ` set (links_of k ?d2))"
      by (rule get_or_create_attrs_links_fst)
    have "fst ` set (links_of k ?d3) \<subseteq> insert ?rid (insert ?rid (fst ` set (links_of k ?d1)))"
      using s3 insert_mono [OF s2, of ?rid] by (rule subset_trans)
    then have a: "fst ` set (links_of k d') \<subseteq> insert ?rid (fst ` set (links_of k d))"
      by (simp add: d')
    have "fst ` set (links_of k d) \<subseteq> recipe_id ` set (db_recipes d)"
      using assms(1) by (simp add: wf_db_kinds)
    then have "insert ?rid (fst ` set (links_of k d)) \<subseteq>
        insert ?rid (recipe_id ` set (db_recipes d))"
      by (rule insert_mono)
    also have "insert ?rid (recipe_id ` set (db_recipes d)) = recipe_id ` set (db_recipes d')"
      by (simp add: rec)
    finally show ?thesis
      using a by (rule subset_trans [rotated])
  qed
  show ?thesis
    using r1 a1 l1 by (simp add: wf_db_kinds)
qed

lemma update_wf:
  assumes "wf_db d" and "obj \<in> set (db_recipes d)"
    and "RecipeSerializer_update u obj p d = (r, d')"
  shows "wf_db d'"
proof -
  let ?rid = "recipe_id obj"
  let ?d1 = "assign_attrs TagKind u (p_tags p) ?rid d"
  let ?d2 = "assign_attrs IngredientKind u (p_ingredients p) ?rid ?d1"
  have d': "d' = save_recipe (apply_fields p obj) ?d2"
    using assms(3) by (auto simp: RecipeSerializer_update_def Let_def)
  have ids: "map recipe_id (db_recipes d') = map recipe_id (db_recipes d)"
    by (simp add: d' save_recipe_def comp_def if_distrib [of recipe_id] cong: if_cong)
  have r1: "distinct (map recipe_id (db_recipes d'))"
    using assms(1) by (simp add: ids wf_db_kinds)
  have a1: "distinct (map attr_id (attrs_of k d'))" for k
    using assms(1) by (simp add: d' save_recipe_def assign_attrs_distinct wf_db_kinds)
  have img: "recipe_id ` set (db_recipes d') = recipe_id ` set (db_recipes d)"
  proof -
    have "set (map recipe_id (db_recipes d')) = set (map recipe_id (db_recipes d))"
      by (simp only: ids)
    then show ?thesis by simp
  qed
  have l1: "fst ` set (links_of k d') \<subseteq> recipe_id ` set (db_recipes d')" for k
  proof -
    have s1: "fst ` set (links_of k ?d1) \<subseteq> insert ?rid (fst ` set (links_of k d))"
      by (rule assign_attrs_links_fst)
    have s2: "fst ` set (links_of k ?d2) \<subseteq> insert ?rid (fst ` set (links_of k ?d1))"
      by (rule assign_attrs_links_fst)
    have "fst ` set (links_of k ?d2) \<subseteq> insert ?rid (insert ?rid (fst ` set (links_of k d)))"
      using s2 insert_mono [OF s1, of ?rid] by (rule subset_trans)
    then have a: "fst ` set (links_of k d') \<subseteq> insert ?rid (fst ` set (links_of k d))"
      by (simp add: d' save_recipe_def)
    have "fst ` set (links_of k d) \<subseteq> recipe_id ` set (db_recipes d)"
      using assms(1) by (simp add: wf_db_kinds)
    moreover have "?rid \<in> recipe_id ` set (db_recipes d)"
      using assms(2) by simp
    ultimately have "insert ?rid (fst ` set (links_of k d)) \<subseteq> recipe_id ` set (db_recipes d)"
      by simp
    then show ?thesis
      using a unfolding img by (rule subset_trans [rotated])
  qed
  show ?thesis
    using r1 a1 l1 by (simp add: wf_db_kinds)
qed

lemma delete_recipe_wf: "wf_db d \<Longrightarrow> wf_db (delete_recipe pk d)"
  by (auto simp: wf_db_def pk_unique_def fk_valid_def delete_recipe_def distinct_map_filter
      image_iff)

lemma attr_update_wf:
  assumes "wf_db d" and "AttrSerializer_update k obj p d = (a, d')"
  shows "wf_db d'"
proof -
  let ?a = "obj\<lparr>attr_name := (case p_name p of None \<Rightarrow> attr_name obj | Some v \<Rightarrow> v)\<rparr>"
  have d': "d' = put_attrs k (map (\<lambda>x. if attr_id x = attr_id obj then ?a else x) (attrs_of k d)) d"
    using assms(2) by (auto simp: AttrSerializer_update_def Let_def)
  have "map attr_id (map (\<lambda>x. if attr_id x = attr_id obj then ?a else x) (attrs_of k d)) =
      map attr_id (attrs_of k d)"
    by (simp add: comp_def if_distrib [of attr_id] cong: if_cong)
  then have "distinct (map attr_id (attrs_of k' d'))" for k'
    using assms(1) by (simp add: d' wf_db_kinds del: map_map)
  then show ?thesis
    using assms(1) by (simp add: wf_db_kinds d')
qed

lemma delete_attr_wf: "wf_db d \<Longrightarrow> wf_db (delete_attr k pk d)"
proof -
  assume wf: "wf_db d"
  have "distinct (map attr_id (attrs_of k' (delete_attr k pk d)))" for k'
    using wf by (simp add: delete_attr_def wf_db_kinds distinct_map_filter)
  moreover have "fst ` set (links_of k' (delete_attr k pk d)) \<subseteq>
      recipe_id ` set (db_recipes (delete_attr k pk d))" for k'
    using wf by (auto simp: delete_attr_def wf_db_kinds)
  moreover have "distinct (map recipe_id (db_recipes (delete_attr k pk d)))"
    using wf by (simp add: delete_attr_def wf_db_kinds)
  ultimately show ?thesis
    by (simp add: wf_db_kinds)
qed

lemma recipe_create_wf:
  assumes "wf_db d" and "RecipeViewSet_create u d rq = (d', res)"
  shows "wf_db d'"
proof (cases "is_valid False (req_data rq)")
  case False
  then have "d' = d" using assms(2) by (simp add: RecipeViewSet_create_def)
  then show ?thesis using assms(1) by simp
next
  case True
  obtain r d1 where c: "RecipeSerializer_create u (req_data rq) d = (r, d1)"
    by (cases "RecipeSerializer_create u (req_data rq) d")
  then have "d' = d1"
    using assms(2) True by (simp add: RecipeViewSet_create_def RecipeViewSet_perform_create_def)
  then show ?thesis using create_wf [OF assms(1) c] by simp
qed

lemma recipe_update_wf:
  assumes "wf_db d" and "RecipeViewSet_update partial pk u d rq = (d', res)"
  shows "wf_db d'"
proof (cases "get_object recipe_id (RecipeViewSet_get_queryset d rq) pk")
  case None
  then have "d' = d" using assms(2) by (simp add: RecipeViewSet_update_def)
  then show ?thesis using assms(1) by simp
next
  case (Some obj)
  have mem: "obj \<in> set (db_recipes d)"
    using Some get_object_Some [of recipe_id recipe_id _ "db_recipes d" pk obj]
    by (simp add: RecipeViewSet_get_queryset_def)
  show ?thesis
  proof (cases "is_valid partial (req_data rq)")
    case False
    then have "d' = d" using assms(2) Some by (simp add: RecipeViewSet_update_def)
    then show ?thesis using assms(1) by simp
  next
    case True
    obtain r d1 where c: "RecipeSerializer_update u obj (req_data rq) d = (r, d1)"
      by (cases "RecipeSerializer_update u obj (req_data rq) d")
    then have "d' = d1"
      using assms(2) Some True by (simp add: RecipeViewSet_update_def)
    then show ?thesis using update_wf [OF assms(1) mem c] by simp
  qed
qed

lemma recipe_destroy_wf:
  assumes "wf_db d" and "RecipeViewSet_destroy pk d rq = (d', res)"
  shows "wf_db d'"
proof (cases "get_object recipe_id (RecipeViewSet_get_queryset d rq) pk")
  case None
  then have "d' = d" using assms(2) by (simp add: RecipeViewSet_destroy_def)
  then show ?thesis using assms(1) by simp
next
  case (Some obj)
  then have "d' = delete_recipe (recipe_id obj) d"
    using assms(2) by (simp add: RecipeViewSet_destroy_def)
  then show ?thesis using delete_recipe_wf [OF assms(1)] by simp
qed

lemma attr_update_view_wf:
  assumes "wf_db d" and "BaseRecipeAttrViewSet_update k partial pk d rq = (d', res)"
  shows "wf_db d'"
proof (cases "get_object attr_id (BaseRecipeAttrViewSet_get_queryset k d rq) pk")
  case None
  then have "d' = d" using assms(2) by (simp add: BaseRecipeAttrViewSet_update_def)
  then show ?thesis using assms(1) by simp
next
  case (Some obj)
  show ?thesis
  proof (cases "attr_is_valid partial (req_data rq)")
    case False
    then have "d' = d" using assms(2) Some by (simp add: BaseRecipeAttrViewSet_update_def)
    then show ?thesis using assms(1) by simp
  next
    case True
    obtain a d1 where c: "AttrSerializer_update k obj (req_data rq) d = (a, d1)"
      by (cases "AttrSerializer_update k obj (req_data rq) d")
    then have "d' = d1"
      using assms(2) Some True by (simp add: BaseRecipeAttrViewSet_update_def)
    then show ?thesis using attr_update_wf [OF assms(1) c] by simp
  qed
qed

lemma attr_destroy_wf:
  assumes "wf_db d" and "BaseRecipeAttrViewSet_destroy k pk d rq = (d', res)"
  shows "wf_db d'"
proof (cases "get_object attr_id (BaseRecipeAttrViewSet_get_queryset k d rq) pk")
  case None
  then have "d' = d" using assms(2) by (simp add: BaseRecipeAttrViewSet_destroy_def)
  then show ?thesis using assms(1) by simp
next
  case (Some obj)
  then have "d' = delete_attr k (attr_id obj) d"
    using assms(2) by (simp add: BaseRecipeAttrViewSet_destroy_def)
  then show ?thesis using delete_attr_wf [OF assms(1)] by simp
qed

lemma handler_wf:
  assumes "wf_db d" and "handler vs a u d rq = (d', res)"
  shows "wf_db d'"
proof (cases "vs = RecipeViewSet")
  case True
  show ?thesis
  proof (cases a)
    case list_action
    then have "d' = d" using assms(2) True by (simp add: handler_def RecipeViewSet_list_def)
    then show ?thesis using assms(1) by simp
  next
    case create_action
    then have "RecipeViewSet_create u d rq = (d', res)"
      using assms(2) True by (simp add: handler_def)
    then show ?thesis by (rule recipe_create_wf [OF assms(1)])
  next
    case (retrieve_action pk)
    then have "d' = d"
      using assms(2) True
      by (auto simp: handler_def RecipeViewSet_retrieve_def split: option.splits)
    then show ?thesis using assms(1) by simp
  next
    case (update_action pk)
    then have "RecipeViewSet_update False pk u d rq = (d', res)"
      using assms(2) True by (simp add: handler_def)
    then show ?thesis by (rule recipe_update_wf [OF assms(1)])
  next
    case (partial_update_action pk)
    then have "RecipeViewSet_update True pk u d rq = (d', res)"
      using assms(2) True by (simp add: handler_def)
    then show ?thesis by (rule recipe_update_wf [OF assms(1)])
  next
    case (destroy_action pk)
    then have "RecipeViewSet_destroy pk d rq = (d', res)"
      using assms(2) True by (simp add: handler_def)
    then show ?thesis by (rule recipe_destroy_wf [OF assms(1)])
  qed
next
  case False
  show ?thesis
  proof (cases a)
    case list_action
    then have "d' = d"
      using assms(2) False by (simp add: handler_def BaseRecipeAttrViewSet_list_def)
    then show ?thesis using assms(1) by simp
  next
    case create_action
    then have "d' = d" using assms(2) False by (simp add: handler_def)
    then show ?thesis using assms(1) by simp
  next
    case (retrieve_action pk)
    then have "d' = d" using assms(2) False by (simp add: handler_def)
    then show ?thesis using assms(1) by simp
  next
    case (update_action pk)
    then have "BaseRecipeAttrViewSet_update (attr_kind_of vs) False pk d rq = (d', res)"
      using assms(2) False by (simp add: handler_def)
    then show ?thesis by (rule attr_update_view_wf [OF assms(1)])
  next
    case (partial_update_action pk)
    then have "BaseRecipeAttrViewSet_update (attr_kind_of vs) True pk d rq = (d', res)"
      using assms(2) False by (simp add: handler_def)
    then show ?thesis by (rule attr_update_view_wf [OF assms(1)])
  next
    case (destroy_action pk)
    then have "BaseRecipeAttrViewSet_destroy (attr_kind_of vs) pk d rq = (d', res)"
      using assms(2) False by (simp add: handler_def)
    then show ?thesis by (rule attr_destroy_wf [OF assms(1)])
  qed
qed

text \<open>
  Unique primary keys and valid link rows, the hypotheses of the theorems above, hold
  after every request if they held before it.
\<close>

lemma constraints_kept:
  assumes "pk_unique d" and "fk_valid d" and "handle d url rq = (d', res)"
  shows "pk_unique d' \<and> fk_valid d'"
proof (cases "req_user rq")
  case None
  then have "d' = d"
    using assms(3) anonymous_denied [OF None]
    by (auto simp: handle_def split: option.splits)
  then show ?thesis using assms(1,2) by simp
next
  case (Some u)
  have wf: "wf_db d" using assms(1,2) by (simp add: wf_db_def)
  have "wf_db d'"
    using handle_outcome [OF Some assms(3)] handler_wf [OF wf] wf by auto
  then show ?thesis by (simp add: wf_db_def)
qed

section \<open>Links join rows of one owner\<close>

lemma kind_links_scoped_iff:
  "kind_links_scoped k d \<longleftrightarrow>
   (\<forall>l \<in> set (links_of k d). \<exists>r \<in> set (db_recipes d). \<exists>a \<in> set (attrs_of k d).
       recipe_id r = fst l \<and> attr_id a = snd l \<and> recipe_user r = attr_user a)"
  by (simp add: kind_links_scoped_def list_all_iff)

lemma links_scoped_kinds: "links_scoped d \<longleftrightarrow> (\<forall>k. kind_links_scoped k d)"
  by (simp add: links_scoped_def all_kinds)

lemma links_scoped_fk_valid: "links_scoped d \<Longrightarrow> fk_valid d"
  by (fastforce simp: links_scoped_def kind_links_scoped_iff fk_valid_def)

text \<open>
  A step that adds no link and keeps, for every link that stays, a recipe and a tag of
  the same primary keys and owners.
\<close>

lemma kind_links_scoped_step:
  assumes "kind_links_scoped k d"
    and "set (links_of k d') \<subseteq> set (links_of k d)"
    and "\<And>l r. l \<in> set (links_of k d') \<Longrightarrow> r \<in> set (db_recipes d) \<Longrightarrow> recipe_id r = fst l \<Longrightarrow>
           \<exists>r' \<in> set (db_recipes d'). recipe_id r' = recipe_id r \<and> recipe_user r' = recipe_user r"
    and "\<And>l a. l \<in> set (links_of k d') \<Longrightarrow> a \<in> set (attrs_of k d) \<Longrightarrow> attr_id a = snd l \<Longrightarrow>
           \<exists>a' \<in> set (attrs_of k d'). attr_id a' = attr_id a \<and> attr_user a' = attr_user a"
  shows "kind_links_scoped k d'"
  unfolding kind_links_scoped_iff
proof
  fix l assume l: "l \<in> set (links_of k d')"
  then have "l \<in> set (links_of k d)" using assms(2) by auto
  then obtain r a where ra: "r \<in> set (db_recipes d)" "a \<in> set (attrs_of k d)"
    "recipe_id r = fst l" "attr_id a = snd l" "recipe_user r = attr_user a"
    using assms(1) unfolding kind_links_scoped_iff by blast
  obtain r' where r': "r' \<in> set (db_recipes d')" "recipe_id r' = recipe_id r"
    "recipe_user r' = recipe_user r"
    using assms(3) [OF l ra(1,3)] by blast
  obtain a' where a': "a' \<in> set (attrs_of k d')" "attr_id a' = attr_id a"
    "attr_user a' = attr_user a"
    using assms(4) [OF l ra(2,4)] by blast
  show "\<exists>r \<in> set (db_recipes d'). \<exists>a \<in> set (attrs_of k d').
      recipe_id r = fst l \<and> attr_id a = snd l \<and> recipe_user r = attr_user a"
    using r' a' ra(3,4,5) by (intro bexI [of _ r'] bexI [of _ a']) simp_all
qed

lemma kind_links_scoped_grow:
  assumes "kind_links_scoped k d"
    and "links_of k d' = links_of k d"
    and "set (db_recipes d) \<subseteq> set (db_recipes d')"
    and "set (attrs_of k d) \<subseteq> set (attrs_of k d')"
  shows "kind_links_scoped k d'"
  using assms(1)
proof (rule kind_links_scoped_step)
  show "set (links_of k d') \<subseteq> set (links_of k d)" using assms(2) by simp
next
  fix l r assume "r \<in> set (db_recipes d)"
  then show "\<exists>r' \<in> set (db_recipes d'). recipe_id r' = recipe_id r \<and> recipe_user r' = recipe_user r"
    using assms(3) by auto
next
  fix l a assume "a \<in> set (attrs_of k d)"
  then show "\<exists>a' \<in> set (attrs_of k d'). attr_id a' = attr_id a \<and> attr_user a' = attr_user a"
    using assms(4) by auto
qed

lemma kind_links_scoped_add:
  assumes "kind_links_scoped k d"
    and "r \<in> set (db_recipes d)" and "a \<in> set (attrs_of k d)"
    and "recipe_user r = attr_user a"
  shows "kind_links_scoped k (put_links k (add_link (recipe_id r, attr_id a) (links_of k d)) d)"
  using assms
  by (auto simp: kind_links_scoped_iff add_link_def)

lemma kind_links_scoped_other_links:
  "k' \<noteq> k \<Longrightarrow> kind_links_scoped k' (put_links k ls d) = kind_links_scoped k' d"
  by (simp add: kind_links_scoped_iff)

lemma get_or_create_row:
  assumes "get_or_create k u n d = (a, d1)"
  shows "a \<in> set (attrs_of k d1)" and "attr_user a = u"
    and "set (attrs_of k d) \<subseteq> set (attrs_of k d1)"
    and "links_of k' d1 = links_of k' d" and "db_recipes d1 = db_recipes d"
proof -
  let ?M = "\<lambda>a. attr_user a = u \<and> attr_name a = n"
  show "a \<in> set (attrs_of k d1)" "attr_user a = u" "set (attrs_of k d) \<subseteq> set (attrs_of k d1)"
  proof (atomize (full), cases "find ?M (attrs_of k d)")
    case None
    then show "a \<in> set (attrs_of k d1) \<and> attr_user a = u \<and>
        set (attrs_of k d) \<subseteq> set (attrs_of k d1)"
      using assms get_or_create_made [OF None] by auto
  next
    case (Some b)
    then show "a \<in> set (attrs_of k d1) \<and> attr_user a = u \<and>
        set (attrs_of k d) \<subseteq> set (attrs_of k d1)"
      using assms get_or_create_found [OF Some] find_Some_holds [OF Some] by auto
  qed
  show "links_of k' d1 = links_of k' d"
    using get_or_create_links [of k' k u n d] assms by simp
  show "db_recipes d1 = db_recipes d"
    using get_or_create_recipes [of k u n d] assms by simp
qed

lemma get_or_create_attrs_scoped:
  assumes "kind_links_scoped k d" and "r \<in> set (db_recipes d)" and "recipe_user r = u"
  shows "kind_links_scoped k (get_or_create_attrs k u ns (recipe_id r) d)"
  using assms
proof (induction ns arbitrary: d)
  case Nil
  then show ?case by simp
next
  case (Cons n ns)
  obtain a d1 where g: "get_or_create k u n d = (a, d1)" by (cases "get_or_create k u n d")
  note row = get_or_create_row [OF g]
  let ?d2 = "put_links k (add_link (recipe_id r, attr_id a) (links_of k d1)) d1"
  have s1: "kind_links_scoped k d1"
    using Cons.prems(1) row(3) row(4) [of k] row(5)
    by (intro kind_links_scoped_grow [of k d d1]) simp_all
  have r1: "r \<in> set (db_recipes d1)"
    using Cons.prems(2) row(5) by simp
  have s2: "kind_links_scoped k ?d2"
    using s1 r1 row(1) Cons.prems(3) row(2) by (intro kind_links_scoped_add) simp_all
  have "kind_links_scoped k (get_or_create_attrs k u ns (recipe_id r) ?d2)"
    using s2 r1 Cons.prems(3) by (intro Cons.IH) simp_all
  then show ?case
    using g by simp
qed

lemma kind_links_scoped_frame:
  assumes "db_recipes d' = db_recipes d" and "attrs_of k d' = attrs_of k d"
    and "links_of k d' = links_of k d"
  shows "kind_links_scoped k d' = kind_links_scoped k d"
  by (simp add: kind_links_scoped_iff assms)

lemma get_or_create_attrs_scoped_other:
  assumes "k' \<noteq> k"
  shows "kind_links_scoped k' (get_or_create_attrs k u ns rid d) = kind_links_scoped k' d"
  using get_or_create_attrs_other_kind [OF assms, of u ns rid d]
  by (intro kind_links_scoped_frame) simp_all

lemma clear_links_scoped:
  assumes "kind_links_scoped k' d"
  shows "kind_links_scoped k' (clear_links k rid d)"
  using assms
proof (rule kind_links_scoped_step)
  show "set (links_of k' (clear_links k rid d)) \<subseteq> set (links_of k' d)"
    by (auto simp: links_of_clear_links)
next
  fix l r assume "r \<in> set (db_recipes d)"
  then show "\<exists>r' \<in> set (db_recipes (clear_links k rid d)).
      recipe_id r' = recipe_id r \<and> recipe_user r' = recipe_user r"
    by auto
next
  fix l a assume "a \<in> set (attrs_of k' d)"
  then show "\<exists>a' \<in> set (attrs_of k' (clear_links k rid d)).
      attr_id a' = attr_id a \<and> attr_user a' = attr_user a"
    by auto
qed

lemma assign_attrs_scoped:
  assumes "kind_links_scoped k' d" and "r \<in> set (db_recipes d)" and "recipe_user r = u"
  shows "kind_links_scoped k' (assign_attrs k u x (recipe_id r) d)"
proof (cases x)
  case None
  then show ?thesis using assms(1) by (simp add: assign_attrs_def)
next
  case (Some ns)
  let ?c = "clear_links k (recipe_id r) d"
  have c: "kind_links_scoped k' ?c"
    using assms(1) by (rule clear_links_scoped)
  have rc: "r \<in> set (db_recipes ?c)"
    using assms(2) by simp
  show ?thesis
  proof (cases "k' = k")
    case True
    then show ?thesis
      using get_or_create_attrs_scoped [OF _ rc assms(3), of k ns] c Some
      by (simp add: assign_attrs_def)
  next
    case False
    then show ?thesis
      using get_or_create_attrs_scoped_other [OF False, of u ns "recipe_id r" ?c] c Some
      by (simp add: assign_attrs_def)
  qed
qed

lemma create_scoped:
  assumes "links_scoped d" and "RecipeSerializer_create u p d = (r, d')"
  shows "links_scoped d'"
proof -
  let ?rid = "next_id (map recipe_id (db_recipes d))"
  let ?r = "apply_fields p
      \<lparr>recipe_id = ?rid, recipe_user = u, title = [], time_minutes = 0, price = 0,
       description = [], link = [], recipe_image = None\<rparr>"
  let ?d1 = "d\<lparr>db_recipes := db_recipes d @ [?r]\<rparr>"
  let ?ts = "case p_tags p of None \<Rightarrow> [] | Some ns \<Rightarrow> ns"
  let ?is = "case p_ingredients p of None \<Rightarrow> [] | Some ns \<Rightarrow> ns"
  let ?d2 = "get_or_create_attrs TagKind u ?ts (recipe_id ?r) ?d1"
  let ?d3 = "get_or_create_attrs IngredientKind u ?is (recipe_id ?r) ?d2"
  have d': "d' = ?d3"
    using assms(2) by (auto simp: RecipeSerializer_create_def Let_def)
  have s1: "kind_links_scoped k ?d1" for k
    using assms(1) by (intro kind_links_scoped_grow [of k d ?d1]) (auto simp: links_scoped_kinds)
  have r1: "?r \<in> set (db_recipes ?d1)" "recipe_user ?r = u"
    by simp_all
  have t2: "kind_links_scoped TagKind ?d2"
    using s1 r1 by (intro get_or_create_attrs_scoped)
  have i2: "kind_links_scoped IngredientKind ?d2"
    using s1 [of IngredientKind]
      get_or_create_attrs_scoped_other [of IngredientKind TagKind u ?ts "recipe_id ?r" ?d1]
    by simp
  have r2: "?r \<in> set (db_recipes ?d2)"
    by simp
  have i3: "kind_links_scoped IngredientKind ?d3"
    using i2 r2 r1(2) by (intro get_or_create_attrs_scoped)
  have t3: "kind_links_scoped TagKind ?d3"
    using t2
      get_or_create_attrs_scoped_other [of TagKind IngredientKind u ?is "recipe_id ?r" ?d2]
    by simp
  show ?thesis
    using t3 i3 by (simp add: d' links_scoped_def)
qed

lemma save_recipe_scoped:
  assumes "kind_links_scoped k d" and "distinct (map recipe_id (db_recipes d))"
    and "obj \<in> set (db_recipes d)"
  shows "kind_links_scoped k (save_recipe (apply_fields p obj) d)"
  using assms(1)
proof (rule kind_links_scoped_step)
  show "set (links_of k (save_recipe (apply_fields p obj) d)) \<subseteq> set (links_of k d)"
    by (simp add: save_recipe_def)
next
  fix l r assume r: "r \<in> set (db_recipes d)"
  let ?f = "\<lambda>x. if recipe_id x = recipe_id obj then apply_fields p obj else x"
  have "?f r \<in> set (db_recipes (save_recipe (apply_fields p obj) d))"
    using r by (simp add: save_recipe_def)
  moreover have "recipe_id (?f r) = recipe_id r" by simp
  moreover have "recipe_user (?f r) = recipe_user r"
    using pk_determines_row [OF assms(2) r assms(3)] by auto
  ultimately show "\<exists>r' \<in> set (db_recipes (save_recipe (apply_fields p obj) d)).
      recipe_id r' = recipe_id r \<and> recipe_user r' = recipe_user r"
    by blast
next
  fix l a assume "a \<in> set (attrs_of k d)"
  then show "\<exists>a' \<in> set (attrs_of k (save_recipe (apply_fields p obj) d)).
      attr_id a' = attr_id a \<and> attr_user a' = attr_user a"
    by (auto simp: save_recipe_def)
qed

lemma update_scoped:
  assumes "links_scoped d" and "pk_unique d" and "obj \<in> set (db_recipes d)"
    and "recipe_user obj = u" and "RecipeSerializer_update u obj p d = (r, d')"
  shows "links_scoped d'"
proof -
  let ?rid = "recipe_id obj"
  let ?d1 = "assign_attrs TagKind u (p_tags p) ?rid d"
  let ?d2 = "assign_attrs IngredientKind u (p_ingredients p) ?rid ?d1"
  have d': "d' = save_recipe (apply_fields p obj) ?d2"
    using assms(5) by (auto simp: RecipeSerializer_update_def Let_def)
  have s1: "kind_links_scoped k ?d1" for k
    using assms(1,3,4) by (intro assign_attrs_scoped) (simp_all add: links_scoped_kinds)
  have o1: "obj \<in> set (db_recipes ?d1)"
    using assms(3) by simp
  have s2: "kind_links_scoped k ?d2" for k
    by (rule assign_attrs_scoped [OF s1 o1 assms(4)])
  have o2: "obj \<in> set (db_recipes ?d2)" "distinct (map recipe_id (db_recipes ?d2))"
    using assms(2,3) by (simp_all add: pk_unique_def)
  have "kind_links_scoped k d'" for k
    unfolding d' using s2 o2(2,1) by (rule save_recipe_scoped)
  then show ?thesis
    by (simp add: links_scoped_kinds)
qed

lemma delete_recipe_scoped: "links_scoped d \<Longrightarrow> links_scoped (delete_recipe pk d)"
proof -
  assume a: "links_scoped d"
  have "kind_links_scoped k (delete_recipe pk d)" for k
  proof (rule kind_links_scoped_step [of k d])
    show "kind_links_scoped k d" using a by (simp add: links_scoped_kinds)
    show "set (links_of k (delete_recipe pk d)) \<subseteq> set (links_of k d)"
      by (cases k) (auto simp: delete_recipe_def)
  next
    fix l r
    assume "l \<in> set (links_of k (delete_recipe pk d))" "r \<in> set (db_recipes d)"
      "recipe_id r = fst l"
    then have "r \<in> set (db_recipes (delete_recipe pk d))"
      by (cases k) (auto simp: delete_recipe_def)
    then show "\<exists>r' \<in> set (db_recipes (delete_recipe pk d)).
        recipe_id r' = recipe_id r \<and> recipe_user r' = recipe_user r"
      by blast
  next
    fix l a assume "a \<in> set (attrs_of k d)"
    then have "a \<in> set (attrs_of k (delete_recipe pk d))"
      by (cases k) (auto simp: delete_recipe_def)
    then show "\<exists>a' \<in> set (attrs_of k (delete_recipe pk d)).
        attr_id a' = attr_id a \<and> attr_user a' = attr_user a"
      by blast
  qed
  then show ?thesis by (simp add: links_scoped_kinds)
qed

lemma delete_attr_scoped: "links_scoped d \<Longrightarrow> links_scoped (delete_attr k pk d)"
proof -
  assume a: "links_scoped d"
  have "kind_links_scoped k' (delete_attr k pk d)" for k'
  proof (rule kind_links_scoped_step [of k' d])
    show "kind_links_scoped k' d" using a by (simp add: links_scoped_kinds)
    show "set (links_of k' (delete_attr k pk d)) \<subseteq> set (links_of k' d)"
      by (auto simp: delete_attr_def)
  next
    fix l r assume "r \<in> set (db_recipes d)"
    then show "\<exists>r' \<in> set (db_recipes (delete_attr k pk d)).
        recipe_id r' = recipe_id r \<and> recipe_user r' = recipe_user r"
      by (auto simp: delete_attr_def)
  next
    fix l a
    assume "l \<in> set (links_of k' (delete_attr k pk d))" "a \<in> set (attrs_of k' d)"
      "attr_id a = snd l"
    then have "a \<in> set (attrs_of k' (delete_attr k pk d))"
      by (auto simp: delete_attr_def split: if_splits)
    then show "\<exists>a' \<in> set (attrs_of k' (delete_attr k pk d)).
        attr_id a' = attr_id a \<and> attr_user a' = attr_user a"
      by blast
  qed
  then show ?thesis by (simp add: links_scoped_kinds)
qed

lemma attr_update_scoped:
  assumes "links_scoped d" and "pk_unique d" and "obj \<in> set (attrs_of k d)"
    and "AttrSerializer_update k obj p d = (a, d')"
  shows "links_scoped d'"
proof -
  let ?a = "obj\<lparr>attr_name := (case p_name p of None \<Rightarrow> attr_name obj | Some v \<Rightarrow> v)\<rparr>"
  let ?f = "\<lambda>x. if attr_id x = attr_id obj then ?a else x"
  have d': "d' = put_attrs k (map ?f (attrs_of k d)) d"
    using assms(4) by (auto simp: AttrSerializer_update_def Let_def)
  have "kind_links_scoped k' d'" for k'
  proof (rule kind_links_scoped_step [of k' d])
    show "kind_links_scoped k' d" using assms(1) by (simp add: links_scoped_kinds)
    show "set (links_of k' d') \<subseteq> set (links_of k' d)" by (simp add: d')
  next
    fix l r assume "r \<in> set (db_recipes d)"
    then show "\<exists>r' \<in> set (db_recipes d'). recipe_id r' = recipe_id r \<and> recipe_user r' = recipe_user r"
      by (auto simp: d')
  next
    fix l x assume x: "x \<in> set (attrs_of k' d)"
    show "\<exists>a' \<in> set (attrs_of k' d'). attr_id a' = attr_id x \<and> attr_user a' = attr_user x"
    proof (cases "k' = k")
      case False
      then show ?thesis using x by (auto simp: d')
    next
      case True
      then have "?f x \<in> set (attrs_of k' d')"
        using x by (simp add: d')
      moreover have "attr_id (?f x) = attr_id x" by simp
      moreover have "attr_user (?f x) = attr_user x"
        using pk_determines_row [OF pk_unique_attrs [OF assms(2), of k] _ assms(3), of x] x True
        by auto
      ultimately show ?thesis by blast
    qed
  qed
  then show ?thesis by (simp add: links_scoped_kinds)
qed


section \<open>What a handler does to the database\<close>

lemma handler_cases:
  assumes "handler vs a u d rq = (d', res)" and "req_user rq = Some u"
  obtains
    (same) "d' = d" "set (body_recipes (res_data res)) \<subseteq> set (db_recipes d)"
  | (created) r where "RecipeSerializer_create u (req_data rq) d = (r, d')"
      "res_data res = recipe_detail r"
  | (updated) obj r where "obj \<in> set (db_recipes d)" "recipe_user obj = u"
      "RecipeSerializer_update u obj (req_data rq) d = (r, d')" "res_data res = recipe_detail r"
  | (deleted) obj where "obj \<in> set (db_recipes d)" "recipe_user obj = u"
      "d' = delete_recipe (recipe_id obj) d" "res_data res = no_content"
  | (attr_updated) k obj x where "obj \<in> set (attrs_of k d)" "attr_user obj = u"
      "AttrSerializer_update k obj (req_data rq) d = (x, d')" "res_data res = attr_detail x"
  | (attr_deleted) k obj where "obj \<in> set (attrs_of k d)" "attr_user obj = u"
      "d' = delete_attr k (attr_id obj) d" "res_data res = no_content"
proof -
  have recipe_update: thesis
    if h: "RecipeViewSet_update partial pk u d rq = (d', res)" for partial pk
  proof (cases "get_object recipe_id (RecipeViewSet_get_queryset d rq) pk")
    case None
    then have "d' = d" "res_data res = no_content"
      using h by (auto simp: RecipeViewSet_update_def error_response_def)
    then show thesis by (intro same) simp_all
  next
    case (Some obj)
    have own: "obj \<in> set (db_recipes d)" "recipe_user obj = u"
      using Some assms(2) get_object_Some [of recipe_id recipe_id _ "db_recipes d" pk obj]
      by (auto simp: RecipeViewSet_get_queryset_def)
    show thesis
    proof (cases "is_valid partial (req_data rq)")
      case False
      then have "d' = d" "res_data res = no_content"
        using h Some by (auto simp: RecipeViewSet_update_def error_response_def)
      then show thesis by (intro same) simp_all
    next
      case True
      obtain r d1 where c: "RecipeSerializer_update u obj (req_data rq) d = (r, d1)"
        by (cases "RecipeSerializer_update u obj (req_data rq) d")
      then have "d' = d1" "res_data res = recipe_detail r"
        using h Some True by (auto simp: RecipeViewSet_update_def)
      then show thesis using updated [OF own] c by simp
    qed
  qed
  have attr_update: thesis
    if h: "BaseRecipeAttrViewSet_update k partial pk d rq = (d', res)" for k partial pk
  proof (cases "get_object attr_id (BaseRecipeAttrViewSet_get_queryset k d rq) pk")
    case None
    then have "d' = d" "res_data res = no_content"
      using h by (auto simp: BaseRecipeAttrViewSet_update_def error_response_def)
    then show thesis by (intro same) simp_all
  next
    case (Some obj)
    have own: "obj \<in> set (attrs_of k d)" "attr_user obj = u"
      using Some assms(2) get_object_Some [of attr_id attr_name _ "attrs_of k d" pk obj]
      by (auto simp: BaseRecipeAttrViewSet_get_queryset_def)
    show thesis
    proof (cases "attr_is_valid partial (req_data rq)")
      case False
      then have "d' = d" "res_data res = no_content"
        using h Some by (auto simp: BaseRecipeAttrViewSet_update_def error_response_def)
      then show thesis by (intro same) simp_all
    next
      case True
      obtain x d1 where c: "AttrSerializer_update k obj (req_data rq) d = (x, d1)"
        by (cases "AttrSerializer_update k obj (req_data rq) d")
      then have "d' = d1" "res_data res = attr_detail x"
        using h Some True by (auto simp: BaseRecipeAttrViewSet_update_def)
      then show thesis using attr_updated [OF own] c by simp
    qed
  qed
  have attr_destroy: thesis
    if h: "BaseRecipeAttrViewSet_destroy k pk d rq = (d', res)" for k pk
  proof (cases "get_object attr_id (BaseRecipeAttrViewSet_get_queryset k d rq) pk")
    case None
    then have "d' = d" "res_data res = no_content"
      using h by (auto simp: BaseRecipeAttrViewSet_destroy_def error_response_def)
    then show thesis by (intro same) simp_all
  next
    case (Some obj)
    have own: "obj \<in> set (attrs_of k d)" "attr_user obj = u"
      using Some assms(2) get_object_Some [of attr_id attr_name _ "attrs_of k d" pk obj]
      by (auto simp: BaseRecipeAttrViewSet_get_queryset_def)
    have "d' = delete_attr k (attr_id obj) d" "res_data res = no_content"
      using h Some by (auto simp: BaseRecipeAttrViewSet_destroy_def error_response_def)
    then show thesis using attr_deleted [OF own] by simp
  qed
  show thesis
  proof (cases "vs = RecipeViewSet")
    case True
    show thesis
    proof (cases a)
      case list_action
      then have "d' = d" "res_data res = recipe_list (RecipeViewSet_get_queryset d rq)"
        using assms(1) True by (auto simp: handler_def RecipeViewSet_list_def)
      then show thesis
        by (intro same) (auto simp: RecipeViewSet_get_queryset_def)
    next
      case create_action
      then have h: "RecipeViewSet_create u d rq = (d', res)"
        using assms(1) True by (simp add: handler_def)
      show thesis
      proof (cases "is_valid False (req_data rq)")
        case False
        then have "d' = d" "res_data res = no_content"
          using h by (auto simp: RecipeViewSet_create_def error_response_def)
        then show thesis by (intro same) simp_all
      next
        case True
        obtain r d1 where c: "RecipeSerializer_create u (req_data rq) d = (r, d1)"
          by (cases "RecipeSerializer_create u (req_data rq) d")
        then have "d' = d1" "res_data res = recipe_detail r"
          using h True
          by (auto simp: RecipeViewSet_create_def RecipeViewSet_perform_create_def)
        then show thesis using created c by simp
      qed
    next
      case (retrieve_action pk)
      then have h: "RecipeViewSet_retrieve pk d rq = (d', res)"
        using assms(1) True by (simp add: handler_def)
      show thesis
      proof (cases "get_object recipe_id (RecipeViewSet_get_queryset d rq) pk")
        case None
        then have "d' = d" "res_data res = no_content"
          using h by (auto simp: RecipeViewSet_retrieve_def error_response_def)
        then show thesis by (intro same) simp_all
      next
        case (Some obj)
        have "obj \<in> set (db_recipes d)"
          using Some get_object_Some [of recipe_id recipe_id _ "db_recipes d" pk obj]
          by (auto simp: RecipeViewSet_get_queryset_def)
        moreover have "d' = d" "res_data res = recipe_detail obj"
          using h Some by (auto simp: RecipeViewSet_retrieve_def)
        ultimately show thesis by (intro same) simp_all
      qed
    next
      case (update_action pk)
      then show thesis using assms(1) True recipe_update by (simp add: handler_def)
    next
      case (partial_update_action pk)
      then show thesis using assms(1) True recipe_update by (simp add: handler_def)
    next
      case (destroy_action pk)
      then have h: "RecipeViewSet_destroy pk d rq = (d', res)"
        using assms(1) True by (simp add: handler_def)
      show thesis
      proof (cases "get_object recipe_id (RecipeViewSet_get_queryset d rq) pk")
        case None
        then have "d' = d" "res_data res = no_content"
          using h by (auto simp: RecipeViewSet_destroy_def error_response_def)
        then show thesis by (intro same) simp_all
      next
        case (Some obj)
        have own: "obj \<in> set (db_recipes d)" "recipe_user obj = u"
          using Some assms(2) get_object_Some [of recipe_id recipe_id _ "db_recipes d" pk obj]
          by (auto simp: RecipeViewSet_get_queryset_def)
        have "d' = delete_recipe (recipe_id obj) d" "res_data res = no_content"
          using h Some by (auto simp: RecipeViewSet_destroy_def error_response_def)
        then show thesis using deleted [OF own] by simp
      qed
    qed
  next
    case False
    show thesis
    proof (cases a)
      case list_action
      then have "d' = d"
          "res_data res = attr_list (BaseRecipeAttrViewSet_get_queryset (attr_kind_of vs) d rq)"
        using assms(1) False by (auto simp: handler_def BaseRecipeAttrViewSet_list_def)
      then show thesis by (intro same) simp_all
    next
      case create_action
      then have "d' = d" "res_data res = no_content"
        using assms(1) False by (auto simp: handler_def error_response_def)
      then show thesis by (intro same) simp_all
    next
      case (retrieve_action pk)
      then have "d' = d" "res_data res = no_content"
        using assms(1) False by (auto simp: handler_def error_response_def)
      then show thesis by (intro same) simp_all
    next
      case (update_action pk)
      then show thesis using assms(1) False attr_update by (simp add: handler_def)
    next
      case (partial_update_action pk)
      then show thesis using assms(1) False attr_update by (simp add: handler_def)
    next
      case (destroy_action pk)
      then show thesis using assms(1) False attr_destroy by (simp add: handler_def)
    qed
  qed
qed

lemma handler_links_scoped:
  assumes "handler vs a u d rq = (d', res)" and "req_user rq = Some u"
    and "pk_unique d" and "links_scoped d"
  shows "links_scoped d'"
  using assms(1,2)
proof (cases rule: handler_cases)
  case same
  then show ?thesis using assms(4) by simp
next
  case (created r)
  then show ?thesis using create_scoped [OF assms(4)] by simp
next
  case (updated obj r)
  then show ?thesis using update_scoped [OF assms(4,3)] by simp
next
  case (deleted obj)
  then show ?thesis using delete_recipe_scoped [OF assms(4)] by simp
next
  case (attr_updated k obj x)
  then show ?thesis using attr_update_scoped [OF assms(4,3)] by simp
next
  case (attr_deleted k obj)
  then show ?thesis using delete_attr_scoped [OF assms(4)] by simp
qed


section \<open>The links of the others' recipes\<close>

lemma filter_through:
  assumes "filter Q ys = filter Q xs" and "\<And>l. l \<in> set xs \<union> set ys \<Longrightarrow> P l \<Longrightarrow> Q l"
  shows "filter P ys = filter P xs"
proof -
  have "filter P zs = filter P (filter Q zs)" if "set zs \<subseteq> set xs \<union> set ys" for zs
    using that assms(2) by (induction zs) auto
  then have "filter P ys = filter P (filter Q ys)" "filter P xs = filter P (filter Q xs)"
    by auto
  then show ?thesis using assms(1) by simp
qed

lemma their_links_elsewhere:
  assumes "filter (\<lambda>l. fst l \<noteq> rid) ls' = filter (\<lambda>l. fst l \<noteq> rid) ls"
    and "\<And>r. r \<in> set (db_recipes d) \<Longrightarrow> recipe_id r = rid \<Longrightarrow> recipe_user r = u"
  shows "their_links u d ls' = their_links u d ls"
  unfolding their_links_def using assms(1)
proof (rule filter_through)
  fix l
  assume "\<exists>r \<in> set (db_recipes d). recipe_id r = fst l \<and> recipe_user r \<noteq> u"
  then show "fst l \<noteq> rid" using assms(2) by auto
qed

lemma add_link_elsewhere:
  "filter (\<lambda>l. fst l \<noteq> rid) (add_link (rid, x) ls) = filter (\<lambda>l. fst l \<noteq> rid) ls"
  by (simp add: add_link_def)

lemma get_or_create_attrs_elsewhere:
  "filter (\<lambda>l. fst l \<noteq> rid) (links_of k' (get_or_create_attrs k u ns rid d)) =
   filter (\<lambda>l. fst l \<noteq> rid) (links_of k' d)"
proof (induction ns arbitrary: d)
  case Nil
  then show ?case by simp
next
  case (Cons n ns)
  obtain a d1 where g: "get_or_create k u n d = (a, d1)" by (cases "get_or_create k u n d")
  have l1: "links_of k' d1 = links_of k' d"
    using get_or_create_links [of k' k u n d] g by simp
  let ?d2 = "put_links k (add_link (rid, attr_id a) (links_of k d1)) d1"
  have "filter (\<lambda>l. fst l \<noteq> rid) (links_of k' ?d2) = filter (\<lambda>l. fst l \<noteq> rid) (links_of k' d1)"
    by (simp add: add_link_elsewhere)
  then show ?case
    using Cons.IH [of ?d2] g l1 by simp
qed

lemma assign_attrs_elsewhere:
  "filter (\<lambda>l. fst l \<noteq> rid) (links_of k' (assign_attrs k u x rid d)) =
   filter (\<lambda>l. fst l \<noteq> rid) (links_of k' d)"
proof (cases x)
  case None
  then show ?thesis by (simp add: assign_attrs_def)
next
  case (Some ns)
  have "filter (\<lambda>l. fst l \<noteq> rid) (links_of k' (clear_links k rid d)) =
      filter (\<lambda>l. fst l \<noteq> rid) (links_of k' d)"
    by (simp add: links_of_clear_links)
  then show ?thesis
    using get_or_create_attrs_elsewhere [of rid k' k u ns "clear_links k rid d"] Some
    by (simp add: assign_attrs_def)
qed

lemma create_elsewhere:
  assumes "RecipeSerializer_create u p d = (r, d')"
  shows "filter (\<lambda>l. fst l \<noteq> recipe_id r) (links_of k d') =
         filter (\<lambda>l. fst l \<noteq> recipe_id r) (links_of k d)"
proof -
  let ?r = "apply_fields p
      \<lparr>recipe_id = next_id (map recipe_id (db_recipes d)), recipe_user = u, title = [],
       time_minutes = 0, price = 0, description = [], link = [], recipe_image = None\<rparr>"
  let ?d1 = "d\<lparr>db_recipes := db_recipes d @ [?r]\<rparr>"
  let ?ts = "case p_tags p of None \<Rightarrow> [] | Some ns \<Rightarrow> ns"
  let ?is = "case p_ingredients p of None \<Rightarrow> [] | Some ns \<Rightarrow> ns"
  let ?d2 = "get_or_create_attrs TagKind u ?ts (recipe_id ?r) ?d1"
  let ?d3 = "get_or_create_attrs IngredientKind u ?is (recipe_id ?r) ?d2"
  have d': "d' = ?d3" and r: "r = ?r"
    using assms by (auto simp: RecipeSerializer_create_def Let_def)
  have "filter (\<lambda>l. fst l \<noteq> recipe_id ?r) (links_of k ?d3) =
      filter (\<lambda>l. fst l \<noteq> recipe_id ?r) (links_of k ?d2)"
    by (rule get_or_create_attrs_elsewhere)
  also have "\<dots> = filter (\<lambda>l. fst l \<noteq> recipe_id ?r) (links_of k ?d1)"
    by (rule get_or_create_attrs_elsewhere)
  also have "\<dots> = filter (\<lambda>l. fst l \<noteq> recipe_id ?r) (links_of k d)"
    by simp
  finally show ?thesis
    unfolding d' r .
qed

lemma update_elsewhere:
  assumes "RecipeSerializer_update u obj p d = (r, d')"
  shows "filter (\<lambda>l. fst l \<noteq> recipe_id obj) (links_of k d') =
         filter (\<lambda>l. fst l \<noteq> recipe_id obj) (links_of k d)"
proof -
  let ?rid = "recipe_id obj"
  let ?d1 = "assign_attrs TagKind u (p_tags p) ?rid d"
  let ?d2 = "assign_attrs IngredientKind u (p_ingredients p) ?rid ?d1"
  have d': "d' = save_recipe (apply_fields p obj) ?d2"
    using assms by (auto simp: RecipeSerializer_update_def Let_def)
  have "links_of k d' = links_of k ?d2"
    by (simp add: d' save_recipe_def)
  moreover have "filter (\<lambda>l. fst l \<noteq> ?rid) (links_of k ?d2) =
      filter (\<lambda>l. fst l \<noteq> ?rid) (links_of k ?d1)"
    by (rule assign_attrs_elsewhere)
  moreover have "filter (\<lambda>l. fst l \<noteq> ?rid) (links_of k ?d1) =
      filter (\<lambda>l. fst l \<noteq> ?rid) (links_of k d)"
    by (rule assign_attrs_elsewhere)
  ultimately show ?thesis by simp
qed

lemma delete_recipe_elsewhere:
  "filter (\<lambda>l. fst l \<noteq> pk) (links_of k (delete_recipe pk d)) =
   filter (\<lambda>l. fst l \<noteq> pk) (links_of k d)"
  by (cases k) (simp_all add: delete_recipe_def)

text \<open>
  Deleting a tag of user \<open>u\<close> removes the links to it. When every link joins rows of one
  owner, these are links of recipes of \<open>u\<close>.
\<close>

lemma delete_attr_their_links:
  assumes "pk_unique d" and "links_scoped d"
    and "obj \<in> set (attrs_of k d)" and "attr_user obj = u"
  shows "their_links u d (links_of k' (delete_attr k (attr_id obj) d)) =
         their_links u d (links_of k' d)"
proof (cases "k' = k")
  case False
  then show ?thesis by (simp add: delete_attr_def)
next
  case True
  have l': "links_of k (delete_attr k (attr_id obj) d) =
      filter (\<lambda>l. snd l \<noteq> attr_id obj) (links_of k d)"
    by (simp add: delete_attr_def)
  have "filter (\<lambda>l. \<exists>r \<in> set (db_recipes d). recipe_id r = fst l \<and> recipe_user r \<noteq> u)
          (filter (\<lambda>l. snd l \<noteq> attr_id obj) (links_of k d)) =
        filter (\<lambda>l. \<exists>r \<in> set (db_recipes d). recipe_id r = fst l \<and> recipe_user r \<noteq> u)
          (links_of k d)"
  proof (rule filter_through [where Q = "\<lambda>l. snd l \<noteq> attr_id obj"])
    show "filter (\<lambda>l. snd l \<noteq> attr_id obj) (filter (\<lambda>l. snd l \<noteq> attr_id obj) (links_of k d)) =
        filter (\<lambda>l. snd l \<noteq> attr_id obj) (links_of k d)"
      by simp
  next
    fix l
    assume l: "l \<in> set (links_of k d) \<union> set (filter (\<lambda>l. snd l \<noteq> attr_id obj) (links_of k d))"
      and other: "\<exists>r \<in> set (db_recipes d). recipe_id r = fst l \<and> recipe_user r \<noteq> u"
    from l have lk: "l \<in> set (links_of k d)" by auto
    obtain r0 where r0: "r0 \<in> set (db_recipes d)" "recipe_id r0 = fst l" "recipe_user r0 \<noteq> u"
      using other by blast
    obtain r a where ra: "r \<in> set (db_recipes d)" "a \<in> set (attrs_of k d)"
      "recipe_id r = fst l" "attr_id a = snd l" "recipe_user r = attr_user a"
      using assms(2) lk unfolding links_scoped_kinds kind_links_scoped_iff by blast
    have "r = r0"
      using assms(1) ra(1) r0(1) ra(3) r0(2)
      by (intro pk_determines_row [of recipe_id "db_recipes d"]) (simp_all add: pk_unique_def)
    then have au: "attr_user a \<noteq> u" using ra(5) r0(3) by simp
    show "snd l \<noteq> attr_id obj"
    proof
      assume "snd l = attr_id obj"
      then have "a = obj"
        using pk_determines_row [OF pk_unique_attrs [OF assms(1)] ra(2) assms(3)] ra(4) by simp
      then show False using au assms(4) by simp
    qed
  qed
  then show ?thesis
    using True by (simp add: their_links_def l')
qed

lemma attr_update_links:
  assumes "AttrSerializer_update k obj p d = (a, d')"
  shows "links_of k' d' = links_of k' d"
  using assms by (auto simp: AttrSerializer_update_def Let_def)

lemma handler_their_links:
  assumes "handler vs a u d rq = (d', res)" and "req_user rq = Some u"
    and "pk_unique d" and "links_scoped d"
  shows "their_links u d (links_of k d') = their_links u d (links_of k d)"
  using assms(1,2)
proof (cases rule: handler_cases)
  case same
  then show ?thesis by simp
next
  case (created r)
  have "recipe_id r \<notin> set (map recipe_id (db_recipes d))"
    using create_row(4) [OF created(1)] next_id_fresh [of "map recipe_id (db_recipes d)"]
    by simp
  then have "\<And>x. x \<in> set (db_recipes d) \<Longrightarrow> recipe_id x = recipe_id r \<Longrightarrow> recipe_user x = u"
    by (metis imageI set_map)
  then show ?thesis
    using create_elsewhere [OF created(1)] by (intro their_links_elsewhere)
next
  case (updated obj r)
  have "\<And>x. x \<in> set (db_recipes d) \<Longrightarrow> recipe_id x = recipe_id obj \<Longrightarrow> recipe_user x = u"
    using pk_determines_row [of recipe_id "db_recipes d" _ obj] assms(3) updated(1,2)
    by (auto simp: pk_unique_def)
  then show ?thesis
    using update_elsewhere [OF updated(3)] by (intro their_links_elsewhere)
next
  case (deleted obj)
  have "\<And>x. x \<in> set (db_recipes d) \<Longrightarrow> recipe_id x = recipe_id obj \<Longrightarrow> recipe_user x = u"
    using pk_determines_row [of recipe_id "db_recipes d" _ obj] assms(3) deleted(1,2)
    by (auto simp: pk_unique_def)
  then show ?thesis
    unfolding deleted(3) using delete_recipe_elsewhere by (intro their_links_elsewhere)
next
  case (attr_updated k0 obj x)
  then show ?thesis using attr_update_links by simp
next
  case (attr_deleted k0 obj)
  then show ?thesis using delete_attr_their_links [OF assms(3,4)] by simp
qed

lemma handler_others_unchanged:
  assumes "handler vs a u d rq = (d', res)" and "req_user rq = Some u"
    and "pk_unique d" and "links_scoped d"
  shows "others_unchanged u d d'"
  using scoped_handler [OF assms(1,2,3)]
    handler_their_links [OF assms, of TagKind] handler_their_links [OF assms, of IngredientKind]
  by (simp add: others_unchanged_def)

section \<open>The tags and ingredients nested in a recipe\<close>

lemma nested_scoped:
  assumes "pk_unique d" and "links_scoped d"
    and "r \<in> set (db_recipes d)" and "a \<in> set (nested k d r)"
  shows "attr_user a = recipe_user r"
proof -
  have a: "a \<in> set (attrs_of k d)" and l: "(recipe_id r, attr_id a) \<in> set (links_of k d)"
    using assms(4) by (simp_all add: nested_def linked_def)
  obtain r0 a0 where ra: "r0 \<in> set (db_recipes d)" "a0 \<in> set (attrs_of k d)"
    "recipe_id r0 = recipe_id r" "attr_id a0 = attr_id a" "recipe_user r0 = attr_user a0"
    using assms(2) l unfolding links_scoped_kinds kind_links_scoped_iff by fastforce
  have "r0 = r"
    using assms(1) ra(1) assms(3) ra(3)
    by (intro pk_determines_row [of recipe_id "db_recipes d"]) (simp_all add: pk_unique_def)
  moreover have "a0 = a"
    using pk_determines_row [OF pk_unique_attrs [OF assms(1)] ra(2) a ra(4)] .
  ultimately show ?thesis using ra(5) by simp
qed

lemma handler_body_rows:
  assumes "handler vs a u d rq = (d', res)" and "req_user rq = Some u"
  shows "set (body_recipes (res_data res)) \<subseteq> set (db_recipes d')"
  using assms(1,2)
proof (cases rule: handler_cases)
  case same
  then show ?thesis by simp
next
  case (created r)
  then show ?thesis using create_row(3) [OF created(1)] by simp
next
  case (updated obj r)
  have "r \<in> set (db_recipes d')"
    using update_rows [OF updated(3)] updated(1) by (auto simp: image_iff intro!: bexI [of _ obj])
  then show ?thesis using updated(4) by simp
next
  case (deleted obj)
  then show ?thesis by simp
next
  case (attr_updated k obj x)
  then show ?thesis by simp
next
  case (attr_deleted k obj)
  then show ?thesis by simp
qed

lemma scoped_bodyI:
  assumes "pk_unique d" and "links_scoped d" and "scoped_rows u b"
    and "set (body_recipes b) \<subseteq> set (db_recipes d)"
  shows "scoped_body u d b"
proof -
  have own: "recipe_user r = u" if "r \<in> set (body_recipes b)" for r
    using that assms(3) by (cases b) (auto simp: scoped_rows_def list_all_iff)
  have "attr_user a = u" if "r \<in> set (body_recipes b)" "a \<in> set (nested k d r)" for r a k
    using nested_scoped [OF assms(1,2) _ that(2)] that(1) assms(4) own by auto
  then show ?thesis
    using assms(3) by (auto simp: scoped_body_def list_all_iff)
qed


section \<open>User scoping\<close>

lemma others_unchanged_kinds:
  "others_unchanged u d d' \<longleftrightarrow>
   others_rows_unchanged u d d' \<and>
   (\<forall>k. their_links u d (links_of k d') = their_links u d (links_of k d))"
  by (simp add: others_unchanged_def all_kinds)

lemma filter_twice:
  assumes "\<And>x. x \<in> set xs \<Longrightarrow> P x \<Longrightarrow> Q x"
  shows "filter P xs = filter P (filter Q xs)"
  using assms by (induction xs) auto

text \<open>
  The tags and ingredients of a recipe of another user are the same after a step that
  leaves the others' rows and the links of the others' recipes as they were.
\<close>

lemma others_nested_unchanged:
  assumes "pk_unique d" and "links_scoped d" and "pk_unique d'" and "links_scoped d'"
    and "others_unchanged u d d'" and "r \<in> set (db_recipes d)" and "recipe_user r \<noteq> u"
  shows "nested k d' r = nested k d r"
proof -
  let ?rid = "recipe_id r"
  let ?O = "\<lambda>a. attr_user a \<noteq> u"
  have rows: "filter (\<lambda>r. recipe_user r \<noteq> u) (db_recipes d') =
      filter (\<lambda>r. recipe_user r \<noteq> u) (db_recipes d)"
    and attrs: "filter ?O (attrs_of k d') = filter ?O (attrs_of k d)"
    and links: "their_links u d (links_of k d') = their_links u d (links_of k d)"
    using assms(5) by (simp_all add: others_unchanged_kinds others_rows_unchanged_kinds)
  have "r \<in> set (filter (\<lambda>r. recipe_user r \<noteq> u) (db_recipes d))"
    using assms(6,7) by simp
  then have "r \<in> set (filter (\<lambda>r. recipe_user r \<noteq> u) (db_recipes d'))"
    using rows by simp
  then have r': "r \<in> set (db_recipes d')"
    by simp
  have mem: "(?rid, x) \<in> set (links_of k d') \<longleftrightarrow> (?rid, x) \<in> set (links_of k d)" for x
  proof -
    have "(?rid, x) \<in> set (their_links u d ls) \<longleftrightarrow> (?rid, x) \<in> set ls" for ls
      using assms(6,7) by (auto simp: their_links_def)
    then show ?thesis using links by metis
  qed
  have "nested k d' r =
      filter (\<lambda>a. (?rid, attr_id a) \<in> set (links_of k d')) (filter ?O (attrs_of k d'))"
    unfolding nested_def linked_def
  proof (rule filter_twice)
    fix a assume "a \<in> set (attrs_of k d')" "(?rid, attr_id a) \<in> set (links_of k d')"
    then have "a \<in> set (nested k d' r)" by (simp add: nested_def linked_def)
    then show "attr_user a \<noteq> u"
      using nested_scoped [OF assms(3,4) r'] assms(7) by simp
  qed
  moreover have "nested k d r =
      filter (\<lambda>a. (?rid, attr_id a) \<in> set (links_of k d)) (filter ?O (attrs_of k d))"
    unfolding nested_def linked_def
  proof (rule filter_twice)
    fix a assume "a \<in> set (attrs_of k d)" "(?rid, attr_id a) \<in> set (links_of k d)"
    then have "a \<in> set (nested k d r)" by (simp add: nested_def linked_def)
    then show "attr_user a \<noteq> u"
      using nested_scoped [OF assms(1,2,6)] assms(7) by simp
  qed
  ultimately show ?thesis
    using attrs mem by simp
qed

lemma handle_cases:
  assumes "req_user rq = Some u" and "handle d url rq = (d', res)"
  obtains (refused) "d' = d" "res_data res = no_content"
  | (handled) vs a where "handler vs a u d rq = (d', res)"
proof (cases "resolve url")
  case None
  then have "d' = d" "res_data res = no_content"
    using assms(2) by (auto simp: handle_def error_response_def)
  then show thesis by (rule refused)
next
  case (Some vr)
  obtain vs rt where vr: "vr = (vs, rt)" by (cases vr)
  have run: "dispatch vs rt d rq = (d', res)"
    using assms(2) Some vr by (simp add: handle_def)
  show thesis
  proof (cases "route_action rt (req_method rq)")
    case None
    then have "d' = d" "res_data res = no_content"
      using run authenticated_dispatch [OF assms(1), of vs rt d]
      by (auto simp: error_response_def)
    then show thesis by (rule refused)
  next
    case (Some a)
    show thesis
    proof (cases "has_action vs a")
      case False
      then have "d' = d" "res_data res = no_content"
        using run Some authenticated_dispatch [OF assms(1), of vs rt d]
        by (auto simp: error_response_def)
      then show thesis by (rule refused)
    next
      case True
      then have "handler vs a u d rq = (d', res)"
        using run Some authenticated_dispatch [OF assms(1), of vs rt d] by simp
      then show thesis by (rule handled)
    qed
  qed
qed

lemma others_unchanged_refl: "others_unchanged u d d"
  by (simp add: others_unchanged_def others_rows_unchanged_refl)

text \<open>
  C1. User scoping. Let every link of the database join a recipe and a tag or ingredient
  of the same owner, and let the primary keys be unique; both hold of the empty database
  and, as the last two conjuncts say, after every request if they held before it. Then
  for an authenticated user \<open>u\<close> and any request to any URL: the recipe, tag and
  ingredient rows of every other user and the links of the others' recipes are the same
  after the request as before, and so are the tags and ingredients of each recipe of
  another user; every object in the response (the rows of a list, the row of a detail,
  create or update answer, and the tags and ingredients nested in them) belongs to \<open>u\<close>;
  and a retrieve, update or delete of a recipe, or an update or delete of a tag or
  ingredient, whose URL names an object of another user is answered 404 Not Found and
  leaves the whole database as it was. (The tag and ingredient viewsets have no retrieve
  and no create action: those methods are answered 405 for any object.)
\<close>

theorem user_scoping:
  assumes "pk_unique d" and "links_scoped d" and "req_user rq = Some u"
    and "handle d url rq = (d', res)"
  shows "others_unchanged u d d' \<and>
         (\<forall>k. \<forall>r \<in> set (db_recipes d). recipe_user r \<noteq> u \<longrightarrow> nested k d' r = nested k d r) \<and>
         scoped_body u d' (res_data res) \<and>
         (\<forall>vs pk. url = detail_url vs pk \<and> routed vs (detail_route pk) (req_method rq) \<and>
                  owned_by_other vs pk u d \<longrightarrow>
                  status_code res = HTTP_404_NOT_FOUND \<and> d' = d) \<and>
         pk_unique d' \<and> links_scoped d'"
proof -
  note rows = rows_scoped [OF assms(1,3,4)]
  have pk': "pk_unique d'"
    using constraints_kept [OF assms(1) links_scoped_fk_valid [OF assms(2)] assms(4)] by simp
  have step: "others_unchanged u d d' \<and> links_scoped d' \<and>
      set (body_recipes (res_data res)) \<subseteq> set (db_recipes d')"
    using assms(3,4)
  proof (cases rule: handle_cases)
    case refused
    then show ?thesis using assms(2) by (simp add: others_unchanged_refl)
  next
    case (handled vs a)
    then show ?thesis
      using handler_others_unchanged [OF handled assms(3,1,2)]
        handler_links_scoped [OF handled assms(3,1,2)]
        handler_body_rows [OF handled assms(3)]
      by simp
  qed
  have body: "scoped_body u d' (res_data res)"
    using pk' step rows by (intro scoped_bodyI) simp_all
  have nest: "nested k d' r = nested k d r"
    if "r \<in> set (db_recipes d)" "recipe_user r \<noteq> u" for k r
    using others_nested_unchanged [OF assms(1,2) pk' _ _ that] step by simp
  show ?thesis
    using step body nest rows pk' by blast
qed


theorem user_scoping_witness:
  "pk_unique two_users_db \<and> links_scoped two_users_db \<and>
   req_user clear_tags_request = Some 1 \<and>
   handle two_users_db (detail_url RecipeViewSet 1) clear_tags_request =
     (two_users_db\<lparr>db_recipe_tags := [(2, 2)]\<rparr>,
      \<lparr>status_code = HTTP_200_OK, res_data = recipe_detail (create_recipe 1 1 ''Sample title'')\<rparr>) \<and>
   others_unchanged 1 two_users_db (two_users_db\<lparr>db_recipe_tags := [(2, 2)]\<rparr>) \<and>
   nested TagKind (two_users_db\<lparr>db_recipe_tags := [(2, 2)]\<rparr>) (create_recipe 2 2 ''Sample title'') =
     [\<lparr>attr_id = 2, attr_user = 2, attr_name = ''Dessert''\<rparr>] \<and>
   scoped_body 1 (two_users_db\<lparr>db_recipe_tags := [(2, 2)]\<rparr>)
     (recipe_detail (create_recipe 1 1 ''Sample title'')) \<and>
   links_scoped (two_users_db\<lparr>db_recipe_tags := [(2, 2)]\<rparr>) \<and>
   req_user delete_request = Some 1 \<and>
   routed RecipeViewSet (detail_route 2) (req_method delete_request) \<and>
   owned_by_other RecipeViewSet 2 1 two_users_db \<and>
   handle two_users_db (detail_url RecipeViewSet 2) delete_request =
     (two_users_db, \<lparr>status_code = HTTP_404_NOT_FOUND, res_data = no_content\<rparr>) \<and>
   others_unchanged 1 two_users_db two_users_db \<and>
   req_user list_request = Some 1 \<and>
   handle two_users_db (list_url RecipeViewSet) list_request =
     (two_users_db,
      \<lparr>status_code = HTTP_200_OK, res_data = recipe_list [create_recipe 1 1 ''Sample title'']\<rparr>) \<and>
   nested TagKind two_users_db (create_recipe 1 1 ''Sample title'') =
     [\<lparr>attr_id = 1, attr_user = 1, attr_name = ''Vegan''\<rparr>] \<and>
   scoped_body 1 two_users_db (recipe_list [create_recipe 1 1 ''Sample title''])"
proof -
  let ?d' = "two_users_db\<lparr>db_recipe_tags := [(2, 2)]\<rparr>"
  have pk: "pk_unique two_users_db"
    by (simp add: pk_unique_def two_users_db_def create_recipe_def)
  have ls: "links_scoped two_users_db"
    by (simp add: links_scoped_def kind_links_scoped_def two_users_db_def create_recipe_def)
  have u: "req_user clear_tags_request = Some 1" and u': "req_user delete_request = Some 1"
    and u'': "req_user list_request = Some 1"
    by (simp_all add: clear_tags_request_def delete_request_def list_request_def)
  have ev: "handle two_users_db (detail_url RecipeViewSet 1) clear_tags_request =
     (?d', \<lparr>status_code = HTTP_200_OK,
            res_data = recipe_detail (create_recipe 1 1 ''Sample title'')\<rparr>)"
    by (simp add: handle_def resolve_def dispatch_def check_permissions_def handler_def
        RecipeViewSet_update_def RecipeViewSet_get_queryset_def order_by_desc_def
        get_object_def is_valid_def RecipeSerializer_update_def assign_attrs_def
        clear_links_def save_recipe_def apply_fields_def Let_def
        clear_tags_request_def empty_payload_def two_users_db_def create_recipe_def)
  note c = user_scoping [OF pk ls u ev]
  have other: "create_recipe 2 2 ''Sample title'' \<in> set (db_recipes two_users_db)"
      "recipe_user (create_recipe 2 2 ''Sample title'') \<noteq> 1"
    by (simp_all add: two_users_db_def create_recipe_def)
  have n0: "nested TagKind two_users_db (create_recipe 2 2 ''Sample title'') =
      [\<lparr>attr_id = 2, attr_user = 2, attr_name = ''Dessert''\<rparr>]"
    by (simp add: nested_def linked_def two_users_db_def create_recipe_def)
  have c1: "others_unchanged 1 two_users_db ?d'"
    using c by simp
  have "nested TagKind ?d' (create_recipe 2 2 ''Sample title'') =
      nested TagKind two_users_db (create_recipe 2 2 ''Sample title'')"
    using c other by blast
  then have c2: "nested TagKind ?d' (create_recipe 2 2 ''Sample title'') =
      [\<lparr>attr_id = 2, attr_user = 2, attr_name = ''Dessert''\<rparr>]"
    using n0 by simp
  have c3: "scoped_body 1 ?d' (recipe_detail (create_recipe 1 1 ''Sample title''))"
    using c by simp
  have c4: "links_scoped ?d'"
    using c by simp
  have rt: "routed RecipeViewSet (detail_route 2) (req_method delete_request)"
    by (simp add: routed_def delete_request_def)
  have ob: "owned_by_other RecipeViewSet 2 1 two_users_db"
    by (simp add: owned_by_other_def two_users_db_def create_recipe_def)
  have del: "handle two_users_db (detail_url RecipeViewSet 2) delete_request =
     (two_users_db, \<lparr>status_code = HTTP_404_NOT_FOUND, res_data = no_content\<rparr>)"
    by (simp add: handle_def resolve_def dispatch_def check_permissions_def handler_def
        RecipeViewSet_destroy_def RecipeViewSet_get_queryset_def order_by_desc_def
        get_object_def error_response_def delete_request_def two_users_db_def
        create_recipe_def)
  have c5: "others_unchanged 1 two_users_db two_users_db"
    using user_scoping [OF pk ls u' del] by simp
  have lst: "handle two_users_db (list_url RecipeViewSet) list_request =
     (two_users_db,
      \<lparr>status_code = HTTP_200_OK, res_data = recipe_list [create_recipe 1 1 ''Sample title'']\<rparr>)"
    by (simp add: handle_def resolve_def dispatch_def check_permissions_def handler_def
        RecipeViewSet_list_def RecipeViewSet_get_queryset_def order_by_desc_def
        list_request_def two_users_db_def create_recipe_def)
  have n1: "nested TagKind two_users_db (create_recipe 1 1 ''Sample title'') =
      [\<lparr>attr_id = 1, attr_user = 1, attr_name = ''Vegan''\<rparr>]"
    by (simp add: nested_def linked_def two_users_db_def create_recipe_def)
  have sc: "scoped_body 1 two_users_db (recipe_list [create_recipe 1 1 ''Sample title''])"
    using user_scoping [OF pk ls u'' lst] by simp
  show ?thesis
    using pk ls u u' u'' ev c1 c2 c3 c4 c5 rt ob del lst n1 sc by simp
qed

text \<open>
  Without the condition on the links the statement of C1 fails. In a database where each
  of two users has a recipe linked to the tag of the other, user 1 deletes their own tag
  and the recipe of user 2 loses its tag, and the recipe list of user 1 shows a recipe
  whose nested tag belongs to user 2. And whatever the links, a GET of the detail URL of
  another user's tag is answered 405 Method Not Allowed, not 404: the tag and ingredient
  viewsets have no retrieve action.
\<close>

theorem user_scoping_counterexample:
  "pk_unique cross_linked_db \<and> fk_valid cross_linked_db \<and>
   req_user delete_request = Some 1 \<and>
   handle cross_linked_db (detail_url TagViewSet 1) delete_request =
     (cross_linked_db\<lparr>db_tags := [\<lparr>attr_id = 2, attr_user = 2, attr_name = ''Dessert''\<rparr>],
                      db_recipe_tags := [(1, 2)]\<rparr>,
      \<lparr>status_code = HTTP_204_NO_CONTENT, res_data = no_content\<rparr>) \<and>
   recipe_user (create_recipe 2 2 ''Sample title'') = 2 \<and>
   nested TagKind cross_linked_db (create_recipe 2 2 ''Sample title'') =
     [\<lparr>attr_id = 1, attr_user = 1, attr_name = ''Vegan''\<rparr>] \<and>
   nested TagKind
     (cross_linked_db\<lparr>db_tags := [\<lparr>attr_id = 2, attr_user = 2, attr_name = ''Dessert''\<rparr>],
                      db_recipe_tags := [(1, 2)]\<rparr>)
     (create_recipe 2 2 ''Sample title'') = [] \<and>
   \<not> others_unchanged 1 cross_linked_db
       (cross_linked_db\<lparr>db_tags := [\<lparr>attr_id = 2, attr_user = 2, attr_name = ''Dessert''\<rparr>],
                        db_recipe_tags := [(1, 2)]\<rparr>) \<and>
   req_user list_request = Some 1 \<and>
   handle cross_linked_db (list_url RecipeViewSet) list_request =
     (cross_linked_db,
      \<lparr>status_code = HTTP_200_OK, res_data = recipe_list [create_recipe 1 1 ''Sample title'']\<rparr>) \<and>
   nested TagKind cross_linked_db (create_recipe 1 1 ''Sample title'') =
     [\<lparr>attr_id = 2, attr_user = 2, attr_name = ''Dessert''\<rparr>] \<and>
   \<not> scoped_body 1 cross_linked_db (recipe_list [create_recipe 1 1 ''Sample title'']) \<and>
   \<not> links_scoped cross_linked_db \<and>
   owned_by_other TagViewSet 2 1 two_users_db \<and>
   handle two_users_db (detail_url TagViewSet 2) list_request =
     (two_users_db, \<lparr>status_code = HTTP_405_METHOD_NOT_ALLOWED, res_data = no_content\<rparr>)"
proof -
  have a: "pk_unique cross_linked_db" "fk_valid cross_linked_db"
    by (simp_all add: pk_unique_def fk_valid_def cross_linked_db_def create_recipe_def)
  have b: "req_user delete_request = Some 1" "req_user list_request = Some 1"
    by (simp_all add: delete_request_def list_request_def)
  have c: "handle cross_linked_db (detail_url TagViewSet 1) delete_request =
     (cross_linked_db\<lparr>db_tags := [\<lparr>attr_id = 2, attr_user = 2, attr_name = ''Dessert''\<rparr>],
                      db_recipe_tags := [(1, 2)]\<rparr>,
      \<lparr>status_code = HTTP_204_NO_CONTENT, res_data = no_content\<rparr>)"
    by (simp add: handle_def resolve_def dispatch_def check_permissions_def handler_def
        BaseRecipeAttrViewSet_destroy_def BaseRecipeAttrViewSet_get_queryset_def
        order_by_desc_def get_object_def error_response_def delete_attr_def
        delete_request_def cross_linked_db_def create_recipe_def)
  have d: "recipe_user (create_recipe 2 2 ''Sample title'') = 2"
    by (simp add: create_recipe_def)
  have e: "nested TagKind cross_linked_db (create_recipe 2 2 ''Sample title'') =
     [\<lparr>attr_id = 1, attr_user = 1, attr_name = ''Vegan''\<rparr>]"
    by (simp add: nested_def linked_def cross_linked_db_def create_recipe_def)
  have f: "nested TagKind
     (cross_linked_db\<lparr>db_tags := [\<lparr>attr_id = 2, attr_user = 2, attr_name = ''Dessert''\<rparr>],
                      db_recipe_tags := [(1, 2)]\<rparr>)
     (create_recipe 2 2 ''Sample title'') = []"
    by (simp add: nested_def linked_def cross_linked_db_def create_recipe_def)
  have g: "\<not> others_unchanged 1 cross_linked_db
       (cross_linked_db\<lparr>db_tags := [\<lparr>attr_id = 2, attr_user = 2, attr_name = ''Dessert''\<rparr>],
                        db_recipe_tags := [(1, 2)]\<rparr>)"
    by (simp add: others_unchanged_def their_links_def cross_linked_db_def create_recipe_def)
  have h: "handle cross_linked_db (list_url RecipeViewSet) list_request =
     (cross_linked_db,
      \<lparr>status_code = HTTP_200_OK, res_data = recipe_list [create_recipe 1 1 ''Sample title'']\<rparr>)"
    by (simp add: handle_def resolve_def dispatch_def check_permissions_def handler_def
        RecipeViewSet_list_def RecipeViewSet_get_queryset_def order_by_desc_def
        list_request_def cross_linked_db_def create_recipe_def)
  have i: "nested TagKind cross_linked_db (create_recipe 1 1 ''Sample title'') =
     [\<lparr>attr_id = 2, attr_user = 2, attr_name = ''Dessert''\<rparr>]"
    by (simp add: nested_def linked_def cross_linked_db_def create_recipe_def)
  have j: "\<not> scoped_body 1 cross_linked_db (recipe_list [create_recipe 1 1 ''Sample title''])"
    by (simp add: scoped_body_def nested_def linked_def cross_linked_db_def create_recipe_def)
  have k: "\<not> links_scoped cross_linked_db"
    by (simp add: links_scoped_def kind_links_scoped_def cross_linked_db_def create_recipe_def)
  have l: "owned_by_other TagViewSet 2 1 two_users_db"
    by (simp add: owned_by_other_def two_users_db_def)
  have m: "handle two_users_db (detail_url TagViewSet 2) list_request =
     (two_users_db, \<lparr>status_code = HTTP_405_METHOD_NOT_ALLOWED, res_data = no_content\<rparr>)"
    by (simp add: handle_def resolve_def dispatch_def check_permissions_def
        error_response_def list_request_def)
  show ?thesis
    using a b c d e f g h i j k l m by simp
qed

end
